(* ===== verification/Go_Prelude.thy ===== *)
theory Go_Prelude
  imports Complex_Main "HOL-Library.Word" "HOL-Library.Signed_Division"
begin

text \<open>
  The part of the Go language and of its standard library that the program uses, and the
  generic lemmas the components share.

  \<^item> Machine integers: \<open>int32\<close>, \<open>uint32\<close>, \<open>int64\<close> and \<open>uint64\<close> are words, read as
    two's complement by \<open>sint\<close> and as unsigned by \<open>uint\<close>.
  \<^item> Instants (\<open>time.Time\<close>) are integers: nanoseconds since the Unix epoch. The
    conversion of a Unix second count into an instant wraps at 64 bits as Go's does.
  \<^item> Durations (\<open>time.Duration\<close>) are signed 64-bit nanosecond counts;
    \<open>Time.Sub\<close> saturates, \<open>Duration.Seconds\<close> rounds to a 53-bit significand and the
    conversion to \<open>int32\<close> truncates towards zero. Out of range, that conversion is
    implementation-dependent in Go, so it is a parameter of the model.
  \<^item> The \<open>for\<close>/\<open>select\<close> loop that every goroutine of the program runs is the function
    \<open>select_loop\<close> over the sequence of outcomes of its \<open>select\<close>.
  \<^item> Strings: \<open>strings.Join\<close>, decimal formatting and the dash-separated keys.
\<close>

named_theorems go_defs \<open>definitions of the Go primitives, for evaluation\<close>

type_synonym int32 = "32 word"
type_synonym uint32 = "32 word"
type_synonym int64 = "64 word"
type_synonym uint64 = "64 word"
type_synonym Time = int
type_synonym Duration = int64

section \<open>Optional pointers and lists\<close>

text \<open>A getter of a generated message on a pointer that may be nil.\<close>

definition ptr_get :: "('a \<Rightarrow> 'b) \<Rightarrow> 'b \<Rightarrow> 'a option \<Rightarrow> 'b" where
  "ptr_get f d p = (case p of None \<Rightarrow> d | Some x \<Rightarrow> f x)"

lemma ptr_get_None [simp]: "ptr_get f d None = d"
  by (simp add: ptr_get_def)

lemma ptr_get_Some [simp]: "ptr_get f d (Some x) = f x"
  by (simp add: ptr_get_def)

section \<open>Durations and instants\<close>

definition Second_ns :: int where [go_defs]: "Second_ns = 1000000000"

definition time_Second :: Duration where [go_defs]: "time_Second = 1000000000"

definition time_Hour :: Duration where [go_defs]: "time_Hour = 3600000000000"

definition minDuration :: int where [go_defs]: "minDuration = - (2 ^ 63)"

definition maxDuration :: int where [go_defs]: "maxDuration = 2 ^ 63 - 1"

lemma time_Hour_nonzero [simp]: "time_Hour \<noteq> 0"
  by (simp add: time_Hour_def)

lemma sint_time_Hour [simp]: "sint time_Hour = 3600000000000"
  by (simp add: time_Hour_def)

text \<open>
  \<open>time.Unix\<close>: Go normalises the nanoseconds into \<open>[0, 10^9)\<close> and keeps the seconds as a
  64-bit count since year 1, so the addition of the offset wraps.
\<close>

definition unixToInternal :: int where [go_defs]: "unixToInternal = 62135596800"

definition time_Unix :: "int64 \<Rightarrow> int64 \<Rightarrow> Time" where
  "time_Unix sec nsec =
     (let s = sec + word_of_int (sint nsec div Second_ns);
          n = sint nsec mod Second_ns
      in (sint (s + word_of_int unixToInternal) - unixToInternal) * Second_ns + n)"

text \<open>\<open>Time.Unix\<close> and \<open>Time.Nanosecond\<close>.\<close>

definition time_unix_seconds :: "Time \<Rightarrow> int64" where
  [go_defs]: "time_unix_seconds t = word_of_int (t div Second_ns)"

definition time_nanosecond :: "Time \<Rightarrow> int" where
  [go_defs]: "time_nanosecond t = t mod Second_ns"

text \<open>\<open>Time.IsZero\<close>: the instant of January 1, year 1, 00:00:00 UTC.\<close>

definition time_IsZero :: "Time \<Rightarrow> bool" where
  [go_defs]: "time_IsZero t \<longleftrightarrow> t = - unixToInternal * Second_ns"

text \<open>\<open>Time.Sub\<close> saturates at the ends of the range of \<open>Duration\<close>.\<close>

definition time_Sub :: "Time \<Rightarrow> Time \<Rightarrow> Duration" where
  "time_Sub t u = word_of_int (max minDuration (min maxDuration (t - u)))"

text \<open>\<open>Time.Add\<close> on the instants the state store computes.\<close>

definition time_Add :: "Time \<Rightarrow> Duration \<Rightarrow> Time" where
  [go_defs]: "time_Add t d = t + sint d"

lemma sint_word64_of_int:
  "- (2 ^ 63) \<le> i \<Longrightarrow> i < 2 ^ 63 \<Longrightarrow> sint (word_of_int i :: int64) = i"
  by (simp add: sint_sbintrunc' signed_take_bit_int_eq_self)

lemma sint_word32_of_int:
  "- (2 ^ 31) \<le> i \<Longrightarrow> i < 2 ^ 31 \<Longrightarrow> sint (word_of_int i :: int32) = i"
  by (simp add: sint_sbintrunc' signed_take_bit_int_eq_self)

lemma sint_time_Sub:
  "sint (time_Sub t u) = max minDuration (min maxDuration (t - u))"
  unfolding time_Sub_def
  by (rule sint_word64_of_int) (auto simp: minDuration_def maxDuration_def max_def min_def)

lemma time_Sub_nonneg_iff: "0 \<le> sint (time_Sub t u) \<longleftrightarrow> u \<le> t"
  by (auto simp: sint_time_Sub minDuration_def maxDuration_def max_def min_def)

lemma time_unix_seconds_Unix [simp]: "time_unix_seconds (time_Unix s 0) = s"
proof -
  have "word_of_int (sint (s + word_of_int unixToInternal)) - word_of_int unixToInternal = s"
    by simp
  then show ?thesis
    by (simp add: time_unix_seconds_def time_Unix_def Second_ns_def)
qed

text \<open>In the range of real dates no wrap-around happens.\<close>

lemma time_Unix_small:
  assumes "- (2 ^ 62) \<le> sint s" and "sint s < 2 ^ 62"
  shows "time_Unix s 0 = sint s * Second_ns"
proof -
  have "sint (s + word_of_int unixToInternal) = sint s + unixToInternal"
  proof -
    have "s + word_of_int unixToInternal = word_of_int (sint s + unixToInternal)"
      by simp
    also have "sint \<dots> = sint s + unixToInternal"
      using assms by (intro sint_word64_of_int) (simp_all add: unixToInternal_def)
    finally show ?thesis .
  qed
  then show ?thesis
    by (simp add: time_Unix_def)
qed

section \<open>Floating point: the seconds of a duration\<close>

text \<open>
  A finite \<open>float64\<close> is the rational number it denotes. \<open>f64_round\<close> rounds a rational to the
  nearest number with a 53-bit significand, ties to even, as every IEEE operation does; the
  values here lie between one nanosecond and \<open>10^10\<close> seconds, far from overflow and from the
  subnormal range, so the exponent is not bounded.
\<close>

fun bit_length :: "nat \<Rightarrow> nat" where
  "bit_length n = (if n = 0 then 0 else Suc (bit_length (n div 2)))"

declare bit_length.simps [simp del]

definition f64_exponent :: "rat \<Rightarrow> int" where
  "f64_exponent r =
     (let (a, b) = quotient_of \<bar>r\<bar>;
          e = int (bit_length (nat a)) - int (bit_length (nat b))
      in if 2 powi e \<le> \<bar>r\<bar> then e else e - 1)"

definition round_half_even :: "rat \<Rightarrow> int" where
  "round_half_even x =
     (let f = \<lfloor>x\<rfloor>; d = x - of_int f
      in if d < 1/2 then f else if 1/2 < d then f + 1 else if even f then f else f + 1)"

definition f64_round :: "rat \<Rightarrow> rat" where
  "f64_round r =
     (if r = 0 then 0
      else let u = 2 powi (f64_exponent r - 52) in of_int (round_half_even (r / u)) * u)"

definition f64_of_int :: "int \<Rightarrow> rat" where
  "f64_of_int i = f64_round (of_int i)"

text \<open>\<open>Duration.Seconds\<close>: \<open>float64(d / Second) + float64(d % Second) / 1e9\<close>.\<close>

definition Duration_Seconds :: "Duration \<Rightarrow> rat" where
  "Duration_Seconds d =
     (let sec = sint d sdiv Second_ns; nsec = sint d smod Second_ns
      in f64_round (f64_of_int sec + f64_round (f64_of_int nsec / f64_of_int Second_ns)))"

definition rat_trunc :: "rat \<Rightarrow> int" where
  "rat_trunc r = (if r < 0 then \<lceil>r\<rceil> else \<lfloor>r\<rfloor>)"

text \<open>
  The conversion \<open>int32(f)\<close> of a \<open>float64\<close>; \<open>oor\<close> is the implementation-dependent result for
  a value that does not fit.
\<close>

definition f64_to_int32 :: "(rat \<Rightarrow> int32) \<Rightarrow> rat \<Rightarrow> int32" where
  "f64_to_int32 oor r =
     (let z = rat_trunc r in if - (2 ^ 31) \<le> z \<and> z < 2 ^ 31 then word_of_int z else oor r)"

lemma bit_length_le: "n < 2 ^ k \<Longrightarrow> bit_length n \<le> k"
proof (induction n arbitrary: k rule: bit_length.induct)
  case (1 n)
  show ?case
  proof (cases "n = 0")
    case True
    then show ?thesis by (simp add: bit_length.simps)
  next
    case False
    with "1.prems" obtain j where k: "k = Suc j" by (cases k) auto
    with "1.prems" have "n div 2 < 2 ^ j" by auto
    with "1.IH" False have "bit_length (n div 2) \<le> j" by blast
    with False k show ?thesis by (simp add: bit_length.simps [of n])
  qed
qed

lemma bit_length_1 [simp]: "bit_length (Suc 0) = 1"
  by (simp add: bit_length.simps)

lemma f64_exponent_of_int_le:
  assumes "\<bar>i\<bar> < 2 ^ 53" and "i \<noteq> 0"
  shows "f64_exponent (of_int i) \<le> 52"
proof -
  define e where "e = int (bit_length (nat \<bar>i\<bar>)) - 1"
  have "\<bar>rat_of_int i\<bar> = Fract \<bar>i\<bar> 1"
    by (simp add: Fract_of_int_eq)
  then have q: "quotient_of \<bar>rat_of_int i\<bar> = (\<bar>i\<bar>, 1)"
    by (simp add: quotient_of_Fract Rat.normalize_def)
  have "nat \<bar>i\<bar> < 2 ^ 53"
    using assms(1) by (simp add: nat_less_iff)
  then have "e \<le> 52"
    unfolding e_def using bit_length_le [of "nat \<bar>i\<bar>" 53] by simp
  then show ?thesis
    by (simp add: f64_exponent_def q Let_def e_def)
qed

lemma round_half_even_of_int [simp]: "round_half_even (of_int i) = i"
  by (simp add: round_half_even_def)

text \<open>Integers of at most 53 bits are exact.\<close>

lemma f64_round_of_int [simp]:
  assumes "\<bar>i\<bar> < 2 ^ 53"
  shows "f64_round (of_int i) = of_int i"
proof (cases "i = 0")
  case True
  then show ?thesis by (simp add: f64_round_def)
next
  case False
  define k where "k = nat (52 - f64_exponent (of_int i))"
  have e: "f64_exponent (of_int i) - 52 = - int k"
    using f64_exponent_of_int_le [OF assms False] by (simp add: k_def)
  have u: "(2::rat) powi (- int k) = 1 / 2 ^ k"
    by (simp add: power_int_minus divide_inverse)
  have "of_int i / (1 / 2 ^ k :: rat) = of_int (i * 2 ^ k)"
    by simp
  then have "round_half_even (of_int i / (1 / 2 ^ k)) = i * 2 ^ k"
    by (metis round_half_even_of_int)
  then show ?thesis
    using False by (simp add: f64_round_def e u Let_def)
qed

lemma f64_of_int_exact [simp]: "\<bar>i\<bar> < 2 ^ 53 \<Longrightarrow> f64_of_int i = of_int i"
  by (simp add: f64_of_int_def)

lemma f64_round_0 [simp]: "f64_round 0 = 0"
  by (simp add: f64_round_def)

lemma rat_trunc_of_int [simp]: "rat_trunc (of_int i) = i"
  by (simp add: rat_trunc_def)

text \<open>A duration of a whole number of seconds is measured exactly.\<close>

lemma Duration_Seconds_whole:
  assumes "sint d = s * Second_ns"
  shows "Duration_Seconds d = of_int s"
proof -
  have r: "- (2 ^ 63) \<le> sint d" "sint d < 2 ^ 63"
    using sint_ge [of d] sint_lt [of d] by simp_all
  then have "\<bar>s\<bar> < 2 ^ 53"
    using assms by (auto simp: Second_ns_def abs_less_iff)
  moreover have "sint d sdiv Second_ns = s" "sint d smod Second_ns = 0"
    unfolding assms by (simp_all add: signed_divide_int_def signed_modulo_int_def
        Second_ns_def abs_mult sgn_mult mult.commute abs_mult_sgn)
  ultimately show ?thesis
    by (simp add: Duration_Seconds_def f64_of_int_def)
qed

text \<open>\<open>int32(t.Sub(u).Seconds())\<close>, the measure all derived metrics use.\<close>

definition elapsed_seconds :: "(rat \<Rightarrow> int32) \<Rightarrow> Time \<Rightarrow> Time \<Rightarrow> int32" where
  "elapsed_seconds oor t u = f64_to_int32 oor (Duration_Seconds (time_Sub t u))"

lemma elapsed_seconds_whole:
  assumes "t - u = s * Second_ns" and "- (2 ^ 31) \<le> s" and "s < 2 ^ 31"
  shows "elapsed_seconds oor t u = word_of_int s"
proof -
  have "sint (time_Sub t u) = s * Second_ns"
    using assms by (auto simp: sint_time_Sub minDuration_def maxDuration_def Second_ns_def)
  then have "Duration_Seconds (time_Sub t u) = of_int s"
    by (rule Duration_Seconds_whole)
  with assms(2,3) show ?thesis
    by (simp add: elapsed_seconds_def f64_to_int32_def)
qed

lemma sint_elapsed_seconds_whole:
  assumes "t - u = s * Second_ns" and "- (2 ^ 31) \<le> s" and "s < 2 ^ 31"
  shows "sint (elapsed_seconds oor t u) = s"
  using assms by (simp only: elapsed_seconds_whole sint_word32_of_int)

section \<open>Strings\<close>

text \<open>Decimal formatting: \<open>strconv.FormatUint(n, 10)\<close> and the verb \<open>%d\<close>.\<close>

definition digit_char :: "nat \<Rightarrow> char" where
  "digit_char d = ''0123456789'' ! d"

fun decimal :: "nat \<Rightarrow> string" where
  "decimal n = (if n < 10 then [digit_char n] else decimal (n div 10) @ [digit_char (n mod 10)])"

declare decimal.simps [simp del]

definition decimal_int :: "int \<Rightarrow> string" where
  "decimal_int i = (if i < 0 then ''-'' @ decimal (nat (- i)) else decimal (nat i))"

text \<open>\<open>strings.Join\<close>.\<close>

fun strings_Join :: "string list \<Rightarrow> string \<Rightarrow> string" where
  "strings_Join [] sep = []"
| "strings_Join [x] sep = x"
| "strings_Join (x # xs) sep = x @ sep @ strings_Join xs sep"

text \<open>\<open>strings.TrimPrefix\<close> and \<open>strings.TrimRight\<close> with a cutset of one character.\<close>

definition strings_TrimPrefix :: "string \<Rightarrow> string \<Rightarrow> string" where
  "strings_TrimPrefix s p = (if take (length p) s = p then drop (length p) s else s)"

definition strings_TrimRight1 :: "string \<Rightarrow> char \<Rightarrow> string" where
  "strings_TrimRight1 s c = rev (dropWhile (\<lambda>x. x = c) (rev s))"

text \<open>The keys of the state stores are their components joined by dashes.\<close>

abbreviation dash_free :: "string \<Rightarrow> bool" where
  "dash_free s \<equiv> CHR ''-'' \<notin> set s"

lemma dash_split:
  assumes "dash_free x" and "dash_free y" and "x @ CHR ''-'' # u = y @ CHR ''-'' # v"
  shows "x = y \<and> u = v"
  using assms
proof (induction x arbitrary: y)
  case Nil
  then show ?case by (cases y) auto
next
  case (Cons c x)
  then show ?case by (cases y) auto
qed

lemma dash_split_iff:
  "dash_free x \<Longrightarrow> dash_free y \<Longrightarrow> x @ CHR ''-'' # u = y @ CHR ''-'' # v \<longleftrightarrow> x = y \<and> u = v"
  using dash_split by blast

lemma digit_char_digit: "d < 10 \<Longrightarrow> digit_char d \<in> set ''0123456789''"
  unfolding digit_char_def by (rule nth_mem) simp

lemma set_decimal: "set (decimal n) \<subseteq> set ''0123456789''"
proof (induction n rule: decimal.induct)
  case (1 n)
  show ?case
  proof (cases "n < 10")
    case True
    then show ?thesis
      using digit_char_digit [of n] by (subst decimal.simps) auto
  next
    case False
    have "digit_char (n mod 10) \<in> set ''0123456789''"
      by (rule digit_char_digit) simp
    moreover have "set (decimal (n div 10)) \<subseteq> set ''0123456789''"
      using "1.IH" False by blast
    ultimately show ?thesis
      using False by (subst decimal.simps) auto
  qed
qed

lemma decimal_dash_free [simp]: "dash_free (decimal n)"
  using set_decimal [of n] by auto

lemma decimal_nonempty [simp]: "decimal n \<noteq> []"
  by (subst decimal.simps) simp

end
