(* ===== verification/Events.thy ===== *)
theory Events
  imports Go_Prelude
begin

text \<open>
  The data of the pipeline: the generated messages of \<open>api/v1/events/transit.pb.go\<close> with their
  nil-safe getters, the part of the GTFS-realtime messages of
  \<open>third_party/gtfs/gtfs-realtime.proto\<close> that the program reads, and the functions of
  \<open>api/v1/events/events.go\<close> that turn an event into a string-keyed map.

  A pointer to a message is an \<open>option\<close>, \<open>None\<close> being nil. An enum is its \<open>int32\<close> number, as in
  the generated code, because a proto3 enum is open. A Go struct literal is an update of the
  zero value, so omitted fields are visibly zero. The internal bookkeeping fields of the
  generated structs are left out.

  The record \<open>platform\<close> holds what is not under \<open>src/\<close>: the protobuf runtime
  (\<open>timestamppb\<close>, \<open>proto.Unmarshal\<close>) and the implementation-dependent float conversion.
\<close>

section \<open>Enums\<close>

type_synonym StopStatus = int32

definition StopStatus_UNKNOWN :: StopStatus where "StopStatus_UNKNOWN = 0"
definition StopStatus_INCOMING_AT :: StopStatus where "StopStatus_INCOMING_AT = 1"
definition StopStatus_STOPPED_AT :: StopStatus where "StopStatus_STOPPED_AT = 2"
definition StopStatus_IN_TRANSIT_TO :: StopStatus where "StopStatus_IN_TRANSIT_TO = 3"

lemmas StopStatus_defs =
  StopStatus_UNKNOWN_def StopStatus_INCOMING_AT_def
  StopStatus_STOPPED_AT_def StopStatus_IN_TRANSIT_TO_def

lemma StopStatus_distinct [simp]:
  "StopStatus_UNKNOWN \<noteq> StopStatus_INCOMING_AT" "StopStatus_INCOMING_AT \<noteq> StopStatus_UNKNOWN"
  "StopStatus_UNKNOWN \<noteq> StopStatus_STOPPED_AT" "StopStatus_STOPPED_AT \<noteq> StopStatus_UNKNOWN"
  "StopStatus_UNKNOWN \<noteq> StopStatus_IN_TRANSIT_TO" "StopStatus_IN_TRANSIT_TO \<noteq> StopStatus_UNKNOWN"
  "StopStatus_INCOMING_AT \<noteq> StopStatus_STOPPED_AT" "StopStatus_STOPPED_AT \<noteq> StopStatus_INCOMING_AT"
  "StopStatus_INCOMING_AT \<noteq> StopStatus_IN_TRANSIT_TO"
  "StopStatus_IN_TRANSIT_TO \<noteq> StopStatus_INCOMING_AT"
  "StopStatus_STOPPED_AT \<noteq> StopStatus_IN_TRANSIT_TO"
  "StopStatus_IN_TRANSIT_TO \<noteq> StopStatus_STOPPED_AT"
  by (simp_all add: StopStatus_defs)

text \<open>The table \<open>StopStatus_name\<close>.\<close>

definition StopStatus_name :: "StopStatus \<Rightarrow> string option" where
  "StopStatus_name n =
     (if n = 0 then Some ''UNKNOWN'' else if n = 1 then Some ''INCOMING_AT''
      else if n = 2 then Some ''STOPPED_AT'' else if n = 3 then Some ''IN_TRANSIT_TO'' else None)"

type_synonym EventType = int32

definition StopEvent_UNKNOWN :: EventType where "StopEvent_UNKNOWN = 0"
definition StopEvent_ARRIVAL :: EventType where "StopEvent_ARRIVAL = 1"
definition StopEvent_DEPARTURE :: EventType where "StopEvent_DEPARTURE = 2"

lemmas EventType_defs = StopEvent_UNKNOWN_def StopEvent_ARRIVAL_def StopEvent_DEPARTURE_def

lemma EventType_distinct [simp]:
  "StopEvent_UNKNOWN \<noteq> StopEvent_ARRIVAL" "StopEvent_ARRIVAL \<noteq> StopEvent_UNKNOWN"
  "StopEvent_UNKNOWN \<noteq> StopEvent_DEPARTURE" "StopEvent_DEPARTURE \<noteq> StopEvent_UNKNOWN"
  "StopEvent_ARRIVAL \<noteq> StopEvent_DEPARTURE" "StopEvent_DEPARTURE \<noteq> StopEvent_ARRIVAL"
  by (simp_all add: EventType_defs)

text \<open>The table \<open>StopEvent_EventType_name\<close>.\<close>

definition StopEvent_EventType_name :: "EventType \<Rightarrow> string option" where
  "StopEvent_EventType_name n =
     (if n = 0 then Some ''UNKNOWN'' else if n = 1 then Some ''ARRIVAL''
      else if n = 2 then Some ''DEPARTURE'' else None)"

text \<open>The method \<open>String\<close> of the enum \<open>StopEvent_EventType\<close>: the name, or the number when it has none.\<close>

definition EventType_String :: "EventType \<Rightarrow> string" where
  "EventType_String n =
     (case StopEvent_EventType_name n of Some s \<Rightarrow> s | None \<Rightarrow> decimal_int (sint n))"

section \<open>Messages\<close>

text \<open>\<open>google.protobuf.Timestamp\<close>.\<close>

record Timestamp =
  Seconds :: int64
  Nanos :: int32

text \<open>A floating point value as the number it denotes; \<open>float32\<close> values are among the \<open>float64\<close> ones.\<close>

datatype go_float = Finite rat | NegZero | PosInf | NegInf | NaN

record EventAttributes =
  AgencyId :: string
  VehicleId :: string
  RouteId :: string
  StopId :: string
  OriginStopId :: string
  DestinationStopId :: string
  DirectionId :: string
  Direction :: string
  DirectionDestination :: string
  ParentStation :: string
  StopSequence :: int32
  StopStatus :: StopStatus
  TripId :: string
  ServiceDate :: string
  Timestamp :: "Timestamp option"

definition EventAttributes_zero :: EventAttributes where
  "EventAttributes_zero =
     \<lparr>AgencyId = [], VehicleId = [], RouteId = [], StopId = [], OriginStopId = [],
      DestinationStopId = [], DirectionId = [], Direction = [], DirectionDestination = [],
      ParentStation = [], StopSequence = 0, StopStatus = 0, TripId = [], ServiceDate = [],
      Timestamp = None\<rparr>"

record VehiclePositionEvent =
  vpe_Attributes :: "EventAttributes option"
  vpe_Latitude :: go_float
  vpe_Longitude :: go_float

record StopEvent =
  se_Attributes :: "EventAttributes option"
  se_StopEventType :: EventType

record DwellTimeEvent =
  dte_Attributes :: "EventAttributes option"
  dte_ArrivalTime :: "Timestamp option"
  dte_DepartureTime :: "Timestamp option"
  dte_DwellTimeSeconds :: int32

record TravelTimeEvent =
  tte_Attributes :: "EventAttributes option"
  tte_StartTime :: "Timestamp option"
  tte_EndTime :: "Timestamp option"
  tte_TravelTimeSeconds :: int32

record HeadwayTimeEvent =
  hte_Attributes :: "EventAttributes option"
  hte_LeadingVehicleId :: string
  hte_FollowingVehicleId :: string
  hte_HeadwaySeconds :: int32

text \<open>The empty messages \<open>&pb.StopEvent{}\<close> and \<open>&pb.VehiclePositionEvent{}\<close>.\<close>

definition StopEvent_zero :: StopEvent where
  "StopEvent_zero = \<lparr>se_Attributes = None, se_StopEventType = 0\<rparr>"

definition VehiclePositionEvent_zero :: VehiclePositionEvent where
  "VehiclePositionEvent_zero =
     \<lparr>vpe_Attributes = None, vpe_Latitude = Finite 0, vpe_Longitude = Finite 0\<rparr>"

subsection \<open>Getters\<close>

definition GetAgencyId :: "EventAttributes option \<Rightarrow> string" where
  [simp]: "GetAgencyId a = ptr_get AgencyId [] a"
definition GetVehicleId :: "EventAttributes option \<Rightarrow> string" where
  [simp]: "GetVehicleId a = ptr_get VehicleId [] a"
definition GetRouteId :: "EventAttributes option \<Rightarrow> string" where
  [simp]: "GetRouteId a = ptr_get RouteId [] a"
definition GetStopId :: "EventAttributes option \<Rightarrow> string" where
  [simp]: "GetStopId a = ptr_get StopId [] a"
definition GetOriginStopId :: "EventAttributes option \<Rightarrow> string" where
  [simp]: "GetOriginStopId a = ptr_get OriginStopId [] a"
definition GetDestinationStopId :: "EventAttributes option \<Rightarrow> string" where
  [simp]: "GetDestinationStopId a = ptr_get DestinationStopId [] a"
definition GetDirectionId :: "EventAttributes option \<Rightarrow> string" where
  [simp]: "GetDirectionId a = ptr_get DirectionId [] a"
definition GetDirection :: "EventAttributes option \<Rightarrow> string" where
  [simp]: "GetDirection a = ptr_get Direction [] a"
definition GetDirectionDestination :: "EventAttributes option \<Rightarrow> string" where
  [simp]: "GetDirectionDestination a = ptr_get DirectionDestination [] a"
definition GetParentStation :: "EventAttributes option \<Rightarrow> string" where
  [simp]: "GetParentStation a = ptr_get ParentStation [] a"
definition GetStopSequence :: "EventAttributes option \<Rightarrow> int32" where
  [simp]: "GetStopSequence a = ptr_get StopSequence 0 a"
definition GetStopStatus :: "EventAttributes option \<Rightarrow> StopStatus" where
  [simp]: "GetStopStatus a = ptr_get StopStatus StopStatus_UNKNOWN a"
definition GetTripId :: "EventAttributes option \<Rightarrow> string" where
  [simp]: "GetTripId a = ptr_get TripId [] a"
definition GetServiceDate :: "EventAttributes option \<Rightarrow> string" where
  [simp]: "GetServiceDate a = ptr_get ServiceDate [] a"
definition GetTimestamp :: "EventAttributes option \<Rightarrow> Timestamp option" where
  [simp]: "GetTimestamp a = ptr_get Timestamp None a"

definition VehiclePositionEvent_GetAttributes ::
    "VehiclePositionEvent option \<Rightarrow> EventAttributes option" where
  [simp]: "VehiclePositionEvent_GetAttributes e = ptr_get vpe_Attributes None e"
definition VehiclePositionEvent_GetLatitude :: "VehiclePositionEvent option \<Rightarrow> go_float" where
  [simp]: "VehiclePositionEvent_GetLatitude e = ptr_get vpe_Latitude (Finite 0) e"
definition VehiclePositionEvent_GetLongitude :: "VehiclePositionEvent option \<Rightarrow> go_float" where
  [simp]: "VehiclePositionEvent_GetLongitude e = ptr_get vpe_Longitude (Finite 0) e"

definition StopEvent_GetAttributes :: "StopEvent option \<Rightarrow> EventAttributes option" where
  [simp]: "StopEvent_GetAttributes e = ptr_get se_Attributes None e"
definition StopEvent_GetStopEventType :: "StopEvent option \<Rightarrow> EventType" where
  [simp]: "StopEvent_GetStopEventType e = ptr_get se_StopEventType StopEvent_UNKNOWN e"

definition DwellTimeEvent_GetAttributes :: "DwellTimeEvent option \<Rightarrow> EventAttributes option" where
  [simp]: "DwellTimeEvent_GetAttributes e = ptr_get dte_Attributes None e"
definition DwellTimeEvent_GetArrivalTime :: "DwellTimeEvent option \<Rightarrow> Timestamp option" where
  [simp]: "DwellTimeEvent_GetArrivalTime e = ptr_get dte_ArrivalTime None e"
definition DwellTimeEvent_GetDepartureTime :: "DwellTimeEvent option \<Rightarrow> Timestamp option" where
  [simp]: "DwellTimeEvent_GetDepartureTime e = ptr_get dte_DepartureTime None e"
definition DwellTimeEvent_GetDwellTimeSeconds :: "DwellTimeEvent option \<Rightarrow> int32" where
  [simp]: "DwellTimeEvent_GetDwellTimeSeconds e = ptr_get dte_DwellTimeSeconds 0 e"

definition TravelTimeEvent_GetAttributes :: "TravelTimeEvent option \<Rightarrow> EventAttributes option" where
  [simp]: "TravelTimeEvent_GetAttributes e = ptr_get tte_Attributes None e"
definition TravelTimeEvent_GetStartTime :: "TravelTimeEvent option \<Rightarrow> Timestamp option" where
  [simp]: "TravelTimeEvent_GetStartTime e = ptr_get tte_StartTime None e"
definition TravelTimeEvent_GetEndTime :: "TravelTimeEvent option \<Rightarrow> Timestamp option" where
  [simp]: "TravelTimeEvent_GetEndTime e = ptr_get tte_EndTime None e"
definition TravelTimeEvent_GetTravelTimeSeconds :: "TravelTimeEvent option \<Rightarrow> int32" where
  [simp]: "TravelTimeEvent_GetTravelTimeSeconds e = ptr_get tte_TravelTimeSeconds 0 e"

definition HeadwayTimeEvent_GetAttributes :: "HeadwayTimeEvent option \<Rightarrow> EventAttributes option" where
  [simp]: "HeadwayTimeEvent_GetAttributes e = ptr_get hte_Attributes None e"
definition HeadwayTimeEvent_GetLeadingVehicleId :: "HeadwayTimeEvent option \<Rightarrow> string" where
  [simp]: "HeadwayTimeEvent_GetLeadingVehicleId e = ptr_get hte_LeadingVehicleId [] e"
definition HeadwayTimeEvent_GetFollowingVehicleId :: "HeadwayTimeEvent option \<Rightarrow> string" where
  [simp]: "HeadwayTimeEvent_GetFollowingVehicleId e = ptr_get hte_FollowingVehicleId [] e"
definition HeadwayTimeEvent_GetHeadwaySeconds :: "HeadwayTimeEvent option \<Rightarrow> int32" where
  [simp]: "HeadwayTimeEvent_GetHeadwaySeconds e = ptr_get hte_HeadwaySeconds 0 e"

section \<open>GTFS-realtime messages\<close>

text \<open>
  The fields of the proto2 messages the program reads. An optional scalar field is an
  \<open>option\<close>; its getter returns the declared default when it is unset.
\<close>

record gtfs_TripDescriptor =
  gtfs_trip_id :: "string option"
  gtfs_route_id :: "string option"
  gtfs_direction_id :: "uint32 option"
  gtfs_start_date :: "string option"

record gtfs_VehicleDescriptor =
  gtfs_vehicle_id :: "string option"

record gtfs_Position =
  gtfs_latitude :: "go_float option"
  gtfs_longitude :: "go_float option"

record gtfs_VehiclePosition =
  gtfs_trip :: "gtfs_TripDescriptor option"
  gtfs_vehicle :: "gtfs_VehicleDescriptor option"
  gtfs_position :: "gtfs_Position option"
  gtfs_current_stop_sequence :: "uint32 option"
  gtfs_stop_id :: "string option"
  gtfs_current_status :: "int32 option"
  gtfs_timestamp :: "uint64 option"

record gtfs_FeedEntity =
  gtfs_entity_vehicle :: "gtfs_VehiclePosition option"

record gtfs_FeedHeader =
  gtfs_header_timestamp :: "uint64 option"

record gtfs_FeedMessage =
  gtfs_header :: "gtfs_FeedHeader option"
  gtfs_entity :: "gtfs_FeedEntity option list"

definition gtfs_INCOMING_AT :: int32 where "gtfs_INCOMING_AT = 0"
definition gtfs_STOPPED_AT :: int32 where "gtfs_STOPPED_AT = 1"
definition gtfs_IN_TRANSIT_TO :: int32 where "gtfs_IN_TRANSIT_TO = 2"

lemmas gtfs_status_defs = gtfs_INCOMING_AT_def gtfs_STOPPED_AT_def gtfs_IN_TRANSIT_TO_def

text \<open>An unset scalar field reads as its default.\<close>

definition opt_get :: "('a \<Rightarrow> 'b option) \<Rightarrow> 'b \<Rightarrow> 'a option \<Rightarrow> 'b" where
  [simp]: "opt_get f d m = ptr_get (\<lambda>x. ptr_get id d (f x)) d m"

definition gtfs_GetEntity :: "gtfs_FeedMessage option \<Rightarrow> gtfs_FeedEntity option list" where
  [simp]: "gtfs_GetEntity m = ptr_get gtfs_entity [] m"
definition gtfs_GetVehicle :: "gtfs_FeedEntity option \<Rightarrow> gtfs_VehiclePosition option" where
  [simp]: "gtfs_GetVehicle e = ptr_get gtfs_entity_vehicle None e"
definition gtfs_GetTrip :: "gtfs_VehiclePosition option \<Rightarrow> gtfs_TripDescriptor option" where
  [simp]: "gtfs_GetTrip v = ptr_get gtfs_trip None v"
definition gtfs_GetVehicleDescriptor ::
    "gtfs_VehiclePosition option \<Rightarrow> gtfs_VehicleDescriptor option" where
  [simp]: "gtfs_GetVehicleDescriptor v = ptr_get gtfs_vehicle None v"
definition gtfs_GetPosition :: "gtfs_VehiclePosition option \<Rightarrow> gtfs_Position option" where
  [simp]: "gtfs_GetPosition v = ptr_get gtfs_position None v"
definition gtfs_GetCurrentStatus :: "gtfs_VehiclePosition option \<Rightarrow> int32" where
  [simp]: "gtfs_GetCurrentStatus v = opt_get gtfs_current_status gtfs_IN_TRANSIT_TO v"
definition gtfs_GetStopId :: "gtfs_VehiclePosition option \<Rightarrow> string" where
  [simp]: "gtfs_GetStopId v = opt_get gtfs_stop_id [] v"
definition gtfs_GetCurrentStopSequence :: "gtfs_VehiclePosition option \<Rightarrow> uint32" where
  [simp]: "gtfs_GetCurrentStopSequence v = opt_get gtfs_current_stop_sequence 0 v"
definition gtfs_GetTimestamp :: "gtfs_VehiclePosition option \<Rightarrow> uint64" where
  [simp]: "gtfs_GetTimestamp v = opt_get gtfs_timestamp 0 v"
definition gtfs_GetId :: "gtfs_VehicleDescriptor option \<Rightarrow> string" where
  [simp]: "gtfs_GetId v = opt_get gtfs_vehicle_id [] v"
definition gtfs_GetTripId :: "gtfs_TripDescriptor option \<Rightarrow> string" where
  [simp]: "gtfs_GetTripId t = opt_get gtfs_trip_id [] t"
definition gtfs_GetRouteId :: "gtfs_TripDescriptor option \<Rightarrow> string" where
  [simp]: "gtfs_GetRouteId t = opt_get gtfs_route_id [] t"
definition gtfs_GetDirectionId :: "gtfs_TripDescriptor option \<Rightarrow> uint32" where
  [simp]: "gtfs_GetDirectionId t = opt_get gtfs_direction_id 0 t"
definition gtfs_GetStartDate :: "gtfs_TripDescriptor option \<Rightarrow> string" where
  [simp]: "gtfs_GetStartDate t = opt_get gtfs_start_date [] t"
definition gtfs_GetLatitude :: "gtfs_Position option \<Rightarrow> go_float" where
  [simp]: "gtfs_GetLatitude p = opt_get gtfs_latitude (Finite 0) p"
definition gtfs_GetLongitude :: "gtfs_Position option \<Rightarrow> go_float" where
  [simp]: "gtfs_GetLongitude p = opt_get gtfs_longitude (Finite 0) p"
definition gtfs_header_GetTimestamp :: "gtfs_FeedHeader option \<Rightarrow> uint64" where
  [simp]: "gtfs_header_GetTimestamp h = opt_get gtfs_header_timestamp 0 h"

record FeedMessageEvent =
  fme_AgencyId :: string
  fme_FeedMessage :: "gtfs_FeedMessage option"

definition FeedMessageEvent_GetAgencyId :: "FeedMessageEvent option \<Rightarrow> string" where
  [simp]: "FeedMessageEvent_GetAgencyId e = ptr_get fme_AgencyId [] e"
definition FeedMessageEvent_GetFeedMessage ::
    "FeedMessageEvent option \<Rightarrow> gtfs_FeedMessage option" where
  [simp]: "FeedMessageEvent_GetFeedMessage e = ptr_get fme_FeedMessage None e"

section \<open>Dynamically typed values\<close>

type_synonym bytes = "8 word list"

text \<open>
  The types that implement the interface \<open>events.Event\<close>: those with a \<open>GetAttributes\<close> that
  returns the attributes message and a \<open>GetValues\<close>. The pointer inside may be nil.
\<close>

datatype event =
    VehiclePosition_event "VehiclePositionEvent option"
  | Stop_event "StopEvent option"
  | Dwell_event "DwellTimeEvent option"
  | Travel_event "TravelTimeEvent option"
  | Headway_event "HeadwayTimeEvent option"

text \<open>
  A value of type \<open>any\<close> on a channel, or of the interface type \<open>proto.Message\<close> in a state
  store. \<open>Any_other\<close> is any other type, by its name.
\<close>

datatype go_any =
    Any_nil
  | Any_event event
  | Any_FeedMessageEvent "FeedMessageEvent option"
  | Any_FeedMessage "gtfs_FeedMessage option"
  | Any_bytes bytes
  | Any_other string

abbreviation Any_StopEvent :: "StopEvent option \<Rightarrow> go_any" where
  "Any_StopEvent e \<equiv> Any_event (Stop_event e)"

abbreviation Any_VehiclePositionEvent :: "VehiclePositionEvent option \<Rightarrow> go_any" where
  "Any_VehiclePositionEvent e \<equiv> Any_event (VehiclePosition_event e)"

text \<open>The type assertion \<open>v.(*pb.StopEvent)\<close>.\<close>

definition as_StopEvent :: "go_any \<Rightarrow> StopEvent option option" where
  "as_StopEvent v = (case v of Any_event (Stop_event e) \<Rightarrow> Some e | _ \<Rightarrow> None)"

definition as_VehiclePositionEvent :: "go_any \<Rightarrow> VehiclePositionEvent option option" where
  "as_VehiclePositionEvent v =
     (case v of Any_event (VehiclePosition_event e) \<Rightarrow> Some e | _ \<Rightarrow> None)"

text \<open>The type assertion \<open>v.(events.Event)\<close>.\<close>

definition as_Event :: "go_any \<Rightarrow> event option" where
  "as_Event v = (case v of Any_event e \<Rightarrow> Some e | _ \<Rightarrow> None)"

text \<open>The method \<open>GetAttributes\<close> of the interface.\<close>

definition event_GetAttributes :: "event \<Rightarrow> EventAttributes option" where
  "event_GetAttributes e =
     (case e of
        VehiclePosition_event v \<Rightarrow> VehiclePositionEvent_GetAttributes v
      | Stop_event v \<Rightarrow> StopEvent_GetAttributes v
      | Dwell_event v \<Rightarrow> DwellTimeEvent_GetAttributes v
      | Travel_event v \<Rightarrow> TravelTimeEvent_GetAttributes v
      | Headway_event v \<Rightarrow> HeadwayTimeEvent_GetAttributes v)"

text \<open>The verb \<open>%T\<close>: the dynamic type.\<close>

definition event_T :: "event \<Rightarrow> string" where
  "event_T e =
     (case e of
        VehiclePosition_event v \<Rightarrow> ''*events.VehiclePositionEvent''
      | Stop_event v \<Rightarrow> ''*events.StopEvent''
      | Dwell_event v \<Rightarrow> ''*events.DwellTimeEvent''
      | Travel_event v \<Rightarrow> ''*events.TravelTimeEvent''
      | Headway_event v \<Rightarrow> ''*events.HeadwayTimeEvent'')"

lemma as_StopEvent_simps [simp]:
  "as_StopEvent (Any_StopEvent e) = Some e"
  "as_StopEvent Any_nil = None"
  "as_StopEvent (Any_bytes b) = None"
  "as_StopEvent (Any_VehiclePositionEvent v) = None"
  by (simp_all add: as_StopEvent_def)

lemma as_VehiclePositionEvent_simps [simp]:
  "as_VehiclePositionEvent (Any_VehiclePositionEvent e) = Some e"
  "as_VehiclePositionEvent Any_nil = None"
  "as_VehiclePositionEvent (Any_StopEvent s) = None"
  by (simp_all add: as_VehiclePositionEvent_def)

lemma as_StopEvent_eq_Some: "as_StopEvent v = Some e \<longleftrightarrow> v = Any_StopEvent e"
  by (auto simp: as_StopEvent_def split: go_any.splits event.splits)

lemma as_VehiclePositionEvent_eq_Some:
  "as_VehiclePositionEvent v = Some e \<longleftrightarrow> v = Any_VehiclePositionEvent e"
  by (auto simp: as_VehiclePositionEvent_def split: go_any.splits event.splits)

section \<open>Code outside the repository\<close>

record platform =
  AsTime :: "Timestamp option \<Rightarrow> Time"
  timestamppb_New :: "Time \<Rightarrow> Timestamp"
  int32_out_of_range :: "rat \<Rightarrow> int32"
  Unmarshal_FeedMessage :: "bytes \<Rightarrow> gtfs_FeedMessage option"
  Unmarshal_VehiclePositionEvent :: "bytes \<Rightarrow> VehiclePositionEvent option"

text \<open>
  The documented behaviour of \<open>timestamppb\<close>: \<open>AsTime\<close> is \<open>time.Unix\<close> of the two fields, which
  read as zero on a nil pointer, and \<open>New\<close> stores the Unix seconds and the nanoseconds.
\<close>

definition timestamppb_spec :: "platform \<Rightarrow> bool" where
  "timestamppb_spec pf \<longleftrightarrow>
     (\<forall>ts. AsTime pf ts = time_Unix (ptr_get Seconds 0 ts) (scast (ptr_get Nanos 0 ts))) \<and>
     (\<forall>t. timestamppb_New pf t =
        \<lparr>Seconds = time_unix_seconds t, Nanos = word_of_int (time_nanosecond t)\<rparr>)"

text \<open>A platform that satisfies it; its conversion is the one of the amd64 instruction.\<close>

definition reference_platform :: platform where
  "reference_platform =
     \<lparr>AsTime = (\<lambda>ts. time_Unix (ptr_get Seconds 0 ts) (scast (ptr_get Nanos 0 ts))),
      timestamppb_New =
        (\<lambda>t. \<lparr>Seconds = time_unix_seconds t, Nanos = word_of_int (time_nanosecond t)\<rparr>),
      int32_out_of_range = (\<lambda>_. 0x80000000),
      Unmarshal_FeedMessage = (\<lambda>_. None),
      Unmarshal_VehiclePositionEvent = (\<lambda>b. if b = [] then Some VehiclePositionEvent_zero else None)\<rparr>"

lemma reference_platform_spec [simp]: "timestamppb_spec reference_platform"
  by (simp add: timestamppb_spec_def reference_platform_def)

text \<open>The timestamp of a whole Unix second.\<close>

abbreviation unix_ts :: "int64 \<Rightarrow> Timestamp option" where
  "unix_ts s \<equiv> Some \<lparr>Seconds = s, Nanos = 0\<rparr>"

lemma AsTime_unix_ts:
  assumes "timestamppb_spec pf" and "- (2 ^ 62) \<le> sint s" and "sint s < 2 ^ 62"
  shows "AsTime pf (unix_ts s) = sint s * Second_ns"
  using assms time_Unix_small [of s] by (simp add: timestamppb_spec_def)

text \<open>Whole-second timestamps: the elapsed time is the difference of the seconds.\<close>

lemma elapsed_unix_ts:
  assumes "timestamppb_spec pf"
    and "- (2 ^ 62) \<le> sint s" "sint s < 2 ^ 62" "- (2 ^ 62) \<le> sint r" "sint r < 2 ^ 62"
    and "- (2 ^ 31) \<le> sint s - sint r" "sint s - sint r < 2 ^ 31"
  shows "sint (elapsed_seconds oor (AsTime pf (unix_ts s)) (AsTime pf (unix_ts r))) = sint s - sint r"
  using assms by (intro sint_elapsed_seconds_whole) (simp_all add: AsTime_unix_ts left_diff_distrib)

lemma timestamppb_roundtrip:
  "timestamppb_spec pf \<Longrightarrow> timestamppb_New pf (AsTime pf (unix_ts s)) = \<lparr>Seconds = s, Nanos = 0\<rparr>"
  by (simp add: timestamppb_spec_def time_nanosecond_def time_Unix_def Second_ns_def Let_def
      time_unix_seconds_Unix [unfolded time_Unix_def Second_ns_def, simplified])

end
