(* ===== verification/Streams.thy ===== *)
theory Streams
  imports Go_Prelude
begin

text \<open>
  The shape shared by the goroutines of the program: a loop around a \<open>select\<close> over the
  cancellation of the context and the reception of an element.

  \<^item> \<open>select_loop\<close> runs a handler over the sequence of outcomes of the \<open>select\<close>. It stops, and
    runs the deferred close of the output channel, when the context is done or the input
    channel is closed.
  \<^item> \<open>transmit\<close> is the loop that copies the output channel of a flow into the inlet of the
    next and closes that inlet at the end.
  \<^item> The locale \<open>keyed_step\<close> is the contract of a stateful processor whose state is
    partitioned by a key: a step reads and writes the entry of its own key only. Its theorem
    is that events of other keys cannot influence what a key's events emit.
\<close>

section \<open>The select loop of a goroutine\<close>

datatype 'i select =
    CtxDone \<comment> \<open>\<open>case <-ctx.Done()\<close>\<close>
  | InClosed \<comment> \<open>\<open>case event, ok := <-in\<close> with \<open>!ok\<close>\<close>
  | InRecv 'i \<comment> \<open>\<open>case event, ok := <-in\<close> with an element\<close>

text \<open>
  The result: the final state, what was sent on the output channel, and whether the
  goroutine returned (and so closed its output channel). With no further outcome offered the
  goroutine is still blocked in its \<open>select\<close>.
\<close>

fun select_loop :: "('s \<Rightarrow> 'i \<Rightarrow> 's \<times> 'o list) \<Rightarrow> 's \<Rightarrow> 'i select list \<Rightarrow> 's \<times> 'o list \<times> bool" where
  "select_loop h s [] = (s, [], False)"
| "select_loop h s (CtxDone # cs) = (s, [], True)"
| "select_loop h s (InClosed # cs) = (s, [], True)"
| "select_loop h s (InRecv x # cs) =
     (let (s', os) = h s x; (s'', os', r) = select_loop h s' cs in (s'', os @ os', r))"

text \<open>The handler over a list of inputs, with the outputs of each input kept apart.\<close>

fun run_steps :: "('s \<Rightarrow> 'i \<Rightarrow> 's \<times> 'o list) \<Rightarrow> 's \<Rightarrow> 'i list \<Rightarrow> 's \<times> 'o list list" where
  "run_steps h s [] = (s, [])"
| "run_steps h s (x # xs) =
     (let (s', os) = h s x; (s'', oss) = run_steps h s' xs in (s'', os # oss))"

abbreviation final_state :: "('s \<Rightarrow> 'i \<Rightarrow> 's \<times> 'o list) \<Rightarrow> 's \<Rightarrow> 'i list \<Rightarrow> 's" where
  "final_state h s xs \<equiv> fst (run_steps h s xs)"

abbreviation outputs :: "('s \<Rightarrow> 'i \<Rightarrow> 's \<times> 'o list) \<Rightarrow> 's \<Rightarrow> 'i list \<Rightarrow> 'o list" where
  "outputs h s xs \<equiv> concat (snd (run_steps h s xs))"

lemma select_loop_recv:
  "select_loop h s (map InRecv xs @ cs) =
     (let (s', os', r) = select_loop h (final_state h s xs) cs
      in (s', outputs h s xs @ os', r))"
  by (induction xs arbitrary: s) (simp_all add: Let_def case_prod_beta)

lemma select_loop_closed:
  "select_loop h s (map InRecv xs @ InClosed # cs) = (final_state h s xs, outputs h s xs, True)"
  by (simp add: select_loop_recv)

lemma select_loop_cancelled:
  "select_loop h s (map InRecv xs @ CtxDone # cs) = (final_state h s xs, outputs h s xs, True)"
  by (simp add: select_loop_recv)

lemma run_steps_append:
  "run_steps h s (xs @ ys) =
     (let (s', oss) = run_steps h s xs; (s'', oss') = run_steps h s' ys in (s'', oss @ oss'))"
  by (induction xs arbitrary: s) (auto simp: Let_def case_prod_beta)

lemma final_state_append: "final_state h s (xs @ ys) = final_state h (final_state h s xs) ys"
  by (simp add: run_steps_append Let_def case_prod_beta)

lemma outputs_append:
  "outputs h s (xs @ ys) = outputs h s xs @ outputs h (final_state h s xs) ys"
  by (simp add: run_steps_append Let_def case_prod_beta)

lemma outputs_Cons: "outputs h s (x # xs) = snd (h s x) @ outputs h (fst (h s x)) xs"
  by (simp add: Let_def case_prod_beta)

lemma final_state_Cons: "final_state h s (x # xs) = final_state h (fst (h s x)) xs"
  by (simp add: Let_def case_prod_beta)

lemma length_run_steps [simp]: "length (snd (run_steps h s xs)) = length xs"
  by (induction xs arbitrary: s) (auto simp: Let_def case_prod_beta)

text \<open>A property of every output of every step is a property of every output of the loop.\<close>

lemma outputs_all:
  assumes "\<And>s x y. y \<in> set (snd (h s x)) \<Longrightarrow> P y"
  shows "y \<in> set (outputs h s xs) \<Longrightarrow> P y"
proof (induction xs arbitrary: s)
  case Nil
  then show ?case by simp
next
  case (Cons x xs)
  then show ?case
    unfolding outputs_Cons using assms by auto
qed

lemma select_loop_outputs_all:
  "(\<And>s x y. y \<in> set (snd (h s x)) \<Longrightarrow> P y) \<Longrightarrow>
   y \<in> set (fst (snd (select_loop h s cs))) \<Longrightarrow> P y"
proof (induction cs arbitrary: s)
  case Nil
  then show ?case by simp
next
  case (Cons c cs)
  then show ?case
    by (cases c) (auto simp: Let_def case_prod_beta)
qed


text \<open>
  A handler that decodes an element, skips what it cannot decode and hands the rest to a step
  function runs the step function over the decoded elements.
\<close>

lemma decoded_run:
  assumes h: "\<And>st x. h st x =
    (case dec x of None \<Rightarrow> (st, [])
     | Some j \<Rightarrow> (fst (step st j), map wrap (snd (step st j))))"
  shows "final_state h st xs = final_state step st (List.map_filter dec xs) \<and>
    outputs h st xs = map wrap (outputs step st (List.map_filter dec xs))"
proof (induction xs arbitrary: st)
  case Nil
  show ?case by simp
next
  case (Cons x xs)
  show ?case
  proof (cases "dec x")
    case None
    then have "h st x = (st, [])" by (simp add: h)
    with None Cons.IH show ?thesis
      by (simp add: List.map_filter_simps Let_def case_prod_beta)
  next
    case (Some j)
    then have "h st x = (fst (step st j), map wrap (snd (step st j)))" by (simp add: h)
    with Some Cons.IH show ?thesis
      by (simp add: List.map_filter_simps Let_def case_prod_beta)
  qed
qed

lemma decoded_loop:
  assumes "\<And>st x. h st x =
    (case dec x of None \<Rightarrow> (st, [])
     | Some j \<Rightarrow> (fst (step st j), map wrap (snd (step st j))))"
  shows "select_loop h st (map InRecv xs @ InClosed # cs) =
    (final_state step st (List.map_filter dec xs),
     map wrap (outputs step st (List.map_filter dec xs)), True)"
  using decoded_run [where h = h, OF assms] by (simp add: select_loop_closed)

section \<open>The transmit loop\<close>

text \<open>
  \<open>transmit\<close> ranges over the receptions from the output channel, \<open>None\<close> standing for the
  channel being closed. The result is what was sent into the inlet and whether the inlet was
  closed.
\<close>

fun transmit :: "'o option list \<Rightarrow> 'o list \<times> bool" where
  "transmit [] = ([], False)"
| "transmit (None # rs) = ([], True)"
| "transmit (Some x # rs) = (let (xs, c) = transmit rs in (x # xs, c))"

lemma transmit_all: "transmit (map Some xs @ None # rs) = (xs, True)"
  by (induction xs) simp_all

section \<open>The contract of a keyed processor\<close>

text \<open>What the events with key \<open>k\<close> emit in a run over events of any keys.\<close>

definition emitted_by ::
    "('s \<Rightarrow> 'e \<Rightarrow> 's \<times> 'o list) \<Rightarrow> ('e \<Rightarrow> 'k) \<Rightarrow> 'k \<Rightarrow> 's \<Rightarrow> 'e list \<Rightarrow> 'o list" where
  "emitted_by step key k s es =
     concat (map snd (filter (\<lambda>p. key (fst p) = k) (zip es (snd (run_steps step s es)))))"

text \<open>
  When the outputs of a step tell its key, what a key's events emit can be read off the outputs.
\<close>

lemma filter_outputs:
  assumes "\<And>s e y. y \<in> set (snd (step s e)) \<Longrightarrow> P y \<longleftrightarrow> key e = k \<and> Q y"
  shows "filter P (outputs step s es) = filter Q (emitted_by step key k s es)"
proof (induction es arbitrary: s)
  case Nil
  show ?case by (simp add: emitted_by_def)
next
  case (Cons e es)
  have "filter P (snd (step s e)) = (if key e = k then filter Q (snd (step s e)) else [])"
    using assms [of _ s e] by (auto simp: filter_empty_conv intro: filter_cong)
  then show ?case
    using Cons.IH [of "fst (step s e)"] by (simp add: emitted_by_def Let_def case_prod_beta)
qed

locale keyed_step =
  fixes step :: "'s \<Rightarrow> 'e \<Rightarrow> 's \<times> 'o list"
    and key :: "'e \<Rightarrow> 'k"
    and view :: "'s \<Rightarrow> 'k \<Rightarrow> 'v"
  assumes frame: "k \<noteq> key e \<Longrightarrow> view (fst (step s e)) k = view s k"
    and local_view: "view s (key e) = view t (key e) \<Longrightarrow>
      view (fst (step s e)) (key e) = view (fst (step t e)) (key e)"
    and local_out: "view s (key e) = view t (key e) \<Longrightarrow> snd (step s e) = snd (step t e)"
begin

lemma isolation_gen:
  assumes "view s k = view t k"
  shows "concat (map snd (filter (\<lambda>p. key (fst p) = k) (zip es (snd (run_steps step s es))))) =
      outputs step t (filter (\<lambda>e. key e = k) es) \<and>
    view (final_state step s es) k = view (final_state step t (filter (\<lambda>e. key e = k) es)) k"
  using assms
proof (induction es arbitrary: s t)
  case Nil
  then show ?case by simp
next
  case (Cons e es)
  show ?case
  proof (cases "key e = k")
    case True
    with Cons.prems have "view (fst (step s e)) k = view (fst (step t e)) k"
      using local_view [of s e t] by simp
    moreover have "snd (step s e) = snd (step t e)"
      using local_out [of s e t] Cons.prems True by simp
    ultimately show ?thesis
      using Cons.IH [of "fst (step s e)" "fst (step t e)"] True
      by (simp add: Let_def case_prod_beta)
  next
    case False
    then have "view (fst (step s e)) k = view t k"
      using frame [of k e s] Cons.prems by simp
    then show ?thesis
      using Cons.IH [of "fst (step s e)" t] False
      by (simp add: Let_def case_prod_beta)
  qed
qed

lemma isolation: "emitted_by step key k s es = outputs step s (filter (\<lambda>e. key e = k) es)"
  using isolation_gen [of s k s es] by (simp add: emitted_by_def)

end

end
