(* ===== verification/Flow_Network.thy ===== *)
theory Flow_Network
  imports Streams "HOL-Library.Sublist"
begin

text \<open>
  The goroutines around a processor, step by step. Every processor of
  \<open>src/processors/transit\<close> is a goroutine \<open>doStream\<close> that sends on the unbuffered channel \<open>out\<close>, and \<open>To\<close>
  starts a second goroutine \<open>transmit\<close> that copies \<open>out\<close> into the channel of a consumer and closes
  it at the end. The other theories describe \<open>doStream\<close> by one function of the outcomes of its
  \<open>select\<close>; this theory shows that they may.

  \<^item> A \<open>link\<close> is the state of both goroutines with their neighbours: what the producer has still
    to send, the program counters, the element \<open>transmit\<close> holds, and what the consumer took.
  \<^item> \<open>link_step\<close> is one step of the interleaving. A send on an unbuffered channel is a
    rendezvous: it happens together with the reception. The context may be cancelled and the
    consumer may stop at any time.
  \<^item> The locale \<open>flow_processor\<close> is the contract of a flow: its \<open>doStream\<close> is the select loop of a
    handler. Its lemmas say that no schedule can make the consumer see anything else than
    what that loop sends, that every schedule ends, and where it can end.
\<close>

section \<open>Goroutines between unbuffered channels\<close>

datatype 'o proc_pc =
    Selecting \<comment> \<open>in the \<open>select\<close>\<close>
  | Sending "'o list" \<comment> \<open>in the body of the loop, with these sends still to do\<close>
  | Finished \<comment> \<open>returned, \<open>out\<close> closed\<close>

datatype 'o copy_pc =
    Receiving \<comment> \<open>in \<open>range Out()\<close>\<close>
  | Holding 'o \<comment> \<open>in the send \<open>In() <- element\<close>\<close>
  | Copied \<comment> \<open>returned, the channel of the consumer closed\<close>

record ('s, 'i, 'o) link =
  lk_feed :: "'i list"
  lk_closes :: bool
  lk_cancelled :: bool
  lk_state :: 's
  lk_proc :: "'o proc_pc"
  lk_copy :: "'o copy_pc"
  lk_consuming :: bool
  lk_inlet :: "'o list"
  lk_closed :: bool

text \<open>
  The start: the producer is to send \<open>xs\<close>, and to close the channel afterwards if \<open>closes\<close>.
\<close>

definition new_link :: "'s \<Rightarrow> 'i list \<Rightarrow> bool \<Rightarrow> ('s, 'i, 'o) link" where
  "new_link s xs closes =
     \<lparr>lk_feed = xs, lk_closes = closes, lk_cancelled = False, lk_state = s, lk_proc = Selecting,
      lk_copy = Receiving, lk_consuming = True, lk_inlet = [], lk_closed = False\<rparr>"

inductive link_step ::
    "('s \<Rightarrow> 'i \<Rightarrow> 's \<times> 'o list) \<Rightarrow> ('s, 'i, 'o) link \<Rightarrow> ('s, 'i, 'o) link \<Rightarrow> bool"
  for h where
  receive: "lk_proc l = Selecting \<Longrightarrow> lk_feed l = x # xs \<Longrightarrow> h (lk_state l) x = (s', os) \<Longrightarrow>
    link_step h l (l\<lparr>lk_feed := xs, lk_state := s', lk_proc := Sending os\<rparr>)"
| in_closed: "lk_proc l = Selecting \<Longrightarrow> lk_feed l = [] \<Longrightarrow> lk_closes l \<Longrightarrow>
    link_step h l (l\<lparr>lk_proc := Finished\<rparr>)"
| ctx_done: "lk_proc l = Selecting \<Longrightarrow> lk_cancelled l \<Longrightarrow> link_step h l (l\<lparr>lk_proc := Finished\<rparr>)"
| resume: "lk_proc l = Sending [] \<Longrightarrow> link_step h l (l\<lparr>lk_proc := Selecting\<rparr>)"
| rendezvous: "lk_proc l = Sending (y # ys) \<Longrightarrow> lk_copy l = Receiving \<Longrightarrow>
    link_step h l (l\<lparr>lk_proc := Sending ys, lk_copy := Holding y\<rparr>)"
| deliver: "lk_copy l = Holding y \<Longrightarrow> lk_consuming l \<Longrightarrow>
    link_step h l (l\<lparr>lk_copy := Receiving, lk_inlet := lk_inlet l @ [y]\<rparr>)"
| range_end: "lk_copy l = Receiving \<Longrightarrow> lk_proc l = Finished \<Longrightarrow>
    link_step h l (l\<lparr>lk_copy := Copied, lk_closed := True\<rparr>)"
| cancel: "\<not> lk_cancelled l \<Longrightarrow> link_step h l (l\<lparr>lk_cancelled := True\<rparr>)"
| consumer_stops: "lk_cancelled l \<Longrightarrow> lk_consuming l \<Longrightarrow> link_step h l (l\<lparr>lk_consuming := False\<rparr>)"

abbreviation link_run ::
    "('s \<Rightarrow> 'i \<Rightarrow> 's \<times> 'o list) \<Rightarrow> ('s, 'i, 'o) link \<Rightarrow> ('s, 'i, 'o) link \<Rightarrow> bool" where
  "link_run h \<equiv> (link_step h)\<^sup>*\<^sup>*"

text \<open>No step of the two goroutines themselves is possible any more.\<close>

definition at_rest :: "('s \<Rightarrow> 'i \<Rightarrow> 's \<times> 'o list) \<Rightarrow> ('s, 'i, 'o) link \<Rightarrow> bool" where
  "at_rest h l \<longleftrightarrow>
     (\<forall>l'. link_step h l l' \<longrightarrow> lk_cancelled l' \<noteq> lk_cancelled l \<or> lk_consuming l' \<noteq> lk_consuming l)"

section \<open>Every schedule ends\<close>

fun proc_rank :: "'o proc_pc \<Rightarrow> nat" where
  "proc_rank Finished = 0"
| "proc_rank Selecting = 1"
| "proc_rank (Sending ys) = 2 + 2 * length ys"

fun copy_rank :: "'o copy_pc \<Rightarrow> nat" where
  "copy_rank Copied = 0"
| "copy_rank Receiving = 1"
| "copy_rank (Holding y) = 2"

definition link_order :: "(('s, 'i, 'o) link \<times> ('s, 'i, 'o) link) set" where
  "link_order = measures
     [\<lambda>l. if lk_cancelled l then 0 else 1, \<lambda>l. if lk_consuming l then 1 else 0,
      \<lambda>l. length (lk_feed l), \<lambda>l. proc_rank (lk_proc l) + copy_rank (lk_copy l)]"

lemma link_step_decreases: "link_step h l l' \<Longrightarrow> (l', l) \<in> link_order"
  by (cases rule: link_step.cases) (auto simp: link_order_def)

text \<open>
  Property C30. No schedule of a processor, its \<open>transmit\<close> goroutine and their neighbours goes on for ever: for
  every finite input, whatever the handler does, each step brings the goroutines closer to a
  state in which they can do nothing more.
\<close>

theorem link_schedules_end: "wfp (\<lambda>l' l. link_step h l l')"
proof -
  have "wf link_order" unfolding link_order_def by (rule wf_measures)
  then show ?thesis unfolding wfp_def by (rule wf_subset) (auto intro: link_step_decreases)
qed

section \<open>What a schedule can deliver\<close>

definition pending :: "('s, 'i, 'o) link \<Rightarrow> 'o list" where
  "pending l = (case lk_copy l of Holding y \<Rightarrow> [y] | _ \<Rightarrow> []) @
     (case lk_proc l of Sending ys \<Rightarrow> ys | _ \<Rightarrow> [])"

text \<open>
  The invariant: everything the handler emitted on what was received is, in order, with the
  consumer, in the hands of \<open>transmit\<close>, or still to be sent.
\<close>

definition link_inv ::
    "('s \<Rightarrow> 'i \<Rightarrow> 's \<times> 'o list) \<Rightarrow> 's \<Rightarrow> 'i list \<Rightarrow> bool \<Rightarrow> ('s, 'i, 'o) link \<Rightarrow> bool" where
  "link_inv h s xs closes l \<longleftrightarrow>
     (\<exists>ys. xs = ys @ lk_feed l \<and> lk_state l = final_state h s ys \<and>
        lk_inlet l @ pending l = outputs h s ys) \<and>
     lk_closes l = closes \<and>
     (lk_proc l = Finished \<longrightarrow> lk_feed l = [] \<and> closes \<or> lk_cancelled l) \<and>
     (lk_copy l = Copied \<longrightarrow> lk_proc l = Finished) \<and> (lk_closed l \<longleftrightarrow> lk_copy l = Copied)"

lemma link_inv_new: "link_inv h s xs closes (new_link s xs closes)"
  by (simp add: link_inv_def new_link_def pending_def)

lemma link_inv_step:
  assumes "link_step h l l'" and "link_inv h s xs closes l"
  shows "link_inv h s xs closes l'"
  using assms(1)
proof (cases rule: link_step.cases)
  case (receive x xs' s' os)
  from assms(2) obtain ys where ys: "xs = ys @ lk_feed l" "lk_state l = final_state h s ys"
      "lk_inlet l @ pending l = outputs h s ys"
    by (auto simp: link_inv_def)
  have "xs = (ys @ [x]) @ lk_feed l'" "lk_state l' = final_state h s (ys @ [x])"
    "lk_inlet l' @ pending l' = outputs h s (ys @ [x])"
    using ys receive unfolding final_state_append outputs_append
    by (auto simp: pending_def Let_def case_prod_beta)
  then show ?thesis using assms(2) receive unfolding link_inv_def by (auto intro: exI [of _ "ys @ [x]"])
qed (use assms(2) in \<open>auto simp: link_inv_def pending_def\<close>)

lemma link_run_inv:
  "link_run h (new_link s xs closes) l \<Longrightarrow> link_inv h s xs closes l"
  by (induction rule: rtranclp_induct) (auto intro: link_inv_new link_inv_step)

text \<open>A link at rest whose consumer has not stopped has delivered everything.\<close>

lemma at_restD:
  assumes "at_rest h l" and "link_step h l l'"
  shows "lk_cancelled l' \<noteq> lk_cancelled l \<or> lk_consuming l' \<noteq> lk_consuming l"
  using assms unfolding at_rest_def by blast

lemma finished_at_rest: "lk_proc l = Finished \<Longrightarrow> lk_copy l = Copied \<Longrightarrow> at_rest h l"
  by (auto simp: at_rest_def elim: link_step.cases)

lemma at_rest_pcs:
  assumes rest: "at_rest h l" and "lk_consuming l" and "lk_copy l = Copied \<longrightarrow> lk_proc l = Finished"
  shows "lk_proc l = Selecting \<and> lk_copy l = Receiving \<and> lk_feed l = [] \<and> \<not> lk_closes l \<and> \<not> lk_cancelled l \<or>
    lk_proc l = Finished \<and> lk_copy l = Copied"
proof -
  have holding: "lk_copy l \<noteq> Holding y" for y
    using at_restD [OF rest link_step.deliver [of l y]] assms(2) by auto
  have sending: "lk_proc l = Sending ys \<Longrightarrow> lk_copy l = Copied" for ys
    using at_restD [OF rest link_step.resume [of l]] at_restD [OF rest link_step.rendezvous [of l "hd ys" "tl ys"]]
      holding by (cases ys; cases "lk_copy l") auto
  have ended: "lk_proc l = Finished \<Longrightarrow> lk_copy l = Copied"
    using at_restD [OF rest link_step.range_end [of l]] holding by (cases "lk_copy l") auto
  have "lk_feed l = [] \<and> \<not> lk_cancelled l \<and> \<not> lk_closes l" if sel: "lk_proc l = Selecting"
  proof -
    have "lk_feed l \<noteq> x # xs" for x xs
      using at_restD [OF rest link_step.receive [OF sel, of x xs h "fst (h (lk_state l) x)" "snd (h (lk_state l) x)"]]
      by auto
    then have "lk_feed l = []" by (meson neq_Nil_conv)
    then show ?thesis
      using at_restD [OF rest link_step.ctx_done [OF sel]] at_restD [OF rest link_step.in_closed [OF sel]] by auto
  qed
  then show ?thesis
    using holding sending ended assms(3) by (cases "lk_proc l"; cases "lk_copy l") auto
qed



section \<open>The contract of a flow\<close>

locale flow_processor =
  fixes handle :: "'s \<Rightarrow> 'i \<Rightarrow> 's \<times> 'o list"
    and loop :: "'s \<Rightarrow> 'i select list \<Rightarrow> 'o list \<times> bool"
  assumes loop_eq: "loop s cs = snd (select_loop handle s cs)"
begin

text \<open>At every moment the consumer has seen a prefix of what the loop sends.\<close>

lemma inlet_prefix:
  assumes "link_run handle (new_link s xs closes) l"
  shows "prefix (lk_inlet l) (fst (loop s (map InRecv xs)))"
proof -
  obtain ys where "xs = ys @ lk_feed l" "lk_inlet l @ pending l = outputs handle s ys"
    using link_run_inv [OF assms] by (auto simp: link_inv_def)
  moreover have "fst (loop s (map InRecv xs)) = outputs handle s xs"
    using select_loop_recv [of handle s xs "[]"] by (simp add: loop_eq)
  ultimately show ?thesis
    by (metis outputs_append append.assoc prefixI)
qed

text \<open>And at rest it has seen all of it, for the inputs that were received.\<close>

lemma rest_complete:
  assumes "link_run handle (new_link s xs closes) l" and "at_rest handle l" and "lk_consuming l"
  shows "\<exists>ys. prefix ys xs \<and> (\<not> lk_cancelled l \<longrightarrow> ys = xs) \<and>
    (lk_inlet l, lk_closed l) = loop s (map InRecv ys @
      (if lk_cancelled l then [CtxDone] else if closes then [InClosed] else []))"
proof -
  obtain ys where ys: "xs = ys @ lk_feed l" "lk_inlet l @ pending l = outputs handle s ys"
    and inv: "lk_closes l = closes" "lk_proc l = Finished \<longrightarrow> lk_feed l = [] \<and> closes \<or> lk_cancelled l"
      "lk_copy l = Copied \<longrightarrow> lk_proc l = Finished" "lk_closed l \<longleftrightarrow> lk_copy l = Copied"
    using link_run_inv [OF assms(1)] unfolding link_inv_def by blast
  have pcs: "lk_proc l = Selecting \<and> lk_copy l = Receiving \<and> lk_feed l = [] \<and> \<not> lk_closes l \<and> \<not> lk_cancelled l \<or>
      lk_proc l = Finished \<and> lk_copy l = Copied"
    using at_rest_pcs [OF assms(2,3) inv(3)] .
  then have "pending l = []" by (auto simp: pending_def)
  then have out: "lk_inlet l = outputs handle s ys" using ys(2) by simp
  have closed: "lk_closed l = (lk_cancelled l \<or> closes)"
    using pcs inv by auto
  have "(lk_inlet l, lk_closed l) = loop s (map InRecv ys @
      (if lk_cancelled l then [CtxDone] else if closes then [InClosed] else []))"
    unfolding out closed loop_eq
    by (simp add: select_loop_recv select_loop_closed select_loop_cancelled)
  moreover have "\<not> lk_cancelled l \<longrightarrow> ys = xs" using pcs inv ys(1) by auto
  moreover have "prefix ys xs" using ys(1) by simp
  ultimately show ?thesis by (intro exI conjI)
qed

end

end
