(* ===== verification/Feed_Message.thy ===== *)
theory Feed_Message
  imports Events Streams Flow_Network
begin

text \<open>
  The processor of \<open>src/processors/transit/feed_message_events/feed_message_event_processor.go\<close>: it
  decodes a polled feed and tags it with the agency of the pipeline. It keeps no state.
\<close>

definition feed_handle :: "platform \<Rightarrow> string \<Rightarrow> unit \<Rightarrow> go_any \<Rightarrow> unit \<times> go_any list" where
  "feed_handle pf agencyID st event =
     (case event of
        Any_bytes v \<Rightarrow>
          (case Unmarshal_FeedMessage pf v of
             None \<Rightarrow> (st, [])
           | Some msg \<Rightarrow>
               (st, [Any_FeedMessageEvent (Some \<lparr>fme_AgencyId = agencyID, fme_FeedMessage = Some msg\<rparr>)]))
      | Any_FeedMessage v \<Rightarrow>
          (st, [Any_FeedMessageEvent (Some \<lparr>fme_AgencyId = agencyID, fme_FeedMessage = v\<rparr>)])
      | _ \<Rightarrow> (st, []))"

definition feed_doStream :: "platform \<Rightarrow> string \<Rightarrow> go_any select list \<Rightarrow> go_any list \<times> bool" where
  "feed_doStream pf agencyID cs = snd (select_loop (feed_handle pf agencyID) () cs)"

text \<open>
  \<open>To\<close> and \<open>Via\<close>: the states the goroutines \<open>doStream\<close> and \<open>transmit\<close> can reach once the processor
  feeds a consumer, a sink or a flow, when it receives \<open>xs\<close> and its input channel is closed afterwards if \<open>closes\<close>.
\<close>

definition feed_To ::
    "platform \<Rightarrow> string \<Rightarrow> go_any list \<Rightarrow> bool \<Rightarrow> (unit, go_any, go_any) link \<Rightarrow> bool" where
  "feed_To pf agencyID xs closes l = link_run (feed_handle pf agencyID) (new_link () xs closes) l"

interpretation feed_flow: flow_processor "feed_handle pf agencyID" "\<lambda>st cs. feed_doStream pf agencyID cs"
  for pf agencyID
  by unfold_locales (simp add: feed_doStream_def)

lemma feed_To_complete:
  "feed_To pf agencyID xs closes l \<Longrightarrow> at_rest (feed_handle pf agencyID) l \<Longrightarrow> lk_consuming l \<Longrightarrow>
   \<exists>ys. prefix ys xs \<and> (\<not> lk_cancelled l \<longrightarrow> ys = xs) \<and> (lk_inlet l, lk_closed l) = feed_doStream pf agencyID (map InRecv ys @
      (if lk_cancelled l then [CtxDone] else if closes then [InClosed] else []))"
  unfolding feed_To_def by (rule feed_flow.rest_complete)

text \<open>The feed a received value stands for, if it stands for one.\<close>

definition feed_decode :: "platform \<Rightarrow> go_any \<Rightarrow> gtfs_FeedMessage option option" where
  "feed_decode pf v =
     (case v of
        Any_bytes b \<Rightarrow> map_option Some (Unmarshal_FeedMessage pf b)
      | Any_FeedMessage m \<Rightarrow> Some m
      | _ \<Rightarrow> None)"

lemma feed_handle_decode:
  "feed_handle pf agency st x =
     (case feed_decode pf x of
        None \<Rightarrow> (st, [])
      | Some m \<Rightarrow> (fst (st, [m]), map (\<lambda>m. Any_FeedMessageEvent (Some
          \<lparr>fme_AgencyId = agency, fme_FeedMessage = m\<rparr>)) (snd (st, [m]))))"
  by (auto simp: feed_handle_def feed_decode_def split: go_any.split option.split)

lemma outputs_echo: "outputs (\<lambda>s x. ((), [x])) () xs = xs"
  by (induction xs) (simp_all add: Let_def case_prod_beta)

text \<open>
  The feed processor emits exactly one event per value it can decode, in the order
  of reception, each with the configured agency and the decoded feed; undecodable bytes and
  other values are dropped without stopping the stream.
\<close>

lemma feed_doStream_decodes:
  "feed_doStream pf agency (map InRecv xs @ InClosed # cs) =
     (map (\<lambda>m. Any_FeedMessageEvent (Some \<lparr>fme_AgencyId = agency, fme_FeedMessage = m\<rparr>))
        (List.map_filter (feed_decode pf) xs), True)"
  unfolding feed_doStream_def
  by (subst decoded_loop [where h = "feed_handle pf agency" and step = "\<lambda>s m. (s, [m])",
        OF feed_handle_decode])
    (simp add: outputs_echo)

end
