(* ===== verification/Vehicle_Position.thy ===== *)
theory Vehicle_Position
  imports Events Streams Flow_Network
begin

text \<open>
  The processor of
  \<open>src/processors/transit/vehicle_position_events/vehicle_position_event_processor.go\<close>: it emits one
  position event per vehicle of a feed that names its stop. It keeps no state. The body
  of the loop over the entities is \<open>vehicle_entity\<close>, with \<open>None\<close> for its \<open>continue\<close>.
\<close>

definition vehicle_status :: "int32 \<Rightarrow> StopStatus" where
  "vehicle_status n =
     (if n = gtfs_IN_TRANSIT_TO then StopStatus_IN_TRANSIT_TO
      else if n = gtfs_STOPPED_AT then StopStatus_STOPPED_AT
      else if n = gtfs_INCOMING_AT then StopStatus_INCOMING_AT
      else StopStatus_UNKNOWN)"

definition vehicle_entity ::
    "platform \<Rightarrow> string \<Rightarrow> gtfs_FeedEntity option \<Rightarrow> VehiclePositionEvent option" where
  "vehicle_entity pf agencyId entity =
     (let vehicle = gtfs_GetVehicle entity
      in if vehicle = None then None
         else
           let status = vehicle_status (gtfs_GetCurrentStatus vehicle);
               stopId = gtfs_GetStopId vehicle
           in if stopId = [] then None
              else
                let id = gtfs_GetId (gtfs_GetVehicleDescriptor vehicle);
                    trip = gtfs_GetTrip vehicle;
                    vehicleId = (if id = [] then gtfs_GetTripId trip else id)
                in Some
                  \<lparr>vpe_Attributes = Some (EventAttributes_zero
                     \<lparr>AgencyId := agencyId,
                      VehicleId := vehicleId,
                      RouteId := gtfs_GetRouteId trip,
                      StopId := stopId,
                      TripId := gtfs_GetTripId trip,
                      ServiceDate := gtfs_GetStartDate trip,
                      DirectionId := decimal (unat (gtfs_GetDirectionId trip)),
                      StopSequence := gtfs_GetCurrentStopSequence vehicle,
                      StopStatus := status,
                      Timestamp := Some (timestamppb_New pf (time_Unix (gtfs_GetTimestamp vehicle) 0))\<rparr>),
                   vpe_Latitude = gtfs_GetLatitude (gtfs_GetPosition vehicle),
                   vpe_Longitude = gtfs_GetLongitude (gtfs_GetPosition vehicle)\<rparr>)"

definition vehicle_handle :: "platform \<Rightarrow> unit \<Rightarrow> go_any \<Rightarrow> unit \<times> VehiclePositionEvent list" where
  "vehicle_handle pf st event =
     (case event of
        Any_FeedMessageEvent feedMessageEvent \<Rightarrow>
          (let agencyId = FeedMessageEvent_GetAgencyId feedMessageEvent;
               feedMessage = FeedMessageEvent_GetFeedMessage feedMessageEvent
           in if feedMessage \<noteq> None
              then (st, List.map_filter (vehicle_entity pf agencyId) (gtfs_GetEntity feedMessage))
              else (st, []))
      | _ \<Rightarrow> (st, []))"

definition vehicle_doStream :: "platform \<Rightarrow> go_any select list \<Rightarrow> VehiclePositionEvent list \<times> bool" where
  "vehicle_doStream pf cs = snd (select_loop (vehicle_handle pf) () cs)"

text \<open>
  \<open>To\<close> and \<open>Via\<close>: the states the goroutines \<open>doStream\<close> and \<open>transmit\<close> can reach once the processor
  feeds a consumer, a sink or a flow, when it receives \<open>xs\<close> and its input channel is closed afterwards if \<open>closes\<close>.
\<close>

definition vehicle_To ::
    "platform \<Rightarrow> go_any list \<Rightarrow> bool \<Rightarrow> (unit, go_any, VehiclePositionEvent) link \<Rightarrow> bool" where
  "vehicle_To pf xs closes l = link_run (vehicle_handle pf) (new_link () xs closes) l"

interpretation vehicle_flow: flow_processor "vehicle_handle pf" "\<lambda>st cs. vehicle_doStream pf cs"
  for pf
  by unfold_locales (simp add: vehicle_doStream_def)

lemma vehicle_To_complete:
  "vehicle_To pf xs closes l \<Longrightarrow> at_rest (vehicle_handle pf) l \<Longrightarrow> lk_consuming l \<Longrightarrow>
   \<exists>ys. prefix ys xs \<and> (\<not> lk_cancelled l \<longrightarrow> ys = xs) \<and> (lk_inlet l, lk_closed l) = vehicle_doStream pf (map InRecv ys @
      (if lk_cancelled l then [CtxDone] else if closes then [InClosed] else []))"
  unfolding vehicle_To_def by (rule vehicle_flow.rest_complete)

section \<open>Properties\<close>

text \<open>An entity the processor reports: it has a vehicle, and the vehicle names its stop.\<close>

definition reported :: "gtfs_FeedEntity option \<Rightarrow> bool" where
  "reported entity \<longleftrightarrow> gtfs_GetVehicle entity \<noteq> None \<and> gtfs_GetStopId (gtfs_GetVehicle entity) \<noteq> []"

lemma vehicle_entity_None: "vehicle_entity pf agency entity = None \<longleftrightarrow> \<not> reported entity"
  by (auto simp: vehicle_entity_def reported_def Let_def simp del: gtfs_GetStopId_def gtfs_GetVehicle_def)

lemma map_filter_reported:
  "List.map_filter (vehicle_entity pf agency) es =
     map (\<lambda>e. the (vehicle_entity pf agency e)) (filter reported es)"
proof (induction es)
  case Nil
  show ?case by (simp add: List.map_filter_simps)
next
  case (Cons e es)
  then show ?case
    using vehicle_entity_None [of pf agency e]
    by (cases "vehicle_entity pf agency e") (simp_all add: List.map_filter_simps)
qed

text \<open>A feed event from its agency, header and entities.\<close>

definition feed_event ::
    "string \<times> gtfs_FeedHeader option \<times> gtfs_FeedEntity option list \<Rightarrow> go_any" where
  "feed_event f =
     (case f of (agency, h, es) \<Rightarrow>
        Any_FeedMessageEvent (Some
          \<lparr>fme_AgencyId = agency, fme_FeedMessage = Some \<lparr>gtfs_header = h, gtfs_entity = es\<rparr>\<rparr>))"

lemma vehicle_handle_feed:
  "vehicle_handle pf st (feed_event (agency, h, es)) =
     (st, map (\<lambda>e. the (vehicle_entity pf agency e)) (filter reported es))"
  by (simp add: vehicle_handle_def feed_event_def map_filter_reported)

lemma vehicle_outputs:
  "outputs (vehicle_handle pf) () (map feed_event fs) =
     concat (map (\<lambda>(agency, h, es). map (\<lambda>e. the (vehicle_entity pf agency e)) (filter reported es)) fs)"
proof (induction fs)
  case Nil
  then show ?case by simp
next
  case (Cons f fs)
  obtain agency h es where "f = (agency, h, es)" by (cases f) auto
  with Cons show ?case
    unfolding list.map outputs_Cons by (simp only: vehicle_handle_feed) simp
qed

text \<open>
  A stream of feed events yields, feed by feed and in the order of their entities,
  exactly one position per entity that has a vehicle with a stop; entities without a vehicle or
  whose vehicle names no stop are skipped, and nothing else is emitted.
\<close>

lemma vehicle_one_per_reported_entity:
  "vehicle_doStream pf (map (InRecv \<circ> feed_event) fs @ InClosed # cs) =
   (concat (map (\<lambda>(agency, h, es). map (\<lambda>e. the (vehicle_entity pf agency e)) (filter reported es)) fs),
    True)"
  using select_loop_closed [of "vehicle_handle pf" "()" "map feed_event fs" cs]
  by (simp add: vehicle_doStream_def vehicle_outputs)

lemma timestamppb_New_Unix:
  assumes "timestamppb_spec pf"
  shows "timestamppb_New pf (time_Unix s 0) = \<lparr>Seconds = s, Nanos = 0\<rparr>"
  using assms timestamppb_roundtrip [OF assms, of s] by (simp add: timestamppb_spec_def)

text \<open>
  The attributes of a position: the agency of the feed, the vehicle's id or, when it
  has none, its trip's, never an empty stop, the decimal direction, and a timestamp whose
  seconds are the feed's and whose nanoseconds are zero, for every 64-bit value.
\<close>

lemma vehicle_entity_attributes:
  assumes "timestamppb_spec pf" and "vehicle_entity pf agency (Some \<lparr>gtfs_entity_vehicle = Some v\<rparr>) = Some e"
  shows "\<exists>a. vpe_Attributes e = Some a \<and> AgencyId a = agency \<and>
    gtfs_stop_id v = Some (StopId a) \<and> StopId a \<noteq> [] \<and>
    VehicleId a = (if gtfs_GetId (gtfs_vehicle v) = [] then TripId a else gtfs_GetId (gtfs_vehicle v)) \<and>
    TripId a = gtfs_GetTripId (gtfs_trip v) \<and> RouteId a = gtfs_GetRouteId (gtfs_trip v) \<and>
    DirectionId a = decimal (unat (gtfs_GetDirectionId (gtfs_trip v))) \<and>
    StopStatus a = vehicle_status (gtfs_GetCurrentStatus (Some v)) \<and>
    Timestamp a = unix_ts (gtfs_GetTimestamp (Some v))"
proof -
  have "gtfs_GetStopId (Some v) \<noteq> []"
    using assms(2) by (auto simp: vehicle_entity_def Let_def simp del: gtfs_GetStopId_def)
  then obtain s where s: "gtfs_stop_id v = Some s" "s \<noteq> []"
    by (cases "gtfs_stop_id v") auto
  show ?thesis
    using assms(2) s
    by (cases "gtfs_GetId (gtfs_vehicle v) = []")
      (auto simp: vehicle_entity_def Let_def timestamppb_New_Unix [OF assms(1)])
qed

definition example_vehicle :: "string option \<Rightarrow> string \<Rightarrow> uint64 \<Rightarrow> gtfs_VehiclePosition" where
  "example_vehicle stop v sec =
     \<lparr>gtfs_trip = Some \<lparr>gtfs_trip_id = Some ''t1'', gtfs_route_id = Some ''Red'',
        gtfs_direction_id = None, gtfs_start_date = None\<rparr>,
      gtfs_vehicle = Some \<lparr>gtfs_vehicle_id = Some v\<rparr>, gtfs_position = None,
      gtfs_current_stop_sequence = None, gtfs_stop_id = stop, gtfs_current_status = None,
      gtfs_timestamp = Some sec\<rparr>"

text \<open>
  The status mapping is faithful: the three GTFS statuses keep their names, an unset
  status reads as \<open>IN_TRANSIT_TO\<close>, and every other number becomes \<open>UNKNOWN\<close>.
\<close>

lemma vehicle_status_table:
  "vehicle_status gtfs_IN_TRANSIT_TO = StopStatus_IN_TRANSIT_TO \<and>
   vehicle_status gtfs_STOPPED_AT = StopStatus_STOPPED_AT \<and>
   vehicle_status gtfs_INCOMING_AT = StopStatus_INCOMING_AT \<and>
   (vehicle_status n = StopStatus_UNKNOWN \<longleftrightarrow>
      n \<notin> {gtfs_IN_TRANSIT_TO, gtfs_STOPPED_AT, gtfs_INCOMING_AT}) \<and>
   vehicle_status (gtfs_GetCurrentStatus (Some (v\<lparr>gtfs_current_status := None\<rparr>))) =
     StopStatus_IN_TRANSIT_TO"
  by (auto simp: vehicle_status_def gtfs_status_defs)

end
