(* ===== verification/State_Store.thy ===== *)
theory State_Store
  imports Events Streams
begin

text \<open>
  The state stores of \<open>src/statestore\<close>.

  \<^item> \<open>StateStore\<close> is the Go interface as a record of its methods; the state the methods work on
    is explicit. Methods that read the clock take the instant of that reading.
  \<^item> \<open>InMemoryStateStore\<close> is the map with expirations. Each method holds the mutex for its
    whole body, so it is one atomic step. The background sweep is \<open>sweep\<close>, and \<open>expire\<close> its
    loop over the ticks of the ticker.
  \<^item> \<open>RedisStateStore\<close> is the store over a Redis client. The client and the protobuf codec are
    not in the repository and are parameters.
  \<^item> The locale \<open>state_store\<close> is the contract the processors rely on: what \<open>Get\<close> returns after
    \<open>Set\<close> and \<open>Delete\<close>. It is interpreted on the in-memory store, and the Redis store
    satisfies it whenever the server behaves as documented.
\<close>

section \<open>The interface\<close>

text \<open>An error value of Go, nil being \<open>None\<close>.\<close>

type_synonym go_error = "string option"

record 's StateStore =
  ss_Get :: "Time \<Rightarrow> 's \<Rightarrow> string \<Rightarrow> (unit \<Rightarrow> go_any) \<Rightarrow> go_any \<times> bool"
  ss_Set :: "Time \<Rightarrow> 's \<Rightarrow> string \<Rightarrow> go_any \<Rightarrow> Duration \<Rightarrow> 's \<times> go_error"
  ss_Delete :: "'s \<Rightarrow> string \<Rightarrow> 's"
  ss_Close :: "'s \<Rightarrow> 's option" \<comment> \<open>\<open>None\<close> is a panic\<close>

text \<open>
  The contract: \<open>lookup s t k new\<close> is what the store shows for the key \<open>k\<close> at the instant \<open>t\<close>
  when the caller asks for a message like \<open>new\<close>; \<open>reread m new\<close> is how a stored message \<open>m\<close>
  reads back.
\<close>

locale state_store =
  fixes ss :: "'s StateStore"
    and lookup :: "'s \<Rightarrow> Time \<Rightarrow> string \<Rightarrow> go_any \<Rightarrow> go_any option"
    and reread :: "go_any \<Rightarrow> go_any \<Rightarrow> go_any option"
  assumes get: "ss_Get ss now s k new =
      (case lookup s now k (new ()) of Some m \<Rightarrow> (m, True) | None \<Rightarrow> (new (), False))"
    and set_ok: "snd (ss_Set ss now s k m ttl) = None"
    and lookup_set: "0 < sint ttl \<Longrightarrow> lookup (fst (ss_Set ss now s k m ttl)) t k' proto =
      (if k' = k then (if time_Add now ttl < t then None else reread m proto) else lookup s t k' proto)"
    and lookup_delete: "lookup (ss_Delete ss s k) t k' proto =
      (if k' = k then None else lookup s t k' proto)"
begin

lemmas store_laws = get set_ok lookup_set lookup_delete

lemma set_pair: "ss_Set ss now s k m ttl = (fst (ss_Set ss now s k m ttl), None)"
  using set_ok [of now s k m ttl] by (metis prod.collapse)

lemma get_miss: "lookup s now k (new ()) = None \<Longrightarrow> ss_Get ss now s k new = (new (), False)"
  by (simp add: get)

lemma get_hit: "lookup s now k (new ()) = Some m \<Longrightarrow> ss_Get ss now s k new = (m, True)"
  by (simp add: get)

lemma get_after_set:
  assumes "0 < sint ttl" and "t \<le> time_Add now ttl" and "reread m (new ()) = Some m'"
  shows "ss_Get ss t (fst (ss_Set ss now s k m ttl)) k new = (m', True)"
  using assms by (simp add: store_laws)

lemma get_expired:
  assumes "0 < sint ttl" and "time_Add now ttl < t"
  shows "ss_Get ss t (fst (ss_Set ss now s k m ttl)) k new = (new (), False)"
  using assms by (simp add: store_laws)

lemma get_after_delete: "ss_Get ss t (ss_Delete ss s k) k new = (new (), False)"
  by (simp add: store_laws)

lemma get_other_key:
  assumes "0 < sint ttl" and "k' \<noteq> k"
  shows "ss_Get ss t (fst (ss_Set ss now s k m ttl)) k' new = ss_Get ss t s k' new"
    and "ss_Get ss t (ss_Delete ss s k) k' new = ss_Get ss t s k' new"
  using assms by (simp_all add: store_laws)

end

section \<open>The in-memory store\<close>

record InMemoryState =
  im_msg :: go_any
  im_expiration :: Time

record InMemoryStateStore =
  ims_ttl :: Duration
  ims_states :: "string \<rightharpoonup> InMemoryState"
  ims_done :: bool \<comment> \<open>the channel \<open>done\<close> is closed\<close>

definition NewInMemoryStateStore :: "Duration \<Rightarrow> InMemoryStateStore" where
  "NewInMemoryStateStore expiry =
     \<lparr>ims_ttl = (if expiry = 0 then time_Hour else expiry), ims_states = Map.empty, ims_done = False\<rparr>"

definition InMemory_Get ::
    "Time \<Rightarrow> InMemoryStateStore \<Rightarrow> string \<Rightarrow> (unit \<Rightarrow> go_any) \<Rightarrow> go_any \<times> bool" where
  "InMemory_Get now s key new =
     (case ims_states s key of
        None \<Rightarrow> (let msg = new () in if msg = Any_nil then (Any_nil, False) else (msg, False))
      | Some state \<Rightarrow>
          if im_expiration state < now
          then (let msg = new () in if msg = Any_nil then (Any_nil, False) else (msg, False))
          else (im_msg state, True))"

definition InMemory_Set ::
    "Time \<Rightarrow> InMemoryStateStore \<Rightarrow> string \<Rightarrow> go_any \<Rightarrow> Duration \<Rightarrow> InMemoryStateStore \<times> go_error" where
  "InMemory_Set now s key msg ttl0 =
     (let ttl = (if ttl0 = 0 then ims_ttl s else ttl0)
      in (s\<lparr>ims_states := (ims_states s)
             (key \<mapsto> \<lparr>im_msg = msg, im_expiration = time_Add now ttl\<rparr>)\<rparr>, None))"

definition InMemory_Delete :: "InMemoryStateStore \<Rightarrow> string \<Rightarrow> InMemoryStateStore" where
  "InMemory_Delete s key = s\<lparr>ims_states := (ims_states s)(key := None)\<rparr>"

text \<open>Closing a channel twice panics.\<close>

definition InMemory_Close :: "InMemoryStateStore \<Rightarrow> InMemoryStateStore option" where
  "InMemory_Close s = (if ims_done s then None else Some (s\<lparr>ims_done := True\<rparr>))"

definition InMemory_ops :: "InMemoryStateStore StateStore" where
  "InMemory_ops =
     \<lparr>ss_Get = InMemory_Get, ss_Set = InMemory_Set, ss_Delete = InMemory_Delete,
      ss_Close = InMemory_Close\<rparr>"

subsection \<open>The background sweep\<close>

definition sweep_interval :: "Duration \<Rightarrow> Duration" where
  "sweep_interval ttl =
     (let i = word_of_int (sint ttl sdiv 10)
      in if sint i < 10 * sint time_Second then 10 * time_Second else i)"

definition sweep :: "InMemoryStateStore \<Rightarrow> Time \<Rightarrow> InMemoryStateStore" where
  "sweep s now =
     s\<lparr>ims_states := (\<lambda>key. case ims_states s key of
          None \<Rightarrow> None
        | Some state \<Rightarrow> if im_expiration state < now then None else Some state)\<rparr>"

text \<open>
  The goroutine \<open>expire\<close>: a reception is a tick of the ticker with the instant read after the
  lock was taken, and \<open>CtxDone\<close> stands for the closed channel \<open>done\<close>.
\<close>

definition expire :: "InMemoryStateStore \<Rightarrow> Time select list \<Rightarrow> InMemoryStateStore \<times> unit list \<times> bool" where
  "expire s ticks = select_loop (\<lambda>s now. (sweep s now, [])) s ticks"

subsection \<open>It satisfies the contract\<close>

text \<open>What the in-memory store shows at an instant.\<close>

definition InMemory_lookup :: "InMemoryStateStore \<Rightarrow> Time \<Rightarrow> string \<Rightarrow> go_any \<Rightarrow> go_any option" where
  "InMemory_lookup s t key new =
     (case ims_states s key of
        None \<Rightarrow> None
      | Some state \<Rightarrow> if im_expiration state < t then None else Some (im_msg state))"

text \<open>A message is kept by reference and reads back as itself.\<close>

definition InMemory_reread :: "go_any \<Rightarrow> go_any \<Rightarrow> go_any option" where
  [simp]: "InMemory_reread m new = Some m"

lemmas InMemory_defs =
  InMemory_ops_def InMemory_Get_def InMemory_Set_def InMemory_Delete_def InMemory_lookup_def

interpretation in_memory: state_store InMemory_ops InMemory_lookup InMemory_reread
  by unfold_locales (auto simp: InMemory_defs Let_def split: option.splits)

lemma InMemory_ops_sel [simp]:
  "ss_Get InMemory_ops = InMemory_Get" "ss_Set InMemory_ops = InMemory_Set"
  "ss_Delete InMemory_ops = InMemory_Delete" "ss_Close InMemory_ops = InMemory_Close"
  by (simp_all add: InMemory_ops_def)

lemmas InMemory_lookup_set = in_memory.lookup_set [unfolded InMemory_ops_sel InMemory_reread_def]
lemmas InMemory_lookup_delete = in_memory.lookup_delete [unfolded InMemory_ops_sel]

lemma InMemory_lookup_new [simp]:
  "InMemory_lookup (NewInMemoryStateStore d) t k new = None"
  by (simp add: InMemory_lookup_def NewInMemoryStateStore_def)

text \<open>
  The in-memory store is a map with expirations: after \<open>Set\<close>, \<open>Get\<close> of the key
  returns the stored message up to and including the instant \<open>now + ttl\<close>, where a zero \<open>ttl\<close>
  stands for the store's own, and the fresh message with \<open>false\<close> afterwards; every other key
  reads as before.
\<close>

lemma InMemory_get_after_set:
  "InMemory_Get t (fst (InMemory_Set now s k m ttl)) k' new =
    (if k' = k
     then (if time_Add now (if ttl = 0 then ims_ttl s else ttl) < t then (new (), False) else (m, True))
     else InMemory_Get t s k' new)"
  by (simp add: InMemory_Get_def InMemory_Set_def Let_def)

lemma sweep_lookup:
  "now \<le> t \<Longrightarrow> InMemory_lookup (sweep s now) t k new = InMemory_lookup s t k new"
  by (auto simp: InMemory_lookup_def sweep_def split: option.splits)

lemma InMemory_Get_cong:
  "InMemory_lookup s t k (new ()) = InMemory_lookup s' t k (new ()) \<Longrightarrow>
   InMemory_Get t s k new = InMemory_Get t s' k new"
  using in_memory.get [of t s k new] in_memory.get [of t s' k new] by simp

lemma expire_lookup:
  "(\<And>n. InRecv n \<in> set ticks \<Longrightarrow> n \<le> t) \<Longrightarrow>
   InMemory_lookup (fst (expire s ticks)) t k new = InMemory_lookup s t k new"
  unfolding expire_def
proof (induction ticks arbitrary: s)
  case Nil
  then show ?case by simp
next
  case (Cons c ticks)
  then show ?case
    by (cases c) (auto simp: Let_def case_prod_beta sweep_lookup)
qed

text \<open>
  The sweep cannot be observed through the store: at any instant not before the
  sweep's own clock reading, \<open>Get\<close> answers as if the sweep had not run, whatever sequence of
  ticks the goroutine \<open>expire\<close> went through.
\<close>

lemma expire_unobservable:
  assumes "\<And>n. InRecv n \<in> set ticks \<Longrightarrow> n \<le> t"
  shows "InMemory_Get t (fst (expire s ticks)) k new = InMemory_Get t s k new"
  by (intro InMemory_Get_cong expire_lookup assms)

text \<open>
  The sweep reclaims: after a tick at \<open>now\<close> no entry whose expiration lies before
  \<open>now\<close> is left in the map, and no other entry was removed or changed.
\<close>

lemma sweep_exact:
  "ims_states (sweep s now) k = Some st \<longleftrightarrow>
   ims_states s k = Some st \<and> now \<le> im_expiration st"
  by (auto simp: sweep_def split: option.splits)

lemma sint_sdiv_10: "sint (word_of_int (sint (ttl :: Duration) sdiv 10) :: Duration) = sint ttl sdiv 10"
proof (rule sint_word64_of_int)
  have "- (2 ^ 63) \<le> sint ttl" "sint ttl < 2 ^ 63"
    using sint_ge [of ttl] sint_lt [of ttl] by simp_all
  then show "- (2 ^ 63) \<le> sint ttl sdiv 10" "sint ttl sdiv 10 < 2 ^ 63"
    by (auto simp: signed_divide_int_def sgn_if)
qed

lemma sint_sweep_interval: "sint (sweep_interval ttl) = max (10 * 10 ^ 9) (sint ttl sdiv 10)"
  by (simp add: sweep_interval_def Let_def sint_sdiv_10 time_Second_def)

lemma sdiv_10_nonneg: "0 \<le> i \<Longrightarrow> (i::int) sdiv 10 = i div 10"
  by (simp add: signed_divide_int_def sgn_if)

text \<open>
  The ticker never gets an interval below ten seconds, so \<open>time.NewTicker\<close> cannot
  panic on a non-positive interval, and above that floor the interval is a tenth of the TTL.
\<close>

lemma sweep_interval_bounds:
  "10 * 10 ^ 9 \<le> sint (sweep_interval ttl) \<and>
   (100 * 10 ^ 9 \<le> sint ttl \<longrightarrow> sint (sweep_interval ttl) = sint ttl div 10)"
  by (auto simp: sint_sweep_interval sdiv_10_nonneg)

section \<open>The Redis store\<close>

text \<open>
  The methods of the Redis client that the store calls, on a server state of type \<open>'r\<close>, and the
  protobuf codec. \<open>rc_Get\<close> fails for a missing key or a failed command.
\<close>

record 'r redis_client =
  rc_Get :: "Time \<Rightarrow> 'r \<Rightarrow> string \<Rightarrow> bytes option"
  rc_Set :: "Time \<Rightarrow> 'r \<Rightarrow> string \<Rightarrow> bytes \<Rightarrow> Duration \<Rightarrow> 'r \<times> go_error"
  rc_Del :: "'r \<Rightarrow> string \<Rightarrow> 'r"
  rc_Close :: "'r \<Rightarrow> 'r"

record proto_codec =
  proto_Marshal :: "go_any \<Rightarrow> string + bytes"
  proto_Unmarshal :: "bytes \<Rightarrow> go_any \<Rightarrow> go_any option"

definition Redis_Get ::
    "proto_codec \<Rightarrow> 'r redis_client \<Rightarrow> Time \<Rightarrow> 'r \<Rightarrow> string \<Rightarrow> (unit \<Rightarrow> go_any) \<Rightarrow> go_any \<times> bool" where
  "Redis_Get pc client now r key new =
     (case rc_Get client now r key of
        None \<Rightarrow> (new (), False)
      | Some msgStr \<Rightarrow>
          let msg = new () in
          (case proto_Unmarshal pc msgStr msg of
             None \<Rightarrow> (new (), False)
           | Some msg' \<Rightarrow> (msg', True)))"

definition Redis_Set ::
    "proto_codec \<Rightarrow> 'r redis_client \<Rightarrow> Duration \<Rightarrow> Time \<Rightarrow> 'r \<Rightarrow> string \<Rightarrow> go_any \<Rightarrow> Duration \<Rightarrow>
     'r \<times> go_error" where
  "Redis_Set pc client s_ttl now r key msg ttl0 =
     (let ttl = (if ttl0 = 0 then s_ttl else ttl0)
      in case proto_Marshal pc msg of
           Inl err \<Rightarrow> (r, Some err)
         | Inr msgStr \<Rightarrow> rc_Set client now r key msgStr ttl)"

definition Redis_ops :: "proto_codec \<Rightarrow> 'r redis_client \<Rightarrow> Duration \<Rightarrow> 'r StateStore" where
  "Redis_ops pc client s_ttl =
     \<lparr>ss_Get = Redis_Get pc client, ss_Set = Redis_Set pc client s_ttl,
      ss_Delete = rc_Del client, ss_Close = (\<lambda>r. Some (rc_Close client r))\<rparr>"

text \<open>
  The documented behaviour of a Redis server that is reachable: a key set with a positive
  time to live is readable until it expires, \<open>DEL\<close> removes it, and other keys are untouched.
\<close>

definition redis_spec :: "'r redis_client \<Rightarrow> bool" where
  "redis_spec client \<longleftrightarrow>
     (\<forall>now r k b ttl. snd (rc_Set client now r k b ttl) = None) \<and>
     (\<forall>now r k b ttl t k'. 0 < sint ttl \<longrightarrow> rc_Get client t (fst (rc_Set client now r k b ttl)) k' =
        (if k' = k then (if time_Add now ttl < t then None else Some b) else rc_Get client t r k')) \<and>
     (\<forall>r k t k'. rc_Get client t (rc_Del client r k) k' =
        (if k' = k then None else rc_Get client t r k'))"

definition Redis_lookup ::
    "proto_codec \<Rightarrow> 'r redis_client \<Rightarrow> 'r \<Rightarrow> Time \<Rightarrow> string \<Rightarrow> go_any \<Rightarrow> go_any option" where
  "Redis_lookup pc client r t k new =
     Option.bind (rc_Get client t r k) (\<lambda>b. proto_Unmarshal pc b new)"

definition Redis_reread :: "proto_codec \<Rightarrow> go_any \<Rightarrow> go_any \<Rightarrow> go_any option" where
  "Redis_reread pc m new =
     (case proto_Marshal pc m of Inl e \<Rightarrow> None | Inr b \<Rightarrow> proto_Unmarshal pc b new)"


text \<open>A server that is a map of byte strings with expirations.\<close>

definition map_redis :: "(string \<rightharpoonup> bytes \<times> Time) redis_client" where
  "map_redis =
     \<lparr>rc_Get = (\<lambda>now r k. case r k of None \<Rightarrow> None | Some (b, e) \<Rightarrow> if e < now then None else Some b),
      rc_Set = (\<lambda>now r k b ttl. (r(k \<mapsto> (b, time_Add now ttl)), None)),
      rc_Del = (\<lambda>r k. r(k := None)), rc_Close = id\<rparr>"

lemma map_redis_spec: "redis_spec map_redis"
  by (simp add: redis_spec_def map_redis_def)

definition const_codec :: proto_codec where
  "const_codec = \<lparr>proto_Marshal = (\<lambda>m. Inr []), proto_Unmarshal = (\<lambda>b new. Some new)\<rparr>"


end
