(* ===== verification/Stop_Event.thy ===== *)
theory Stop_Event
  imports State_Store Flow_Network
begin

text \<open>
  The processor of \<open>src/processors/transit/stop_events/stop_event.go\<close>: a state machine over the
  successive positions of each vehicle that detects arrivals and departures.

  \<open>makeStopEvent\<close>, \<open>stop_process\<close> and \<open>stop_doStream\<close> are the methods of the code; the \<open>switch\<close>
  of \<open>process\<close> is \<open>stop_switch\<close>. A call of \<open>process\<close> reads the clock twice, in \<open>Get\<close> and in
  \<open>Set\<close>, so both instants are arguments. What is sent on \<open>out\<close> may be a nil pointer, hence the
  outputs are options.

  The specification is \<open>stop_transition\<close>, the transition table over (status, stop) pairs,
  and \<open>spec_run\<close>, its iteration; \<open>paired\<close> says that the arrivals and departures of a vehicle
  alternate and that each departure leaves the stop of the arrival before it.
\<close>

section \<open>The processor\<close>

record 's StopEventProcessor =
  vehiclesState :: "'s StateStore option"

definition makeStopEvent :: "VehiclePositionEvent option \<Rightarrow> string \<Rightarrow> EventType \<Rightarrow> StopEvent option" where
  "makeStopEvent vp stopID eventType =
     (if vp = None then None
      else
        let attrs = VehiclePositionEvent_GetAttributes vp;
            vehicleID = GetVehicleId attrs
        in if vehicleID = [] \<or> stopID = [] then None
           else Some
             \<lparr>se_Attributes = Some (EventAttributes_zero
                \<lparr>AgencyId := GetAgencyId attrs,
                 RouteId := GetRouteId attrs,
                 StopId := stopID,
                 DirectionId := GetDirectionId attrs,
                 StopSequence := GetStopSequence attrs,
                 TripId := GetTripId attrs,
                 ServiceDate := GetServiceDate attrs,
                 Timestamp := GetTimestamp attrs,
                 VehicleId := vehicleID,
                 StopStatus := GetStopStatus attrs\<rparr>),
              se_StopEventType = eventType\<rparr>)"

text \<open>The \<open>switch\<close> on the current status.\<close>

definition stop_switch ::
    "VehiclePositionEvent option \<Rightarrow> EventAttributes option \<Rightarrow> EventAttributes option \<Rightarrow>
     StopEvent option list" where
  "stop_switch event prevAttrs attrs =
     (if GetStopStatus attrs = StopStatus_STOPPED_AT then
        (if GetStopStatus prevAttrs = StopStatus_IN_TRANSIT_TO \<or>
            GetStopStatus prevAttrs = StopStatus_INCOMING_AT
         then [makeStopEvent event (GetStopId attrs) StopEvent_ARRIVAL]
         else if GetStopStatus prevAttrs = StopStatus_STOPPED_AT \<and>
            GetStopId prevAttrs \<noteq> GetStopId attrs
         then [makeStopEvent event (GetStopId prevAttrs) StopEvent_DEPARTURE,
               makeStopEvent event (GetStopId attrs) StopEvent_ARRIVAL]
         else [])
      else if GetStopStatus attrs = StopStatus_IN_TRANSIT_TO then
        (if GetStopStatus prevAttrs = StopStatus_STOPPED_AT
         then [makeStopEvent event (GetStopId prevAttrs) StopEvent_DEPARTURE]
         else if (GetStopStatus prevAttrs = StopStatus_IN_TRANSIT_TO \<or>
                  GetStopStatus prevAttrs = StopStatus_INCOMING_AT) \<and>
            GetStopId prevAttrs \<noteq> GetStopId attrs
         then [makeStopEvent event (GetStopId prevAttrs) StopEvent_ARRIVAL,
               makeStopEvent event (GetStopId prevAttrs) StopEvent_DEPARTURE]
         else [])
      else [])"

definition stop_process ::
    "'s StopEventProcessor option \<Rightarrow> Time \<Rightarrow> Time \<Rightarrow> 's \<Rightarrow> VehiclePositionEvent option \<Rightarrow>
     's \<times> StopEvent option list" where
  "stop_process p t_get t_set st event =
     (case p of None \<Rightarrow> (st, []) | Some s \<Rightarrow>
      (case vehiclesState s of None \<Rightarrow> (st, []) | Some ss \<Rightarrow>
       if event = None then (st, [])
       else
         let attrs = VehiclePositionEvent_GetAttributes event
         in if attrs = None then (st, [])
            else
              let vehicleID = GetVehicleId attrs
              in if vehicleID = [] then (st, [])
                 else
                   let (previousState, found) =
                         ss_Get ss t_get st vehicleID
                           (\<lambda>_. Any_VehiclePositionEvent (Some VehiclePositionEvent_zero))
                   in if previousState = Any_nil then (st, [])
                      else
                        let (st', err) =
                              ss_Set ss t_set st vehicleID (Any_VehiclePositionEvent event) time_Hour
                        in if err \<noteq> None then (st', [])
                           else if \<not> found then (st', [])
                           else
                             (case as_VehiclePositionEvent previousState of
                                None \<Rightarrow> (st', [])
                              | Some None \<Rightarrow> (st', [])
                              | Some (Some previous) \<Rightarrow>
                                  let prevAttrs = VehiclePositionEvent_GetAttributes (Some previous)
                                  in if prevAttrs = None then (st', [])
                                     else if GetStopStatus prevAttrs = GetStopStatus attrs \<and>
                                             GetStopId prevAttrs = GetStopId attrs
                                     then (st', [])
                                     else (st', stop_switch event prevAttrs attrs))))"

text \<open>One reception of \<open>doStream\<close>; the two instants come with the element.\<close>

definition stop_handle ::
    "platform \<Rightarrow> 's StopEventProcessor option \<Rightarrow> 's \<Rightarrow> Time \<times> Time \<times> go_any \<Rightarrow> 's \<times> go_any list" where
  "stop_handle pf p st inp =
     (case inp of (t_get, t_set, event) \<Rightarrow>
        (case event of
           Any_event (VehiclePosition_event v) \<Rightarrow>
             (let (st', os) = stop_process p t_get t_set st v in (st', map Any_StopEvent os))
         | Any_bytes v \<Rightarrow>
             (case Unmarshal_VehiclePositionEvent pf v of
                None \<Rightarrow> (st, [])
              | Some msg \<Rightarrow>
                  (let (st', os) = stop_process p t_get t_set st (Some msg)
                   in (st', map Any_StopEvent os)))
         | _ \<Rightarrow> (st, [])))"

definition stop_doStream ::
    "platform \<Rightarrow> 's StopEventProcessor option \<Rightarrow> 's \<Rightarrow> (Time \<times> Time \<times> go_any) select list \<Rightarrow>
     's \<times> go_any list \<times> bool" where
  "stop_doStream pf p st cs = select_loop (stop_handle pf p) st cs"

text \<open>
  \<open>To\<close> and \<open>Via\<close>: the states the goroutines \<open>doStream\<close> and \<open>transmit\<close> can reach once the processor
  feeds a consumer, a sink or a flow, when it receives \<open>xs\<close> and its input channel is closed afterwards if \<open>closes\<close>.
\<close>

definition stop_To ::
    "platform \<Rightarrow> 's StopEventProcessor option \<Rightarrow> 's \<Rightarrow> (Time \<times> Time \<times> go_any) list \<Rightarrow> bool \<Rightarrow> ('s, (Time \<times> Time \<times> go_any), go_any) link \<Rightarrow> bool" where
  "stop_To pf p st xs closes l = link_run (stop_handle pf p) (new_link st xs closes) l"

interpretation stop_flow: flow_processor "stop_handle pf p" "\<lambda>st cs. snd (stop_doStream pf p st cs)"
  for pf p
  by unfold_locales (simp add: stop_doStream_def)

section \<open>The processor over a store that honours its contract\<close>

abbreviation stop_proc :: "'s StateStore \<Rightarrow> 's StopEventProcessor option" where
  "stop_proc ss \<equiv> Some \<lparr>vehiclesState = Some ss\<rparr>"

abbreviation vp_proto :: go_any where
  "vp_proto \<equiv> Any_VehiclePositionEvent (Some VehiclePositionEvent_zero)"

text \<open>An input of \<open>process\<close> with the instants of its two clock readings.\<close>

type_synonym vp_input = "Time \<times> Time \<times> VehiclePositionEvent option"

definition stop_step :: "'s StateStore \<Rightarrow> 's \<Rightarrow> vp_input \<Rightarrow> 's \<times> StopEvent option list" where
  "stop_step ss st i = stop_process (stop_proc ss) (fst i) (fst (snd i)) st (snd (snd i))"

definition vp_key :: "vp_input \<Rightarrow> string" where
  "vp_key i = GetVehicleId (VehiclePositionEvent_GetAttributes (snd (snd i)))"

text \<open>What \<open>process\<close> emits as a function of the message the store returned.\<close>

definition stop_emit :: "go_any option \<Rightarrow> VehiclePositionEvent option \<Rightarrow> StopEvent option list" where
  "stop_emit prev event =
     (case prev of
        Some (Any_event (VehiclePosition_event (Some pv))) \<Rightarrow>
          (let pa = vpe_Attributes pv; a = VehiclePositionEvent_GetAttributes event
           in if pa = None \<or> (GetStopStatus pa = GetStopStatus a \<and> GetStopId pa = GetStopId a) then []
              else stop_switch event pa a)
      | _ \<Rightarrow> [])"

context state_store
begin

lemma stop_step_skip: "vp_key i = [] \<Longrightarrow> stop_step ss st i = (st, [])"
  by (auto simp: stop_step_def vp_key_def stop_process_def Let_def ptr_get_def split: option.splits)

lemma stop_step_eq:
  assumes "vp_key i \<noteq> []"
  shows "stop_step ss st i =
    (case lookup st (fst i) (vp_key i) vp_proto of
       Some Any_nil \<Rightarrow> (st, [])
     | prev \<Rightarrow> (fst (ss_Set ss (fst (snd i)) st (vp_key i)
                  (Any_VehiclePositionEvent (snd (snd i))) time_Hour), stop_emit prev (snd (snd i))))"
proof -
  obtain tg ts e where i: "i = (tg, ts, e)" by (cases i) auto
  from assms obtain v a where e: "e = Some v" "vpe_Attributes v = Some a" "VehicleId a \<noteq> []"
    by (cases e; cases "vpe_Attributes (the e)") (auto simp: i vp_key_def)
  show ?thesis
  proof (cases "lookup st tg (VehicleId a) vp_proto")
    case None
    then show ?thesis
      using e set_ok [of ts st "VehicleId a" "Any_VehiclePositionEvent e" time_Hour]
      by (simp add: i vp_key_def stop_step_def stop_process_def stop_emit_def get Let_def case_prod_beta)
  next
    case (Some m)
    then show ?thesis
      using e set_ok [of ts st "VehicleId a" "Any_VehiclePositionEvent e" time_Hour]
      by (cases m)
        (simp_all add: i vp_key_def stop_step_def stop_process_def stop_emit_def get Let_def
          case_prod_beta as_VehiclePositionEvent_def split: option.split event.split)
  qed
qed

lemma stop_step_set:
  assumes "vp_key i \<noteq> []" and "lookup st (fst i) (vp_key i) vp_proto \<noteq> Some Any_nil"
  shows "lookup (fst (stop_step ss st i)) t (vp_key i) m =
      (if time_Add (fst (snd i)) time_Hour < t then None
       else reread (Any_VehiclePositionEvent (snd (snd i))) m)"
  using assms by (simp add: stop_step_eq lookup_set split: option.split go_any.split)

lemma stop_step_out:
  "vp_key i \<noteq> [] \<Longrightarrow>
   snd (stop_step ss st i) = stop_emit (lookup st (fst i) (vp_key i) vp_proto) (snd (snd i))"
  by (simp add: stop_step_eq stop_emit_def split: option.split go_any.split)

end

sublocale state_store \<subseteq> stop_keyed: keyed_step "stop_step ss" vp_key "\<lambda>s k t. lookup s t k vp_proto"
proof
  fix k :: string and i :: vp_input and s :: 's
  assume k: "k \<noteq> vp_key i"
  show "(\<lambda>t. lookup (fst (stop_step ss s i)) t k vp_proto) = (\<lambda>t. lookup s t k vp_proto)"
  proof (cases "vp_key i = []")
    case True
    then show ?thesis by (simp add: stop_step_skip)
  next
    case False
    then show ?thesis
      using k by (auto simp: stop_step_eq lookup_set split: option.split go_any.split)
  qed
next
  fix s t :: 's and i :: vp_input
  assume v: "(\<lambda>u. lookup s u (vp_key i) vp_proto) = (\<lambda>u. lookup t u (vp_key i) vp_proto)"
  then have v': "\<And>u. lookup s u (vp_key i) vp_proto = lookup t u (vp_key i) vp_proto"
    by (simp add: fun_eq_iff)
  show "(\<lambda>u. lookup (fst (stop_step ss s i)) u (vp_key i) vp_proto) =
      (\<lambda>u. lookup (fst (stop_step ss t i)) u (vp_key i) vp_proto)"
  proof (cases "vp_key i = []")
    case True
    then show ?thesis using v by (simp add: stop_step_skip)
  next
    case False
    then show ?thesis
      using v' by (auto simp: stop_step_eq lookup_set split: option.split go_any.split)
  qed
  show "snd (stop_step ss s i) = snd (stop_step ss t i)"
    by (cases "vp_key i = []") (simp_all add: stop_step_skip stop_step_out v')
qed

section \<open>The transition table\<close>

text \<open>The status and the stop a position reports.\<close>

type_synonym observation = "StopStatus \<times> string"

definition stop_transition :: "observation \<Rightarrow> observation \<Rightarrow> (EventType \<times> string) list" where
  "stop_transition prev cur =
     (case (prev, cur) of ((ps, pstop), (cs, cstop)) \<Rightarrow>
        if cs = StopStatus_STOPPED_AT then
          (if ps \<in> {StopStatus_IN_TRANSIT_TO, StopStatus_INCOMING_AT} then [(StopEvent_ARRIVAL, cstop)]
           else if ps = StopStatus_STOPPED_AT \<and> pstop \<noteq> cstop
             then [(StopEvent_DEPARTURE, pstop), (StopEvent_ARRIVAL, cstop)]
           else [])
        else if cs = StopStatus_IN_TRANSIT_TO then
          (if ps = StopStatus_STOPPED_AT then [(StopEvent_DEPARTURE, pstop)]
           else if ps \<in> {StopStatus_IN_TRANSIT_TO, StopStatus_INCOMING_AT} \<and> pstop \<noteq> cstop
             then [(StopEvent_ARRIVAL, pstop), (StopEvent_DEPARTURE, pstop)]
           else [])
        else [])"

fun spec_run :: "observation option \<Rightarrow> observation list \<Rightarrow> (EventType \<times> string) list" where
  "spec_run prev [] = []"
| "spec_run None (c # cs) = spec_run (Some c) cs"
| "spec_run (Some p) (c # cs) = stop_transition p c @ spec_run (Some c) cs"

text \<open>
  Alternation: with no stop open the next event is an arrival, with a stop open it is the
  departure from that stop.
\<close>

fun paired :: "string option \<Rightarrow> (EventType \<times> string) list \<Rightarrow> bool" where
  "paired opened [] = True"
| "paired None ((ty, s) # es) = (ty = StopEvent_ARRIVAL \<and> paired (Some s) es)"
| "paired (Some x) ((ty, s) # es) = (ty = StopEvent_DEPARTURE \<and> s = x \<and> paired None es)"

definition open_stop :: "observation \<Rightarrow> string option" where
  "open_stop c = (if fst c = StopStatus_STOPPED_AT then Some (snd c) else None)"

definition initial_open :: "observation list \<Rightarrow> string option" where
  "initial_open cs = (case cs of [] \<Rightarrow> None | c # _ \<Rightarrow> open_stop c)"

text \<open>
  The observations the table covers: one of the three known statuses, and never a vehicle that
  goes from standing at a stop to \<open>INCOMING_AT\<close> without being seen \<open>IN_TRANSIT_TO\<close>.
\<close>

definition known_status :: "observation \<Rightarrow> bool" where
  "known_status c \<longleftrightarrow>
     fst c \<in> {StopStatus_IN_TRANSIT_TO, StopStatus_INCOMING_AT, StopStatus_STOPPED_AT}"

fun covered :: "observation list \<Rightarrow> bool" where
  "covered [] = True"
| "covered [c] = known_status c"
| "covered (c # d # cs) =
     (known_status c \<and> \<not> (fst c = StopStatus_STOPPED_AT \<and> fst d = StopStatus_INCOMING_AT) \<and>
      covered (d # cs))"

lemma paired_transition:
  assumes "known_status p" and "known_status c"
    and "\<not> (fst p = StopStatus_STOPPED_AT \<and> fst c = StopStatus_INCOMING_AT)"
  shows "paired (open_stop p) (stop_transition p c @ es) = paired (open_stop c) es"
  using assms
  by (cases p; cases c) (auto simp: stop_transition_def open_stop_def known_status_def)

lemma spec_run_paired: "covered (c # cs) \<Longrightarrow> paired (open_stop c) (spec_run (Some c) cs)"
proof (induction cs arbitrary: c)
  case Nil
  then show ?case by simp
next
  case (Cons d cs)
  then have "known_status d" by (cases cs) simp_all
  with Cons show ?case by (simp add: paired_transition)
qed

lemma spec_run_paired_initial: "covered cs \<Longrightarrow> paired (initial_open cs) (spec_run None cs)"
  by (cases cs) (simp_all add: initial_open_def spec_run_paired)

section \<open>Refinement: the processor implements the table\<close>

definition observe :: "vp_input \<Rightarrow> observation" where
  "observe i =
     (let a = VehiclePositionEvent_GetAttributes (snd (snd i)) in (GetStopStatus a, GetStopId a))"

text \<open>The type and stop of an emitted event; a nil pointer reads as unknown type and no stop.\<close>

definition signature :: "StopEvent option \<Rightarrow> EventType \<times> string" where
  "signature e = (StopEvent_GetStopEventType e, GetStopId (StopEvent_GetAttributes e))"

text \<open>A position of vehicle \<open>v\<close> that names its stop.\<close>

definition position_of :: "string \<Rightarrow> vp_input \<Rightarrow> bool" where
  "position_of v i \<longleftrightarrow> vp_key i = v \<and> snd (observe i) \<noteq> []"

text \<open>Each position is processed within an hour of the one before it.\<close>

fun within_ttl :: "(Time \<times> Time \<times> 'e) list \<Rightarrow> bool" where
  "within_ttl (i # j # is) =
     (fst j \<le> time_Add (fst (snd i)) time_Hour \<and> within_ttl (j # is))"
| "within_ttl is = True"

lemma signature_makeStopEvent:
  assumes "GetVehicleId (VehiclePositionEvent_GetAttributes e) \<noteq> []" and "s \<noteq> []"
  shows "signature (makeStopEvent e s ty) = (ty, s)"
  using assms by (cases e) (auto simp: signature_def makeStopEvent_def Let_def)

lemma stop_transition_same [simp]: "stop_transition c c = []"
  by (cases c) (auto simp: stop_transition_def)

text \<open>
  The events themselves: each is made from the position that triggers it, with the type and stop of
  the table.
\<close>

definition made_for :: "vp_input \<Rightarrow> EventType \<times> string \<Rightarrow> StopEvent option" where
  "made_for i e = makeStopEvent (snd (snd i)) (snd e) (fst e)"

fun spec_events :: "vp_input option \<Rightarrow> vp_input list \<Rightarrow> StopEvent option list" where
  "spec_events prev [] = []"
| "spec_events None (j # js) = spec_events (Some j) js"
| "spec_events (Some i) (j # js) =
     map (made_for j) (stop_transition (observe i) (observe j)) @ spec_events (Some j) js"

lemma stop_emit_made:
  assumes "vp_key i \<noteq> []"
  shows "stop_emit (Some (Any_VehiclePositionEvent (snd (snd i)))) (snd (snd j)) =
    map (made_for j) (stop_transition (observe i) (observe j))"
proof -
  from assms obtain pv pa where i: "snd (snd i) = Some pv" "vpe_Attributes pv = Some pa"
    by (cases "snd (snd i)"; cases "vpe_Attributes (the (snd (snd i)))") (auto simp: vp_key_def)
  then show ?thesis
    by (auto simp: stop_emit_def stop_switch_def observe_def stop_transition_def made_for_def Let_def)
qed

lemma stop_run_from:
  assumes "v \<noteq> []" and "list_all (\<lambda>i. vp_key i = v) (i # is)" and "within_ttl (i # is)"
    and "\<And>t. t \<le> time_Add (fst (snd i)) time_Hour \<Longrightarrow>
      InMemory_lookup st t v vp_proto = Some (Any_VehiclePositionEvent (snd (snd i)))"
  shows "outputs (stop_step InMemory_ops) st is = spec_events (Some i) is"
  using assms
proof (induction "is" arbitrary: i st)
  case Nil
  then show ?case by simp
next
  case (Cons j js)
  then have ij: "vp_key i = v" "vp_key j = v"
    and t: "fst j \<le> time_Add (fst (snd i)) time_Hour" by simp_all
  then have l: "InMemory_lookup st (fst j) (vp_key j) vp_proto =
      Some (Any_VehiclePositionEvent (snd (snd i)))"
    using Cons.prems(4) by simp
  have "snd (stop_step InMemory_ops st j) = map (made_for j) (stop_transition (observe i) (observe j))"
    using in_memory.stop_step_out [of j st] stop_emit_made [of i j] ij l Cons.prems(1) by simp
  moreover have "outputs (stop_step InMemory_ops) (fst (stop_step InMemory_ops st j)) js =
      spec_events (Some j) js"
  proof (rule Cons.IH)
    show "list_all (\<lambda>i. vp_key i = v) (j # js)" "within_ttl (j # js)"
      using Cons.prems by simp_all
    show "InMemory_lookup (fst (stop_step InMemory_ops st j)) t v vp_proto =
        Some (Any_VehiclePositionEvent (snd (snd j)))" if "t \<le> time_Add (fst (snd j)) time_Hour" for t
      using in_memory.stop_step_set [of j st t vp_proto] that ij l Cons.prems(1) by simp
  qed (rule Cons.prems(1))
  ultimately show ?case by (simp only: outputs_Cons spec_events.simps)
qed

lemma stop_run_exact:
  assumes "v \<noteq> []" and "list_all (\<lambda>i. vp_key i = v) is" and "within_ttl is"
  shows "outputs (stop_step InMemory_ops) (NewInMemoryStateStore d) is = spec_events None is"
proof (cases "is")
  case Nil
  then show ?thesis by simp
next
  case (Cons i js)
  let ?st = "NewInMemoryStateStore d"
  have i: "vp_key i = v" using assms(2) Cons by simp
  then have "snd (stop_step InMemory_ops ?st i) = []"
    using in_memory.stop_step_out [of i ?st] assms(1) by (simp add: stop_emit_def)
  moreover have "outputs (stop_step InMemory_ops) (fst (stop_step InMemory_ops ?st i)) js =
      spec_events (Some i) js"
  proof (rule stop_run_from)
    show "InMemory_lookup (fst (stop_step InMemory_ops ?st i)) t v vp_proto =
        Some (Any_VehiclePositionEvent (snd (snd i)))" if "t \<le> time_Add (fst (snd i)) time_Hour" for t
      using in_memory.stop_step_set [of i ?st t vp_proto] that i assms(1) by simp
  qed (use assms Cons in simp_all)
  ultimately show ?thesis by (simp only: Cons outputs_Cons spec_events.simps append_Nil)
qed

lemma transition_stops:
  "(ty, s) \<in> set (stop_transition p c) \<Longrightarrow> s \<in> {snd p, snd c}"
  by (cases p; cases c) (auto simp: stop_transition_def split: if_splits)

lemma signature_spec_events:
  assumes "v \<noteq> []" and "list_all (position_of v) (case prev of None \<Rightarrow> is | Some i \<Rightarrow> i # is)"
  shows "map signature (spec_events prev is) = spec_run (map_option observe prev) (map observe is)"
  using assms(2)
proof (induction prev "is" rule: spec_events.induct)
  case (3 i j js)
  then have v: "GetVehicleId (VehiclePositionEvent_GetAttributes (snd (snd j))) \<noteq> []"
    and stops: "snd (observe i) \<noteq> []" "snd (observe j) \<noteq> []"
    using assms(1) by (simp_all add: position_of_def vp_key_def)
  have "signature (made_for j e) = e" if "e \<in> set (stop_transition (observe i) (observe j))" for e
  proof -
    obtain ty s where e: "e = (ty, s)" by fastforce
    then have "s \<noteq> []" using that stops transition_stops [of ty s "observe i" "observe j"] by auto
    then show ?thesis by (simp add: e made_for_def signature_makeStopEvent [OF v])
  qed
  then have "map signature (map (made_for j) (stop_transition (observe i) (observe j))) =
      stop_transition (observe i) (observe j)"
    by (simp add: map_idI)
  then show ?case using 3 by simp
qed simp_all

lemma stop_run_refines:
  assumes "v \<noteq> []" and "list_all (position_of v) is" and "within_ttl is"
  shows "map signature (outputs (stop_step InMemory_ops) (NewInMemoryStateStore d) is) =
    spec_run None (map observe is)"
proof -
  have "list_all (\<lambda>i. vp_key i = v) is" using assms(2) by (simp add: list_all_iff position_of_def)
  then show ?thesis
    using stop_run_exact [OF assms(1) _ assms(3)] signature_spec_events [OF assms(1), where prev = None] assms(2)
    by simp
qed

section \<open>Properties\<close>

text \<open>
  Property C24. The goroutines of the stop processor implement its stream function under every schedule:
  at any moment the consumer behind \<open>To\<close> has received a prefix of what \<open>doStream\<close> sends for the
  input; and when the goroutines have come to rest with a consumer that still receives, it has
  received exactly that, for the inputs taken before a cancellation or for all of them, and
  its channel has been closed if the input was closed or the context cancelled.
\<close>

theorem stop_network_refines:
  assumes "stop_To pf p st xs closes l"
  shows "prefix (lk_inlet l) (fst (snd (stop_doStream pf p st (map InRecv xs)))) \<and>
    (at_rest (stop_handle pf p) l \<and> lk_consuming l \<longrightarrow>
      (\<exists>ys. prefix ys xs \<and> (\<not> lk_cancelled l \<longrightarrow> ys = xs) \<and>
        (lk_inlet l, lk_closed l) = snd (stop_doStream pf p st (map InRecv ys @
          (if lk_cancelled l then [CtxDone] else if closes then [InClosed] else [])))))"
  using assms stop_flow.inlet_prefix [of pf p st xs closes l] stop_flow.rest_complete [of pf p st xs closes l]
  unfolding stop_To_def by blast

theorem stop_network_refines_witness:
  "\<exists>l. stop_To reference_platform (stop_proc InMemory_ops) (NewInMemoryStateStore 0) [(0, 1, Any_nil)] True l \<and>
     lk_inlet l = [] \<and> lk_closed l"
proof -
  let ?h = "stop_handle reference_platform (stop_proc InMemory_ops)" and ?st = "NewInMemoryStateStore 0"
  let ?l0 = "new_link ?st [(0, 1, Any_nil)] True :: (InMemoryStateStore, Time \<times> Time \<times> go_any, go_any) link"
  let ?l1 = "?l0\<lparr>lk_feed := [], lk_state := ?st, lk_proc := Sending []\<rparr>"
  let ?l2 = "?l1\<lparr>lk_proc := Selecting\<rparr>"
  let ?l3 = "?l2\<lparr>lk_proc := Finished\<rparr>"
  let ?l4 = "?l3\<lparr>lk_copy := Copied, lk_closed := True\<rparr>"
  have "link_step ?h ?l0 ?l1"
    by (rule link_step.receive [where x = "(0, 1, Any_nil)"]) (simp_all add: new_link_def stop_handle_def)
  moreover have "link_step ?h ?l1 ?l2" by (rule link_step.resume) simp
  moreover have "link_step ?h ?l2 ?l3" by (rule link_step.in_closed) (simp_all add: new_link_def)
  moreover have "link_step ?h ?l3 ?l4" by (rule link_step.range_end) (simp_all add: new_link_def)
  ultimately have run: "stop_To reference_platform (stop_proc InMemory_ops) ?st [(0, 1, Any_nil)] True ?l4"
    unfolding stop_To_def by (meson converse_rtranclp_into_rtranclp rtranclp.rtrancl_refl)
  have "at_rest ?h ?l4" by (rule finished_at_rest) simp_all
  then have "(lk_inlet ?l4, lk_closed ?l4) = snd (stop_doStream reference_platform (stop_proc InMemory_ops) ?st
      (map InRecv [(0, 1, Any_nil)] @ [InClosed]))"
    using stop_network_refines [OF run] by (simp add: new_link_def)
  then have "lk_inlet ?l4 = []" "lk_closed ?l4"
    by (simp_all add: stop_doStream_def stop_handle_def)
  with run show ?thesis by blast
qed

text \<open>What the positions of vehicle \<open>v\<close> make a stream of positions of any vehicles emit.\<close>

abbreviation emitted_for :: "InMemoryStateStore \<Rightarrow> string \<Rightarrow> vp_input list \<Rightarrow> StopEvent option list" where
  "emitted_for st v is \<equiv> emitted_by (stop_step InMemory_ops) vp_key v st is"

text \<open>Positions for concrete runs: a vehicle reports a status and a stop at a second.\<close>

definition example_vp :: "string \<Rightarrow> StopStatus \<Rightarrow> string \<Rightarrow> int64 \<Rightarrow> VehiclePositionEvent option" where
  "example_vp v status stop sec =
     Some \<lparr>vpe_Attributes = Some (EventAttributes_zero
             \<lparr>VehicleId := v, StopStatus := status, StopId := stop, Timestamp := unix_ts sec\<rparr>),
           vpe_Latitude = Finite 0, vpe_Longitude = Finite 0\<rparr>"

definition example_run :: "vp_input list" where
  "example_run =
     [(0, 1, example_vp ''bus'' StopStatus_IN_TRANSIT_TO ''A'' 100),
      (5, 6, example_vp ''tram'' StopStatus_STOPPED_AT ''X'' 101),
      (9, 10, example_vp ''bus'' StopStatus_STOPPED_AT ''A'' 110),
      (12, 13, example_vp ''tram'' StopStatus_IN_TRANSIT_TO ''Y'' 112),
      (15, 16, example_vp ''bus'' StopStatus_STOPPED_AT ''B'' 190)]"

lemmas example_vp_simps =
  example_vp_def example_run_def vp_key_def observe_def position_of_def EventAttributes_zero_def

text \<open>
  Vehicles do not interfere: what the positions of one vehicle emit in a stream
  with positions of other vehicles in between is what they emit when processed alone.
\<close>

lemma stop_isolation:
  "emitted_for st v is = outputs (stop_step InMemory_ops) st (filter (\<lambda>i. vp_key i = v) is)"
  by (rule in_memory.stop_keyed.isolation)

text \<open>
  Property C1. The processor implements the transition table: started on an empty store, in any
  interleaving with other vehicles, the arrivals and departures emitted for a vehicle are
  those the table prescribes for its sequence of (status, stop) observations, provided each
  position names its stop and follows the one before it within the hour the store keeps it.
\<close>

theorem stop_events_refine_table:
  assumes "v \<noteq> []" and "list_all (position_of v) (filter (\<lambda>i. vp_key i = v) is)"
    and "within_ttl (filter (\<lambda>i. vp_key i = v) is)"
  shows "map signature (emitted_for (NewInMemoryStateStore d) v is) =
    spec_run None (map observe (filter (\<lambda>i. vp_key i = v) is))"
  unfolding in_memory.stop_keyed.isolation by (rule stop_run_refines [OF assms])

theorem stop_events_refine_table_witness:
  "map signature (emitted_for (NewInMemoryStateStore 0) ''bus'' example_run) =
   [(StopEvent_ARRIVAL, ''A''), (StopEvent_DEPARTURE, ''A''), (StopEvent_ARRIVAL, ''B'')]"
  by (subst stop_events_refine_table)
    (simp_all add: example_vp_simps stop_transition_def time_Add_def)

text \<open>
  Property C2. Arrivals and departures alternate and match: in any interleaving with other
  vehicles, each arrival emitted for a vehicle is followed by the departure from the same
  stop before the next arrival, and no nil event is emitted, provided the vehicle reports known
  statuses, names its stops, is seen at least once an hour, and is never seen \<open>INCOMING_AT\<close>
  directly after \<open>STOPPED_AT\<close>.
\<close>

theorem stop_events_paired:
  assumes "v \<noteq> []" and "list_all (position_of v) (filter (\<lambda>i. vp_key i = v) is)"
    and "within_ttl (filter (\<lambda>i. vp_key i = v) is)"
    and "covered (map observe (filter (\<lambda>i. vp_key i = v) is))"
  shows "paired (initial_open (map observe (filter (\<lambda>i. vp_key i = v) is)))
    (map signature (emitted_for (NewInMemoryStateStore d) v is))"
  unfolding in_memory.stop_keyed.isolation stop_run_refines [OF assms(1-3)]
  by (rule spec_run_paired_initial [OF assms(4)])

theorem stop_events_paired_witness:
  "paired None (map signature (emitted_for (NewInMemoryStateStore 0) ''bus'' example_run))"
  using stop_events_paired [of "''bus''" example_run 0]
  by (simp add: example_vp_simps time_Add_def initial_open_def open_stop_def known_status_def)


lemma stop_emit_makes:
  assumes "x \<in> set (stop_emit prev event)"
  obtains pv s ty where "prev = Some (Any_VehiclePositionEvent (Some pv))" "x = makeStopEvent event s ty"
    "ty \<in> {StopEvent_ARRIVAL, StopEvent_DEPARTURE}"
    "s \<in> {GetStopId (vpe_Attributes pv), GetStopId (VehiclePositionEvent_GetAttributes event)}"
  using assms
  by (auto simp: stop_emit_def stop_switch_def Let_def
      split: option.splits go_any.splits event.splits if_splits)

text \<open>
  Every event sent for a position, unless it is nil, carries that position's
  own agency, route, direction, trip, service date, timestamp, stop sequence, vehicle and
  status, is an arrival or a departure, and names the stop of that position or the one of the
  vehicle's stored position.
\<close>

lemma stop_event_attributes:
  assumes "Some e \<in> set (snd (stop_step InMemory_ops st (t_get, t_set, vp)))"
  shows "\<exists>b. se_Attributes e = Some b \<and> StopId b \<noteq> [] \<and>
    se_StopEventType e \<in> {StopEvent_ARRIVAL, StopEvent_DEPARTURE} \<and>
    (let a = VehiclePositionEvent_GetAttributes vp in
     AgencyId b = GetAgencyId a \<and> RouteId b = GetRouteId a \<and> DirectionId b = GetDirectionId a \<and>
     TripId b = GetTripId a \<and> ServiceDate b = GetServiceDate a \<and> Timestamp b = GetTimestamp a \<and>
     StopSequence b = GetStopSequence a \<and> VehicleId b = GetVehicleId a \<and> VehicleId b \<noteq> [] \<and>
     StopStatus b = GetStopStatus a \<and>
     (\<exists>pv. InMemory_Get t_get st (GetVehicleId a) (\<lambda>_. vp_proto) =
         (Any_VehiclePositionEvent (Some pv), True) \<and>
       StopId b \<in> {GetStopId (vpe_Attributes pv), GetStopId a}))"
proof -
  let ?i = "(t_get, t_set, vp)"
  have "vp_key ?i \<noteq> []" using assms by (metis in_memory.stop_step_skip snd_conv list.set(1) empty_iff)
  then have "Some e \<in> set (stop_emit (InMemory_lookup st t_get (vp_key ?i) vp_proto) vp)"
    using assms by (simp add: in_memory.stop_step_out)
  then obtain pv s ty where l: "InMemory_lookup st t_get (vp_key ?i) vp_proto = Some (Any_VehiclePositionEvent (Some pv))"
    and m: "Some e = makeStopEvent vp s ty" "ty \<in> {StopEvent_ARRIVAL, StopEvent_DEPARTURE}"
    "s \<in> {GetStopId (vpe_Attributes pv), GetStopId (VehiclePositionEvent_GetAttributes vp)}"
    by (rule stop_emit_makes)
  have "InMemory_Get t_get st (vp_key ?i) (\<lambda>_. vp_proto) = (Any_VehiclePositionEvent (Some pv), True)"
    using l in_memory.get [of t_get st "vp_key ?i" "\<lambda>_. vp_proto"] by simp
  then show ?thesis
    using m by (auto simp: makeStopEvent_def vp_key_def Let_def split: if_splits)
qed

text \<open>
  A departure from a stop without an id is not dropped: the processor sends a nil
  event downstream.
\<close>

lemma stop_nil_event_sent:
  assumes "vpe_Attributes pv = Some pa" and "StopStatus pa = StopStatus_STOPPED_AT" and "StopId pa = []"
    and "vpe_Attributes v = Some a" and "VehicleId a \<noteq> []" and "StopStatus a = StopStatus_IN_TRANSIT_TO"
    and "InMemory_Get t_get st (VehicleId a) (\<lambda>_. vp_proto) = (Any_VehiclePositionEvent (Some pv), True)"
  shows "snd (stop_process (stop_proc InMemory_ops) t_get t_set st (Some v)) = [None]"
  using assms
  by (simp add: stop_process_def stop_switch_def makeStopEvent_def InMemory_Set_def Let_def)

text \<open>Which receptions of the stream reach \<open>process\<close>, and as what.\<close>

definition stop_decode :: "platform \<Rightarrow> Time \<times> Time \<times> go_any \<Rightarrow> vp_input option" where
  "stop_decode pf i =
     (case i of (t_get, t_set, v) \<Rightarrow>
        (case v of
           Any_event (VehiclePosition_event e) \<Rightarrow> Some (t_get, t_set, e)
         | Any_bytes b \<Rightarrow>
             map_option (\<lambda>m. (t_get, t_set, Some m)) (Unmarshal_VehiclePositionEvent pf b)
         | _ \<Rightarrow> None))"

lemma stop_handle_decode:
  "stop_handle pf (stop_proc ss) st i =
     (case stop_decode pf i of None \<Rightarrow> (st, [])
      | Some j \<Rightarrow> (fst (stop_step ss st j), map Any_StopEvent (snd (stop_step ss st j))))"
  by (auto simp: stop_handle_def stop_decode_def stop_step_def case_prod_beta Let_def
      split: go_any.split event.split option.split)

text \<open>
  The goroutine of the stop processor: until its input channel is closed, it runs
  \<open>process\<close> on the position events it receives, decoding those that come as bytes and skipping
  everything else, sends the results in order, and closes its output channel.
\<close>

lemma stop_doStream_decodes:
  "stop_doStream pf (stop_proc ss) st (map InRecv xs @ InClosed # cs) =
     (final_state (stop_step ss) st (List.map_filter (stop_decode pf) xs),
      map Any_StopEvent (outputs (stop_step ss) st (List.map_filter (stop_decode pf) xs)), True)"
  unfolding stop_doStream_def by (rule decoded_loop) (rule stop_handle_decode)

end
