(* ===== verification/Stop_Input.thy ===== *)
theory Stop_Input
  imports State_Store
begin

text \<open>
  What the three processors that consume stop events share: an input of \<open>process\<close> is a stop
  event with the instants of the clock readings in \<open>Get\<close> and \<open>Set\<close>; \<open>stop_decode_input\<close> is the
  type assertion of their stream loops; \<open>whole_second\<close> describes the timestamps the feed
  produces, which carry no nanoseconds and lie in the 31-bit range.
\<close>

type_synonym se_input = "Time \<times> Time \<times> StopEvent option"

abbreviation se_proto :: go_any where
  "se_proto \<equiv> Any_StopEvent (Some StopEvent_zero)"

abbreviation input_attrs :: "se_input \<Rightarrow> EventAttributes option" where
  "input_attrs i \<equiv> StopEvent_GetAttributes (snd (snd i))"

abbreviation input_type :: "se_input \<Rightarrow> EventType" where
  "input_type i \<equiv> StopEvent_GetStopEventType (snd (snd i))"

abbreviation is_departure :: "se_input \<Rightarrow> bool" where
  "is_departure i \<equiv> input_type i = StopEvent_DEPARTURE"

abbreviation is_arrival :: "se_input \<Rightarrow> bool" where
  "is_arrival i \<equiv> input_type i = StopEvent_ARRIVAL"

lemma input_type_Some:
  "input_type i = StopEvent_ARRIVAL \<Longrightarrow> \<exists>e. snd (snd i) = Some e"
  "input_type i = StopEvent_DEPARTURE \<Longrightarrow> \<exists>e. snd (snd i) = Some e"
  by (cases "snd (snd i)"; simp)+

lemma input_type_cases:
  obtains (arrival) "input_type i = StopEvent_ARRIVAL"
  | (departure) "input_type i = StopEvent_DEPARTURE"
  | (other) "input_type i \<noteq> StopEvent_ARRIVAL" "input_type i \<noteq> StopEvent_DEPARTURE"
  by blast

definition stop_decode_input :: "Time \<times> Time \<times> go_any \<Rightarrow> se_input option" where
  "stop_decode_input i =
     (case i of (t_get, t_set, v) \<Rightarrow> map_option (\<lambda>e. (t_get, t_set, e)) (as_StopEvent v))"

definition whole_second :: "se_input \<Rightarrow> bool" where
  "whole_second i =
     (case GetTimestamp (input_attrs i) of
        None \<Rightarrow> False
      | Some ts \<Rightarrow> Nanos ts = 0 \<and> 0 \<le> sint (Seconds ts) \<and> sint (Seconds ts) < 2 ^ 31)"

definition input_second :: "se_input \<Rightarrow> int" where
  "input_second i = sint (ptr_get Seconds 0 (GetTimestamp (input_attrs i)))"

lemma whole_second_unix_ts:
  assumes "whole_second i"
  shows "\<exists>s. GetTimestamp (input_attrs i) = unix_ts s \<and> 0 \<le> sint s \<and> sint s < 2 ^ 31"
proof -
  from assms obtain ts where "GetTimestamp (input_attrs i) = Some ts" "Nanos ts = 0"
      "0 \<le> sint (Seconds ts)" "sint (Seconds ts) < 2 ^ 31"
    by (auto simp: whole_second_def split: option.splits)
  then show ?thesis by (cases ts) auto
qed

lemma whole_second_elapsed:
  assumes "timestamppb_spec pf" and "whole_second i" and "whole_second j"
  shows "sint (elapsed_seconds oor (AsTime pf (GetTimestamp (input_attrs j)))
      (AsTime pf (GetTimestamp (input_attrs i)))) = input_second j - input_second i"
proof -
  from assms(2) obtain s where s: "GetTimestamp (input_attrs i) = unix_ts s" "0 \<le> sint s" "sint s < 2 ^ 31"
    by (metis whole_second_unix_ts)
  from assms(3) obtain r where r: "GetTimestamp (input_attrs j) = unix_ts r" "0 \<le> sint r" "sint r < 2 ^ 31"
    by (metis whole_second_unix_ts)
  show ?thesis
    unfolding input_second_def s(1) r(1) using assms(1) s(2,3) r(2,3)
    by (subst elapsed_unix_ts) simp_all
qed

text \<open>The stored events are still live whenever a later input is processed.\<close>

definition live_run :: "se_input list \<Rightarrow> bool" where
  "live_run is = sorted_wrt (\<lambda>i j. fst j \<le> time_Add (fst (snd i)) time_Hour) is"

text \<open>What the store shows for a key to each of the coming inputs.\<close>

definition shows_event :: "InMemoryStateStore \<Rightarrow> string \<Rightarrow> se_input option \<Rightarrow> se_input list \<Rightarrow> bool" where
  "shows_event st k stored rest \<longleftrightarrow>
     (\<forall>j \<in> set rest. InMemory_lookup st (fst j) k se_proto =
        map_option (\<lambda>i. Any_StopEvent (snd (snd i))) stored)"

text \<open>Stop events for concrete runs.\<close>

definition example_se :: "EventType \<Rightarrow> string \<Rightarrow> string \<Rightarrow> int64 \<Rightarrow> StopEvent option" where
  "example_se ty v stop sec =
     Some \<lparr>se_Attributes = Some (EventAttributes_zero
             \<lparr>AgencyId := ''MBTA'', RouteId := ''Red'', DirectionId := ''0'', TripId := ''t1'',
              VehicleId := v, StopId := stop, Timestamp := unix_ts sec\<rparr>),
           se_StopEventType = ty\<rparr>"

lemmas example_se_simps =
  example_se_def EventAttributes_zero_def whole_second_def live_run_def time_Add_def input_second_def

lemma shows_event_new [simp]: "shows_event (NewInMemoryStateStore d) k None js"
  by (simp add: shows_event_def)

lemma shows_event_set:
  assumes "\<And>i. i \<in> set js \<Longrightarrow> fst i \<le> time_Add (fst (snd j)) time_Hour"
  shows "shows_event (fst (InMemory_Set (fst (snd j)) st k (Any_StopEvent (snd (snd j))) time_Hour)) k
    (Some j) js"
  using assms by (auto simp: InMemory_lookup_set shows_event_def not_less)

lemma shows_event_delete: "shows_event (InMemory_Delete st k) k None js"
  by (simp add: shows_event_def InMemory_lookup_delete)

end
