(* ===== verification/Dwell_Event.thy ===== *)
theory Dwell_Event
  imports Stop_Input Flow_Network
begin

text \<open>
  The processor of \<open>src/processors/transit/dwell_events/dwell_event_processor.go\<close>: it remembers
  the arrival of a vehicle at a stop and, at the departure, emits the time between the two.

  \<open>DwellStopKey\<close>, \<open>NewDwellStopKey\<close>, \<open>dwell_process\<close> and \<open>dwell_doStream\<close> are the declarations of
  the code. The specification \<open>dwell_spec\<close> pairs each departure with the last arrival that
  no departure has used yet.
\<close>

section \<open>The processor\<close>

record DwellStopKey =
  dk_agencyID :: string
  dk_routeID :: string
  dk_stopID :: string
  dk_directionID :: string
  dk_vehicleID :: string

definition NewDwellStopKey :: "StopEvent option \<Rightarrow> DwellStopKey" where
  "NewDwellStopKey stopEvent =
     (let a = StopEvent_GetAttributes stopEvent in
      \<lparr>dk_agencyID = GetAgencyId a, dk_routeID = GetRouteId a, dk_stopID = GetStopId a,
       dk_directionID = GetDirectionId a, dk_vehicleID = GetVehicleId a\<rparr>)"

definition DwellStopKey_String :: "DwellStopKey \<Rightarrow> string" where
  "DwellStopKey_String k =
     dk_agencyID k @ ''-'' @ dk_routeID k @ ''-'' @ dk_stopID k @ ''-'' @ dk_directionID k @ ''-'' @
     dk_vehicleID k"

definition dwell_process ::
    "platform \<Rightarrow> 's StateStore \<Rightarrow> Time \<Rightarrow> Time \<Rightarrow> 's \<Rightarrow> StopEvent option \<Rightarrow> 's \<times> DwellTimeEvent list" where
  "dwell_process pf ss t_get t_set st event =
     (if event = None then (st, [])
      else
        let key = DwellStopKey_String (NewDwellStopKey event);
            (currentState, found) = ss_Get ss t_get st key (\<lambda>_. Any_StopEvent (Some StopEvent_zero))
        in if found \<and> StopEvent_GetStopEventType event = StopEvent_DEPARTURE then
             (case as_StopEvent currentState of
                None \<Rightarrow> (ss_Delete ss st key, [])
              | Some None \<Rightarrow> (ss_Delete ss st key, [])
              | Some (Some arrival) \<Rightarrow>
                  let attrs = StopEvent_GetAttributes event;
                      arrivalTime = AsTime pf (GetTimestamp (StopEvent_GetAttributes (Some arrival)));
                      departureTime = AsTime pf (GetTimestamp attrs);
                      dwellSeconds = elapsed_seconds (int32_out_of_range pf) departureTime arrivalTime
                  in if sint dwellSeconds < 0 then (ss_Delete ss st key, [])
                     else (ss_Delete ss st key,
                       [\<lparr>dte_Attributes = Some (EventAttributes_zero
                           \<lparr>AgencyId := GetAgencyId attrs,
                            RouteId := GetRouteId attrs,
                            StopId := GetStopId attrs,
                            DirectionId := GetDirectionId attrs,
                            VehicleId := GetVehicleId attrs,
                            Timestamp := GetTimestamp attrs,
                            TripId := GetTripId attrs,
                            ServiceDate := GetServiceDate attrs,
                            StopSequence := GetStopSequence attrs\<rparr>),
                         dte_ArrivalTime = Some (timestamppb_New pf arrivalTime),
                         dte_DepartureTime = Some (timestamppb_New pf departureTime),
                         dte_DwellTimeSeconds = dwellSeconds\<rparr>]))
           else if StopEvent_GetStopEventType event = StopEvent_ARRIVAL then
             (fst (ss_Set ss t_set st key (Any_StopEvent event) time_Hour), [])
           else (st, []))"

definition dwell_handle ::
    "platform \<Rightarrow> 's StateStore \<Rightarrow> 's \<Rightarrow> Time \<times> Time \<times> go_any \<Rightarrow> 's \<times> go_any list" where
  "dwell_handle pf ss st inp =
     (case inp of (t_get, t_set, event) \<Rightarrow>
        (case as_StopEvent event of
           None \<Rightarrow> (st, [])
         | Some vp \<Rightarrow>
             (let (st', os) = dwell_process pf ss t_get t_set st vp
              in (st', map (\<lambda>e. Any_event (Dwell_event (Some e))) os))))"

definition dwell_doStream ::
    "platform \<Rightarrow> 's StateStore \<Rightarrow> 's \<Rightarrow> (Time \<times> Time \<times> go_any) select list \<Rightarrow>
     's \<times> go_any list \<times> bool" where
  "dwell_doStream pf ss st cs = select_loop (dwell_handle pf ss) st cs"

text \<open>
  \<open>To\<close> and \<open>Via\<close>: the states the goroutines \<open>doStream\<close> and \<open>transmit\<close> can reach once the processor
  feeds a consumer, a sink or a flow, when it receives \<open>xs\<close> and its input channel is closed afterwards if \<open>closes\<close>.
\<close>

definition dwell_To ::
    "platform \<Rightarrow> 's StateStore \<Rightarrow> 's \<Rightarrow> (Time \<times> Time \<times> go_any) list \<Rightarrow> bool \<Rightarrow> ('s, (Time \<times> Time \<times> go_any), go_any) link \<Rightarrow> bool" where
  "dwell_To pf ss st xs closes l = link_run (dwell_handle pf ss) (new_link st xs closes) l"

interpretation dwell_flow: flow_processor "dwell_handle pf ss" "\<lambda>st cs. snd (dwell_doStream pf ss st cs)"
  for pf ss
  by unfold_locales (simp add: dwell_doStream_def)

lemma dwell_To_complete:
  "dwell_To pf ss st xs closes l \<Longrightarrow> at_rest (dwell_handle pf ss) l \<Longrightarrow> lk_consuming l \<Longrightarrow>
   \<exists>ys. prefix ys xs \<and> (\<not> lk_cancelled l \<longrightarrow> ys = xs) \<and> (lk_inlet l, lk_closed l) = snd (dwell_doStream pf ss st (map InRecv ys @
      (if lk_cancelled l then [CtxDone] else if closes then [InClosed] else [])))"
  unfolding dwell_To_def by (rule dwell_flow.rest_complete)

section \<open>The processor over a store that honours its contract\<close>

definition dwell_step ::
    "platform \<Rightarrow> 's StateStore \<Rightarrow> 's \<Rightarrow> se_input \<Rightarrow> 's \<times> DwellTimeEvent list" where
  "dwell_step pf ss st i = dwell_process pf ss (fst i) (fst (snd i)) st (snd (snd i))"

definition dwell_key :: "se_input \<Rightarrow> string" where
  "dwell_key i = DwellStopKey_String (NewDwellStopKey (snd (snd i)))"

text \<open>The event a departure emits when the store returned the message \<open>m\<close>.\<close>

definition dwell_emit :: "platform \<Rightarrow> go_any \<Rightarrow> StopEvent option \<Rightarrow> DwellTimeEvent list" where
  "dwell_emit pf m event =
     (case as_StopEvent m of
        Some (Some arrival) \<Rightarrow>
          (let attrs = StopEvent_GetAttributes event;
               arrivalTime = AsTime pf (GetTimestamp (se_Attributes arrival));
               departureTime = AsTime pf (GetTimestamp attrs);
               secs = elapsed_seconds (int32_out_of_range pf) departureTime arrivalTime
           in if sint secs < 0 then []
              else [\<lparr>dte_Attributes = Some (EventAttributes_zero
                       \<lparr>AgencyId := GetAgencyId attrs, VehicleId := GetVehicleId attrs,
                        RouteId := GetRouteId attrs, StopId := GetStopId attrs,
                        DirectionId := GetDirectionId attrs,
                        StopSequence := GetStopSequence attrs, TripId := GetTripId attrs,
                        ServiceDate := GetServiceDate attrs, Timestamp := GetTimestamp attrs\<rparr>),
                     dte_ArrivalTime = Some (timestamppb_New pf arrivalTime),
                     dte_DepartureTime = Some (timestamppb_New pf departureTime),
                     dte_DwellTimeSeconds = secs\<rparr>])
      | _ \<Rightarrow> [])"

context state_store
begin

lemma dwell_step_departure:
  assumes "input_type i = StopEvent_DEPARTURE"
  shows "dwell_step pf ss st i =
    (case lookup st (fst i) (dwell_key i) se_proto of
       None \<Rightarrow> (st, [])
     | Some m \<Rightarrow> (ss_Delete ss st (dwell_key i), dwell_emit pf m (snd (snd i))))"
proof -
  obtain e where "snd (snd i) = Some e" using input_type_Some assms by blast
  with assms show ?thesis
    by (simp add: dwell_step_def dwell_process_def dwell_key_def dwell_emit_def get Let_def
        case_prod_beta split: option.split)
qed

lemma dwell_step_arrival:
  assumes "input_type i = StopEvent_ARRIVAL"
  shows "dwell_step pf ss st i =
    (fst (ss_Set ss (fst (snd i)) st (dwell_key i) (Any_StopEvent (snd (snd i))) time_Hour), [])"
proof -
  obtain e where "snd (snd i) = Some e" using input_type_Some assms by blast
  with assms show ?thesis
    by (simp add: dwell_step_def dwell_process_def dwell_key_def Let_def case_prod_beta)
qed

lemma dwell_step_other:
  assumes "input_type i \<noteq> StopEvent_ARRIVAL" and "input_type i \<noteq> StopEvent_DEPARTURE"
  shows "dwell_step pf ss st i = (st, [])"
  using assms by (simp add: dwell_step_def dwell_process_def Let_def case_prod_beta)

lemmas dwell_step_simps = dwell_step_arrival dwell_step_departure dwell_step_other

end

sublocale state_store \<subseteq> dwell_keyed: keyed_step "dwell_step pf ss" dwell_key
    "\<lambda>s k t. lookup s t k se_proto" for pf
proof
  fix k :: string and i :: se_input and s :: 's
  assume "k \<noteq> dwell_key i"
  then show "(\<lambda>t. lookup (fst (dwell_step pf ss s i)) t k se_proto) = (\<lambda>t. lookup s t k se_proto)"
    by (cases rule: input_type_cases [of i])
      (auto simp: dwell_step_simps lookup_set lookup_delete split: option.split)
next
  fix s t :: 's and i :: se_input
  assume "(\<lambda>u. lookup s u (dwell_key i) se_proto) = (\<lambda>u. lookup t u (dwell_key i) se_proto)"
  then have v: "\<And>u. lookup s u (dwell_key i) se_proto = lookup t u (dwell_key i) se_proto"
    by (simp add: fun_eq_iff)
  show "(\<lambda>u. lookup (fst (dwell_step pf ss s i)) u (dwell_key i) se_proto) =
      (\<lambda>u. lookup (fst (dwell_step pf ss t i)) u (dwell_key i) se_proto)"
    using v by (cases rule: input_type_cases [of i])
      (auto simp: dwell_step_simps lookup_set lookup_delete split: option.split)
  show "snd (dwell_step pf ss s i) = snd (dwell_step pf ss t i)"
    using v by (cases rule: input_type_cases [of i])
      (auto simp: dwell_step_simps split: option.split)
qed

section \<open>The specification\<close>

text \<open>
  Over the types and Unix seconds of the events of one key: the seconds of the emitted dwell
  events, given the second of the open arrival, if there is one.
\<close>

fun dwell_spec :: "int option \<Rightarrow> (EventType \<times> int) list \<Rightarrow> int list" where
  "dwell_spec arrival [] = []"
| "dwell_spec arrival ((ty, t) # es) =
     (if ty = StopEvent_ARRIVAL then dwell_spec (Some t) es
      else if ty = StopEvent_DEPARTURE then
        (case arrival of
           None \<Rightarrow> dwell_spec None es
         | Some a \<Rightarrow> (if t < a then [] else [t - a]) @ dwell_spec None es)
      else dwell_spec arrival es)"

definition dwell_obs :: "se_input \<Rightarrow> EventType \<times> int" where
  "dwell_obs i = (input_type i, input_second i)"

abbreviation dwell_secs :: "DwellTimeEvent \<Rightarrow> int" where
  "dwell_secs e \<equiv> sint (dte_DwellTimeSeconds e)"

lemma dwell_emit_secs:
  assumes "timestamppb_spec pf" and "whole_second i" and "whole_second j"
    and "input_type i = StopEvent_ARRIVAL"
  shows "map dwell_secs (dwell_emit pf (Any_StopEvent (snd (snd i))) (snd (snd j))) =
    (if input_second j < input_second i then [] else [input_second j - input_second i])"
proof -
  obtain e where e: "snd (snd i) = Some e" using input_type_Some(1) [OF assms(4)] by blast
  have "input_attrs i = se_Attributes e" by (simp add: e)
  then show ?thesis
    using whole_second_elapsed [OF assms(1-3)] by (simp add: e dwell_emit_def Let_def)
qed

lemma dwell_run_refines:
  assumes "timestamppb_spec pf"
    and "list_all (\<lambda>i. dwell_key i = k \<and> whole_second i) is" and "live_run is"
    and "arrival = None \<or> (\<exists>i. arrival = Some i \<and> whole_second i \<and> input_type i = StopEvent_ARRIVAL)"
    and "shows_event st k arrival is"
  shows "map dwell_secs (outputs (dwell_step pf InMemory_ops) st is) =
    dwell_spec (map_option input_second arrival) (map dwell_obs is)"
  using assms(2-)
proof (induction "is" arbitrary: st arrival)
  case Nil
  then show ?case by simp
next
  case (Cons j js)
  let ?st' = "fst (dwell_step pf InMemory_ops st j)"
  from Cons.prems have j: "dwell_key j = k" "whole_second j"
    and js: "list_all (\<lambda>i. dwell_key i = k \<and> whole_second i) js" "live_run js"
    and horizon: "\<And>i. i \<in> set js \<Longrightarrow> fst i \<le> time_Add (fst (snd j)) time_Hour"
    and l: "InMemory_lookup st (fst j) k se_proto = map_option (\<lambda>i. Any_StopEvent (snd (snd i))) arrival"
    and rest: "shows_event st k arrival js"
    by (simp_all add: live_run_def shows_event_def)
  have obs: "dwell_obs j = (input_type j, input_second j)" by (simp add: dwell_obs_def)
  show ?case
  proof (cases rule: input_type_cases [of j])
    case arrival
    have "shows_event ?st' k (Some j) js"
      using arrival j horizon
      by (simp add: in_memory.dwell_step_arrival shows_event_set)
    then have "map dwell_secs (outputs (dwell_step pf InMemory_ops) ?st' js) =
        dwell_spec (Some (input_second j)) (map dwell_obs js)"
      using Cons.IH [of "Some j" ?st'] js arrival j by simp
    then show ?thesis
      unfolding outputs_Cons using arrival
      by (simp add: in_memory.dwell_step_arrival obs del: StopEvent_GetStopEventType_def)
  next
    case departure
    show ?thesis
    proof (cases arrival)
      case None
      then have "dwell_step pf InMemory_ops st j = (st, [])"
        using departure l j by (simp add: in_memory.dwell_step_departure)
      then show ?thesis
        unfolding outputs_Cons using Cons.IH [of None st] js rest None departure
        by (simp add: obs del: StopEvent_GetStopEventType_def)
    next
      case (Some i)
      then have i: "whole_second i" "input_type i = StopEvent_ARRIVAL"
        using Cons.prems(3) by auto
      have step: "dwell_step pf InMemory_ops st j =
          (InMemory_Delete st k, dwell_emit pf (Any_StopEvent (snd (snd i))) (snd (snd j)))"
        using departure l j Some by (simp add: in_memory.dwell_step_departure)
      have "shows_event (InMemory_Delete st k) k None js"
        by (rule shows_event_delete)
      then have "map dwell_secs (outputs (dwell_step pf InMemory_ops) (InMemory_Delete st k) js) =
          dwell_spec None (map dwell_obs js)"
        using Cons.IH [of None "InMemory_Delete st k"] js by simp
      then show ?thesis
        unfolding outputs_Cons using dwell_emit_secs [OF assms(1) i(1) j(2) i(2)] departure Some
        by (simp add: step obs del: StopEvent_GetStopEventType_def)
    qed
  next
    case other
    then have "dwell_step pf InMemory_ops st j = (st, [])"
      by (rule in_memory.dwell_step_other)
    then show ?thesis
      unfolding outputs_Cons using Cons.IH [of arrival st] Cons.prems(3) js rest other
      by (simp add: obs del: StopEvent_GetStopEventType_def)
  qed
qed

section \<open>Properties\<close>

abbreviation dwell_emitted_for ::
    "platform \<Rightarrow> InMemoryStateStore \<Rightarrow> string \<Rightarrow> se_input list \<Rightarrow> DwellTimeEvent list" where
  "dwell_emitted_for pf st k is \<equiv> emitted_by (dwell_step pf InMemory_ops) dwell_key k st is"

lemma dwell_count:
  "list_all (\<lambda>i. dwell_key i = k) is \<Longrightarrow>
   length (outputs (dwell_step pf InMemory_ops) st is) \<le>
     of_bool (ims_states st k \<noteq> None) + length (filter (\<lambda>i. input_type i = StopEvent_ARRIVAL) is)"
proof (induction "is" arbitrary: st)
  case Nil
  then show ?case by simp
next
  case (Cons j js)
  let ?st' = "fst (dwell_step pf InMemory_ops st j)"
  have IH: "length (outputs (dwell_step pf InMemory_ops) ?st' js) \<le>
      of_bool (ims_states ?st' k \<noteq> None) + length (filter (\<lambda>i. input_type i = StopEvent_ARRIVAL) js)"
    using Cons by simp
  have j: "dwell_key j = k" using Cons.prems by simp
  have emit: "length (dwell_emit pf m e) \<le> 1" for m e
    by (auto simp: dwell_emit_def Let_def split: option.split)
  have "length (snd (dwell_step pf InMemory_ops st j)) + of_bool (ims_states ?st' k \<noteq> None) \<le>
      of_bool (ims_states st k \<noteq> None) + (of_bool (input_type j = StopEvent_ARRIVAL) :: nat)"
  proof (cases rule: input_type_cases [of j])
    case arrival
    then show ?thesis by (simp add: in_memory.dwell_step_arrival)
  next
    case departure
    then show ?thesis
      using emit j
      by (auto simp: in_memory.dwell_step_departure InMemory_lookup_def InMemory_Delete_def
          split: option.split if_splits)
  next
    case other
    then show ?thesis by (simp add: in_memory.dwell_step_other del: StopEvent_GetStopEventType_def)
  qed
  with IH show ?case unfolding outputs_Cons by (auto simp del: StopEvent_GetStopEventType_def)
qed

lemma dwell_stream_refines:
  assumes "timestamppb_spec pf"
    and "list_all whole_second (filter (\<lambda>i. dwell_key i = k) is)"
    and "live_run (filter (\<lambda>i. dwell_key i = k) is)"
  shows "map dwell_secs (dwell_emitted_for pf (NewInMemoryStateStore d) k is) =
    dwell_spec None (map dwell_obs (filter (\<lambda>i. dwell_key i = k) is))"
  unfolding in_memory.dwell_keyed.isolation
  using dwell_run_refines [OF assms(1), of k "filter (\<lambda>i. dwell_key i = k) is" None] assms(2,3)
  by (simp add: list_all_iff)


definition dwell_example :: "se_input list" where
  "dwell_example =
     [(0, 1, example_se StopEvent_ARRIVAL ''bus'' ''A'' 100),
      (2, 3, example_se StopEvent_ARRIVAL ''tram'' ''A'' 105),
      (4, 5, example_se StopEvent_DEPARTURE ''bus'' ''A'' 130),
      (6, 7, example_se StopEvent_DEPARTURE ''bus'' ''A'' 140)]"


text \<open>
  An arrival is measured at most once: in any run from an empty store, whatever the
  timestamps and the clock, the number of dwell events emitted for a key never exceeds the
  number of arrivals received for that key.
\<close>

lemma dwell_at_most_one_per_arrival:
  "length (dwell_emitted_for pf (NewInMemoryStateStore d) k is) \<le>
   length (filter (\<lambda>i. dwell_key i = k \<and> input_type i = StopEvent_ARRIVAL) is)"
  unfolding in_memory.dwell_keyed.isolation
  using dwell_count [of k "filter (\<lambda>i. dwell_key i = k) is" pf "NewInMemoryStateStore d"]
  by (simp add: list_all_iff NewInMemoryStateStore_def conj_commute)

lemma dwell_handle_nonneg:
  assumes "Any_event (Dwell_event (Some e)) \<in> set (snd (dwell_handle pf ss st x))"
  shows "0 \<le> dwell_secs e"
  using assms
  by (auto simp: dwell_handle_def dwell_process_def Let_def case_prod_beta
      split: option.splits if_splits prod.splits)

text \<open>
  A dwell time is never negative, whatever arrives on the input channel, even
  where the float conversion is implementation-dependent.
\<close>

lemma dwell_nonneg:
  assumes "Any_event (Dwell_event (Some e)) \<in> set (fst (snd (dwell_doStream pf ss st cs)))"
  shows "0 \<le> sint (dte_DwellTimeSeconds e)"
proof -
  have "case y of Any_event (Dwell_event (Some e)) \<Rightarrow> 0 \<le> dwell_secs e | _ \<Rightarrow> True"
    if "y \<in> set (snd (dwell_handle pf ss s x))" for s x y
    using that dwell_handle_nonneg [of _ pf ss s x]
    by (auto split: go_any.split event.split option.split)
  from select_loop_outputs_all [where h = "dwell_handle pf ss", OF this] assms
  show ?thesis unfolding dwell_doStream_def by fastforce
qed

text \<open>
  The event of an arrival followed by the departure with the same key: it carries
  the departure's attributes, both timestamps as they were received, and the difference of the
  two, and the arrival is gone from the store.
\<close>

lemma dwell_arrival_departure:
  assumes "timestamppb_spec pf"
    and "input_type i = StopEvent_ARRIVAL" and "input_type j = StopEvent_DEPARTURE"
    and "dwell_key i = dwell_key j" and "whole_second i" and "whole_second j"
    and "input_second i \<le> input_second j" and "fst j \<le> time_Add (fst (snd i)) time_Hour"
  shows "\<exists>e b. snd (dwell_step pf InMemory_ops (fst (dwell_step pf InMemory_ops st i)) j) = [e] \<and>
    dte_ArrivalTime e = GetTimestamp (input_attrs i) \<and>
    dte_DepartureTime e = GetTimestamp (input_attrs j) \<and>
    sint (dte_DwellTimeSeconds e) = input_second j - input_second i \<and>
    dte_Attributes e = Some b \<and> VehicleId b = GetVehicleId (input_attrs j) \<and>
    StopId b = GetStopId (input_attrs j) \<and> RouteId b = GetRouteId (input_attrs j) \<and>
    TripId b = GetTripId (input_attrs j) \<and> Timestamp b = GetTimestamp (input_attrs j) \<and>
    fst (InMemory_Get t (fst (dwell_step pf InMemory_ops (fst (dwell_step pf InMemory_ops st i)) j))
      (dwell_key j) new) = new ()"
proof -
  let ?st = "fst (dwell_step pf InMemory_ops st i)"
  obtain a where a: "snd (snd i) = Some a" using input_type_Some(1) [OF assms(2)] by blast
  obtain s where s: "GetTimestamp (input_attrs i) = unix_ts s"
    using whole_second_unix_ts [OF assms(5)] by blast
  obtain r where r: "GetTimestamp (input_attrs j) = unix_ts r"
    using whole_second_unix_ts [OF assms(6)] by blast
  have "InMemory_lookup ?st (fst j) (dwell_key j) se_proto = Some (Any_StopEvent (snd (snd i)))"
    using assms(2,4,8) by (simp add: in_memory.dwell_step_arrival InMemory_lookup_set)
  then have step: "dwell_step pf InMemory_ops ?st j =
      (InMemory_Delete ?st (dwell_key j), dwell_emit pf (Any_StopEvent (snd (snd i))) (snd (snd j)))"
    using assms(3) by (simp add: in_memory.dwell_step_departure)
  have "GetTimestamp (se_Attributes a) = unix_ts s" using s a by simp
  moreover have "sint (elapsed_seconds oor (AsTime pf (unix_ts r)) (AsTime pf (unix_ts s))) =
      input_second j - input_second i" for oor
    using whole_second_elapsed [OF assms(1,5,6)] unfolding s r .
  ultimately show ?thesis
    unfolding step using assms(1,7) r
    by (simp add: dwell_emit_def a s timestamppb_roundtrip Let_def InMemory_Delete_def
        InMemory_Get_def del: GetTimestamp_def)
qed

text \<open>
  The stream loop of the dwell processor: it runs \<open>process\<close> on the stop events it
  receives, skips every other value, sends the results in order and closes its output
  channel when the input channel is closed.
\<close>

lemma dwell_doStream_decodes:
  "dwell_doStream pf ss st (map InRecv xs @ InClosed # cs) =
     (final_state (dwell_step pf ss) st (List.map_filter stop_decode_input xs),
      map (\<lambda>e. Any_event (Dwell_event (Some e)))
        (outputs (dwell_step pf ss) st (List.map_filter stop_decode_input xs)), True)"
  unfolding dwell_doStream_def
  by (rule decoded_loop) (auto simp: dwell_handle_def stop_decode_input_def dwell_step_def
      case_prod_beta Let_def split: option.split)

section \<open>The key\<close>

text \<open>
  Two keys with the same string are the same key, when their first four
  components contain no dash.
\<close>

lemma DwellStopKey_String_inj:
  assumes "DwellStopKey_String k = DwellStopKey_String k'"
    and "dash_free (dk_agencyID k)" "dash_free (dk_routeID k)" "dash_free (dk_stopID k)"
      "dash_free (dk_directionID k)"
    and "dash_free (dk_agencyID k')" "dash_free (dk_routeID k')" "dash_free (dk_stopID k')"
      "dash_free (dk_directionID k')"
  shows "k = k'"
  using assms by (cases k; cases k') (simp add: DwellStopKey_String_def dash_split_iff)

end
