(* ===== verification/Headway_Event.thy ===== *)
theory Headway_Event
  imports Stop_Input Flow_Network
begin

text \<open>
  The processor of \<open>src/processors/transit/headway_events/headway_event_processor.go\<close>: the time
  between consecutive departures of different vehicles from the same stop, route and direction.

  \<open>headwayStopKey\<close>, \<open>headway_process\<close> and \<open>headway_doStream\<close> are the declarations of the code.
  The specification \<open>headway_spec\<close> works on the (vehicle, second) pairs of the departures of
  one key; \<open>headway_last\<close> is the departure it remembers at the end.
\<close>

section \<open>The processor\<close>

record headwayStopKey =
  hk_routeID :: string
  hk_stopID :: string
  hk_directionID :: string

definition headwayStopKey_String :: "headwayStopKey \<Rightarrow> string" where
  "headwayStopKey_String k = hk_routeID k @ ''-'' @ hk_directionID k @ ''-'' @ hk_stopID k"

definition headway_process ::
    "platform \<Rightarrow> 's StateStore \<Rightarrow> Time \<Rightarrow> Time \<Rightarrow> 's \<Rightarrow> StopEvent option \<Rightarrow> 's \<times> HeadwayTimeEvent list" where
  "headway_process pf ss t_get t_set st event =
     (if event = None \<or> StopEvent_GetStopEventType event \<noteq> StopEvent_DEPARTURE then (st, [])
      else
        let attrs = StopEvent_GetAttributes event;
            key = headwayStopKey_String
              \<lparr>hk_routeID = GetRouteId attrs, hk_stopID = GetStopId attrs,
               hk_directionID = GetDirectionId attrs\<rparr>;
            (state, found) = ss_Get ss t_get st key (\<lambda>_. Any_StopEvent (Some StopEvent_zero));
            updated = fst (ss_Set ss t_set st key (Any_StopEvent event) time_Hour)
        in case as_StopEvent state of
             None \<Rightarrow> (updated, [])
           | Some None \<Rightarrow> (updated, [])
           | Some (Some stopEvent) \<Rightarrow>
               if \<not> found then (updated, [])
               else
                 let prevAttrs = StopEvent_GetAttributes (Some stopEvent)
                 in if GetVehicleId prevAttrs = GetVehicleId attrs then (st, [])
                    else
                      let currentTime = AsTime pf (GetTimestamp attrs);
                          lastTime = AsTime pf (GetTimestamp prevAttrs);
                          headwaySeconds =
                            elapsed_seconds (int32_out_of_range pf) currentTime lastTime
                      in if sint headwaySeconds \<le> 0 then (st, [])
                         else (updated,
                           [\<lparr>hte_Attributes = Some (EventAttributes_zero
                               \<lparr>AgencyId := GetAgencyId attrs,
                                RouteId := GetRouteId attrs,
                                StopId := GetStopId attrs,
                                DirectionId := GetDirectionId attrs,
                                ServiceDate := GetServiceDate attrs,
                                Timestamp := GetTimestamp attrs,
                                VehicleId := GetVehicleId attrs,
                                TripId := GetTripId attrs,
                                StopSequence := GetStopSequence attrs\<rparr>),
                             hte_LeadingVehicleId = GetVehicleId prevAttrs,
                             hte_FollowingVehicleId = GetVehicleId attrs,
                             hte_HeadwaySeconds = headwaySeconds\<rparr>]))"

definition headway_handle ::
    "platform \<Rightarrow> 's StateStore \<Rightarrow> 's \<Rightarrow> Time \<times> Time \<times> go_any \<Rightarrow> 's \<times> go_any list" where
  "headway_handle pf ss st inp =
     (case inp of (t_get, t_set, event) \<Rightarrow>
        (case as_StopEvent event of
           None \<Rightarrow> (st, [])
         | Some stopEvent \<Rightarrow>
             (let (st', os) = headway_process pf ss t_get t_set st stopEvent
              in (st', map (\<lambda>e. Any_event (Headway_event (Some e))) os))))"

definition headway_doStream ::
    "platform \<Rightarrow> 's StateStore \<Rightarrow> 's \<Rightarrow> (Time \<times> Time \<times> go_any) select list \<Rightarrow>
     's \<times> go_any list \<times> bool" where
  "headway_doStream pf ss st cs = select_loop (headway_handle pf ss) st cs"

text \<open>
  \<open>To\<close> and \<open>Via\<close>: the states the goroutines \<open>doStream\<close> and \<open>transmit\<close> can reach once the processor
  feeds a consumer, a sink or a flow, when it receives \<open>xs\<close> and its input channel is closed afterwards if \<open>closes\<close>.
\<close>

definition headway_To ::
    "platform \<Rightarrow> 's StateStore \<Rightarrow> 's \<Rightarrow> (Time \<times> Time \<times> go_any) list \<Rightarrow> bool \<Rightarrow> ('s, (Time \<times> Time \<times> go_any), go_any) link \<Rightarrow> bool" where
  "headway_To pf ss st xs closes l = link_run (headway_handle pf ss) (new_link st xs closes) l"

interpretation headway_flow: flow_processor "headway_handle pf ss" "\<lambda>st cs. snd (headway_doStream pf ss st cs)"
  for pf ss
  by unfold_locales (simp add: headway_doStream_def)

lemma headway_To_complete:
  "headway_To pf ss st xs closes l \<Longrightarrow> at_rest (headway_handle pf ss) l \<Longrightarrow> lk_consuming l \<Longrightarrow>
   \<exists>ys. prefix ys xs \<and> (\<not> lk_cancelled l \<longrightarrow> ys = xs) \<and> (lk_inlet l, lk_closed l) = snd (headway_doStream pf ss st (map InRecv ys @
      (if lk_cancelled l then [CtxDone] else if closes then [InClosed] else [])))"
  unfolding headway_To_def by (rule headway_flow.rest_complete)

section \<open>The processor over a store that honours its contract\<close>

definition headway_step ::
    "platform \<Rightarrow> 's StateStore \<Rightarrow> 's \<Rightarrow> se_input \<Rightarrow> 's \<times> HeadwayTimeEvent list" where
  "headway_step pf ss st i = headway_process pf ss (fst i) (fst (snd i)) st (snd (snd i))"

definition headway_key :: "se_input \<Rightarrow> string" where
  "headway_key i = headwayStopKey_String
     \<lparr>hk_routeID = GetRouteId (input_attrs i), hk_stopID = GetStopId (input_attrs i),
      hk_directionID = GetDirectionId (input_attrs i)\<rparr>"

text \<open>The event for a departure with attributes \<open>a\<close> after one with attributes \<open>p\<close>.\<close>

definition headway_emit ::
    "platform \<Rightarrow> EventAttributes option \<Rightarrow> EventAttributes option \<Rightarrow> HeadwayTimeEvent option" where
  "headway_emit pf p a =
     (let secs = elapsed_seconds (int32_out_of_range pf) (AsTime pf (GetTimestamp a))
            (AsTime pf (GetTimestamp p))
      in if GetVehicleId p = GetVehicleId a \<or> sint secs \<le> 0 then None
         else Some
           \<lparr>hte_Attributes = Some (EventAttributes_zero
              \<lparr>AgencyId := GetAgencyId a, VehicleId := GetVehicleId a, RouteId := GetRouteId a,
               StopId := GetStopId a, DirectionId := GetDirectionId a,
               StopSequence := GetStopSequence a, TripId := GetTripId a,
               ServiceDate := GetServiceDate a, Timestamp := GetTimestamp a\<rparr>),
            hte_LeadingVehicleId = GetVehicleId p, hte_FollowingVehicleId = GetVehicleId a,
            hte_HeadwaySeconds = secs\<rparr>)"

context state_store
begin

lemma headway_step_skip:
  "input_type i \<noteq> StopEvent_DEPARTURE \<Longrightarrow> headway_step pf ss st i = (st, [])"
  by (simp add: headway_step_def headway_process_def)

lemma headway_step_departure:
  assumes "input_type i = StopEvent_DEPARTURE"
  shows "headway_step pf ss st i =
    (let updated = fst (ss_Set ss (fst (snd i)) st (headway_key i) (Any_StopEvent (snd (snd i))) time_Hour)
     in case lookup st (fst i) (headway_key i) se_proto of
          Some (Any_event (Stop_event (Some prev))) \<Rightarrow>
            (case headway_emit pf (se_Attributes prev) (input_attrs i) of
               None \<Rightarrow> (st, []) | Some h \<Rightarrow> (updated, [h]))
        | _ \<Rightarrow> (updated, []))"
proof -
  obtain e where e: "snd (snd i) = Some e" using input_type_Some(2) [OF assms] by blast
  show ?thesis
  proof (cases "lookup st (fst i) (headway_key i) se_proto")
    case None
    with e assms show ?thesis
      by (simp add: headway_step_def headway_process_def headway_key_def get Let_def case_prod_beta)
  next
    case (Some m)
    with e assms show ?thesis
      by (cases m) (simp_all add: headway_step_def headway_process_def headway_key_def headway_emit_def
          get Let_def case_prod_beta as_StopEvent_def split: option.split event.split)
  qed
qed

end

sublocale state_store \<subseteq> headway_keyed: keyed_step "headway_step pf ss" headway_key
    "\<lambda>s k t. lookup s t k se_proto" for pf
proof
  fix k :: string and i :: se_input and s :: 's
  assume "k \<noteq> headway_key i"
  then show "(\<lambda>t. lookup (fst (headway_step pf ss s i)) t k se_proto) = (\<lambda>t. lookup s t k se_proto)"
    by (cases "input_type i = StopEvent_DEPARTURE")
      (auto simp: headway_step_skip headway_step_departure lookup_set Let_def
        split: option.split go_any.split event.split simp del: StopEvent_GetStopEventType_def)
next
  fix s t :: 's and i :: se_input
  assume "(\<lambda>u. lookup s u (headway_key i) se_proto) = (\<lambda>u. lookup t u (headway_key i) se_proto)"
  then have v: "\<And>u. lookup s u (headway_key i) se_proto = lookup t u (headway_key i) se_proto"
    by (simp add: fun_eq_iff)
  show "(\<lambda>u. lookup (fst (headway_step pf ss s i)) u (headway_key i) se_proto) =
      (\<lambda>u. lookup (fst (headway_step pf ss t i)) u (headway_key i) se_proto)"
    using v by (cases "input_type i = StopEvent_DEPARTURE")
      (auto simp: headway_step_skip headway_step_departure lookup_set Let_def
        split: option.split go_any.split event.split simp del: StopEvent_GetStopEventType_def)
  show "snd (headway_step pf ss s i) = snd (headway_step pf ss t i)"
    using v by (cases "input_type i = StopEvent_DEPARTURE")
      (auto simp: headway_step_skip headway_step_departure Let_def
        split: option.split go_any.split event.split simp del: StopEvent_GetStopEventType_def)
qed

section \<open>The specification\<close>

text \<open>The departures of one key as (vehicle, second); the result is (leading, following, seconds).\<close>

fun headway_spec :: "(string \<times> int) option \<Rightarrow> (string \<times> int) list \<Rightarrow> (string \<times> string \<times> int) list" where
  "headway_spec prev [] = []"
| "headway_spec None (d # ds) = headway_spec (Some d) ds"
| "headway_spec (Some (w, s)) ((v, t) # ds) =
     (if v = w \<or> t \<le> s then headway_spec (Some (w, s)) ds
      else (w, v, t - s) # headway_spec (Some (v, t)) ds)"

fun headway_last :: "(string \<times> int) option \<Rightarrow> (string \<times> int) list \<Rightarrow> (string \<times> int) option" where
  "headway_last prev [] = prev"
| "headway_last None (d # ds) = headway_last (Some d) ds"
| "headway_last (Some (w, s)) ((v, t) # ds) =
     (if v = w \<or> t \<le> s then headway_last (Some (w, s)) ds else headway_last (Some (v, t)) ds)"

text \<open>The headways tile the time from the first departure to the last one counted.\<close>

lemma headway_spec_sum:
  "\<exists>v t. headway_last (Some d) ds = Some (v, t) \<and>
     sum_list (map (snd \<circ> snd) (headway_spec (Some d) ds)) = t - snd d"
proof (induction ds arbitrary: d)
  case Nil
  then show ?case by (cases d) simp
next
  case (Cons e ds)
  obtain w s v t where d: "d = (w, s)" "e = (v, t)" by (cases d; cases e)
  show ?case
  proof (cases "v = w \<or> t \<le> s")
    case True
    then show ?thesis using Cons.IH [of d] by (simp add: d)
  next
    case False
    then show ?thesis using Cons.IH [of e] by (auto simp: d)
  qed
qed

definition headway_obs :: "se_input \<Rightarrow> string \<times> int" where
  "headway_obs i = (GetVehicleId (input_attrs i), input_second i)"

definition headway_sig :: "HeadwayTimeEvent \<Rightarrow> string \<times> string \<times> int" where
  "headway_sig h = (hte_LeadingVehicleId h, hte_FollowingVehicleId h, sint (hte_HeadwaySeconds h))"

lemma headway_emit_sig:
  assumes "timestamppb_spec pf" and "whole_second i" and "whole_second j"
  shows "map_option headway_sig (headway_emit pf (input_attrs i) (input_attrs j)) =
    (let (w, s) = headway_obs i; (v, t) = headway_obs j
     in if v = w \<or> t \<le> s then None else Some (w, v, t - s))"
  using whole_second_elapsed [OF assms, of "int32_out_of_range pf"]
  by (auto simp: headway_emit_def headway_obs_def headway_sig_def Let_def)

lemma headway_run_refines:
  assumes "timestamppb_spec pf"
    and "list_all (\<lambda>i. headway_key i = k \<and> whole_second i) is" and "live_run is"
    and "stored = None \<or> (\<exists>i. stored = Some i \<and> whole_second i \<and> is_departure i)"
    and "shows_event st k stored is"
  shows "map headway_sig (outputs (headway_step pf InMemory_ops) st is) =
    headway_spec (map_option headway_obs stored) (map headway_obs (filter is_departure is))"
  using assms(2-)
proof (induction "is" arbitrary: st stored)
  case Nil
  then show ?case by simp
next
  case (Cons j js)
  let ?step = "headway_step pf InMemory_ops"
  let ?upd = "fst (InMemory_Set (fst (snd j)) st k (Any_StopEvent (snd (snd j))) time_Hour)"
  from Cons.prems have j: "headway_key j = k" "whole_second j"
    and js: "list_all (\<lambda>i. headway_key i = k \<and> whole_second i) js" "live_run js"
    and horizon: "\<And>i. i \<in> set js \<Longrightarrow> fst i \<le> time_Add (fst (snd j)) time_Hour"
    and l: "InMemory_lookup st (fst j) k se_proto = map_option (\<lambda>i. Any_StopEvent (snd (snd i))) stored"
    and rest: "shows_event st k stored js"
    by (simp_all add: live_run_def shows_event_def)
  have skip: ?case if "?step st j = (st, [])"
    "headway_spec (map_option headway_obs stored) (map headway_obs (filter is_departure (j # js))) =
     headway_spec (map_option headway_obs stored) (map headway_obs (filter is_departure js))"
    using Cons.IH [of stored st] js rest Cons.prems(3) that
    by (simp only: outputs_Cons fst_conv snd_conv append_Nil)
  show ?case
  proof (cases "is_departure j")
    case False
    then show ?thesis
      by (intro skip in_memory.headway_step_skip) (simp_all del: StopEvent_GetStopEventType_def)
  next
    case True
    have "shows_event ?upd k (Some j) js"
      using horizon by (rule shows_event_set)
    then have IH: "map headway_sig (outputs ?step ?upd js) =
        headway_spec (Some (headway_obs j)) (map headway_obs (filter is_departure js))"
      using Cons.IH [of "Some j" ?upd] js True j by simp
    show ?thesis
    proof (cases stored)
      case None
      then have "?step st j = (?upd, [])"
        using True l j by (simp add: in_memory.headway_step_departure)
      with IH show ?thesis
        unfolding outputs_Cons using None True by (simp del: StopEvent_GetStopEventType_def)
    next
      case (Some i)
      then have i: "whole_second i" "is_departure i" using Cons.prems(3) by auto
      obtain e where e: "snd (snd i) = Some e" using input_type_Some(2) [OF i(2)] by blast
      have step: "?step st j = (case headway_emit pf (input_attrs i) (input_attrs j) of
          None \<Rightarrow> (st, []) | Some h \<Rightarrow> (?upd, [h]))"
        using True l j Some e by (simp add: in_memory.headway_step_departure split: option.split)
      note sig = headway_emit_sig [OF assms(1) i(1) j(2)]
      obtain w s v t where obs: "headway_obs i = (w, s)" "headway_obs j = (v, t)"
        by (cases "headway_obs i"; cases "headway_obs j")
      show ?thesis
      proof (cases "headway_emit pf (input_attrs i) (input_attrs j)")
        case None
        then have "v = w \<or> t \<le> s" using sig obs by (simp split: if_splits)
        then show ?thesis
          using None step obs Some True by (intro skip) (simp_all del: StopEvent_GetStopEventType_def)
      next
        case (Some h)
        then have "headway_sig h = (w, v, t - s)" "\<not> (v = w \<or> t \<le> s)"
          using sig obs by (auto split: if_splits)
        then show ?thesis
          unfolding outputs_Cons using Some step obs IH True \<open>stored = Some i\<close>
          by (simp del: StopEvent_GetStopEventType_def)
      qed
    qed
  qed
qed

section \<open>Properties\<close>

abbreviation headway_emitted_for ::
    "platform \<Rightarrow> InMemoryStateStore \<Rightarrow> string \<Rightarrow> se_input list \<Rightarrow> HeadwayTimeEvent list" where
  "headway_emitted_for pf st k is \<equiv> emitted_by (headway_step pf InMemory_ops) headway_key k st is"

abbreviation departures_of :: "string \<Rightarrow> se_input list \<Rightarrow> (string \<times> int) list" where
  "departures_of k is \<equiv> map headway_obs (filter (\<lambda>i. headway_key i = k \<and> is_departure i) is)"

lemma headway_stream_refines:
  assumes "timestamppb_spec pf"
    and "list_all whole_second (filter (\<lambda>i. headway_key i = k) is)"
    and "live_run (filter (\<lambda>i. headway_key i = k) is)"
  shows "map headway_sig (headway_emitted_for pf (NewInMemoryStateStore d) k is) =
    headway_spec None (departures_of k is)"
  unfolding in_memory.headway_keyed.isolation
  using headway_run_refines [OF assms(1), of k "filter (\<lambda>i. headway_key i = k) is" None] assms(2,3)
  by (simp add: list_all_iff conj_commute del: StopEvent_GetStopEventType_def)

definition headway_example :: "se_input list" where
  "headway_example =
     [(0, 1, example_se StopEvent_DEPARTURE ''a'' ''A'' 100),
      (2, 3, example_se StopEvent_ARRIVAL ''b'' ''A'' 150),
      (4, 5, example_se StopEvent_DEPARTURE ''b'' ''A'' 400),
      (6, 7, example_se StopEvent_DEPARTURE ''b'' ''A'' 410),
      (8, 9, example_se StopEvent_DEPARTURE ''z'' ''Z'' 420),
      (10, 11, example_se StopEvent_DEPARTURE ''c'' ''A'' 700)]"

lemmas headway_example_simps =
  headway_example_def example_se_simps headway_key_def headwayStopKey_String_def headway_obs_def



text \<open>
  Headways tile the observed time: the headways emitted for a key add up to the
  time from the first departure to the last one that was counted, so no interval is counted twice
  and none is lost.
\<close>

lemma headway_sum_telescopes:
  assumes "timestamppb_spec pf"
    and "list_all whole_second (filter (\<lambda>i. headway_key i = k) is)"
    and "live_run (filter (\<lambda>i. headway_key i = k) is)"
    and "departures_of k is = (v, t) # ds"
  shows "\<exists>w s. headway_last None (departures_of k is) = Some (w, s) \<and>
    sum_list (map (\<lambda>h. sint (hte_HeadwaySeconds h))
      (headway_emitted_for pf (NewInMemoryStateStore d) k is)) = s - t"
proof -
  have eq: "map (\<lambda>h. sint (hte_HeadwaySeconds h)) hs = map (snd \<circ> snd) (map headway_sig hs)" for hs
    by (simp add: headway_sig_def)
  show ?thesis
    unfolding eq headway_stream_refines [OF assms(1-3)] assms(4)
    using headway_spec_sum [of "(v, t)" ds] by simp
qed

lemma headway_handle_sound:
  assumes "Any_event (Headway_event (Some h)) \<in> set (snd (headway_handle pf ss st x))"
  shows "0 < sint (hte_HeadwaySeconds h) \<and> hte_LeadingVehicleId h \<noteq> hte_FollowingVehicleId h \<and>
    GetVehicleId (hte_Attributes h) = hte_FollowingVehicleId h"
  using assms
  by (auto simp: headway_handle_def headway_process_def Let_def case_prod_beta
      split: option.splits if_splits prod.splits)

text \<open>
  A headway is positive and between two different vehicles, and it is
  attributed to the vehicle that follows, whatever arrives on the input channel.
\<close>

lemma headway_positive:
  assumes "Any_event (Headway_event (Some h)) \<in> set (fst (snd (headway_doStream pf ss st cs)))"
  shows "0 < sint (hte_HeadwaySeconds h) \<and> hte_LeadingVehicleId h \<noteq> hte_FollowingVehicleId h \<and>
    GetVehicleId (hte_Attributes h) = hte_FollowingVehicleId h"
proof -
  let ?P = "\<lambda>y. case y of Any_event (Headway_event (Some h)) \<Rightarrow> 0 < sint (hte_HeadwaySeconds h) \<and>
      hte_LeadingVehicleId h \<noteq> hte_FollowingVehicleId h \<and>
      GetVehicleId (hte_Attributes h) = hte_FollowingVehicleId h | _ \<Rightarrow> True"
  have "?P y" if "y \<in> set (snd (headway_handle pf ss s x))" for s x y
    using that headway_handle_sound [of _ pf ss s x]
    by (auto split: go_any.split event.split option.split)
  from select_loop_outputs_all [where h = "headway_handle pf ss" and P = ?P, OF this] assms
  show ?thesis unfolding headway_doStream_def by fastforce
qed

lemma headwayStopKey_String_inj:
  assumes "headwayStopKey_String k = headwayStopKey_String k'"
    and "dash_free (hk_routeID k)" "dash_free (hk_directionID k)"
    and "dash_free (hk_routeID k')" "dash_free (hk_directionID k')"
  shows "k = k'"
  using assms by (cases k; cases k') (simp add: headwayStopKey_String_def dash_split_iff)

text \<open>
  The string of a headway key does not determine the key: two different stops can
  share a state entry when route or stop identifiers contain dashes, as identifiers such as
  \<open>CR-Fairmount\<close> do. Without a dash in the route and the direction it does.
\<close>

lemma headwayStopKey_String_ambiguous:
  "(\<exists>k k'. k \<noteq> k' \<and> hk_directionID k = ''0'' \<and> hk_directionID k' = ''1'' \<and>
      headwayStopKey_String k = headwayStopKey_String k') \<and>
   (\<forall>k k'. dash_free (hk_routeID k) \<and> dash_free (hk_directionID k) \<and> dash_free (hk_routeID k') \<and>
      dash_free (hk_directionID k') \<and> headwayStopKey_String k = headwayStopKey_String k' \<longrightarrow> k = k')"
proof
  let ?k = "\<lparr>hk_routeID = ''A-1'', hk_stopID = ''S'', hk_directionID = ''0''\<rparr>"
  let ?k' = "\<lparr>hk_routeID = ''A'', hk_stopID = ''0-S'', hk_directionID = ''1''\<rparr>"
  have "?k \<noteq> ?k' \<and> hk_directionID ?k = ''0'' \<and> hk_directionID ?k' = ''1'' \<and>
      headwayStopKey_String ?k = headwayStopKey_String ?k'"
    by (simp add: headwayStopKey_String_def)
  then show "\<exists>k k'. k \<noteq> k' \<and> hk_directionID k = ''0'' \<and> hk_directionID k' = ''1'' \<and>
      headwayStopKey_String k = headwayStopKey_String k'" by (intro exI [of _ ?k] exI [of _ ?k'])
  show "\<forall>k k'. dash_free (hk_routeID k) \<and> dash_free (hk_directionID k) \<and> dash_free (hk_routeID k') \<and>
      dash_free (hk_directionID k') \<and> headwayStopKey_String k = headwayStopKey_String k' \<longrightarrow> k = k'"
    using headwayStopKey_String_inj by simp
qed

text \<open>
  The stream loop of the headway processor: it runs \<open>process\<close> on the stop events it
  receives, skips every other value, sends the results in order and closes its output
  channel when the input channel is closed.
\<close>

lemma headway_doStream_decodes:
  "headway_doStream pf ss st (map InRecv xs @ InClosed # cs) =
     (final_state (headway_step pf ss) st (List.map_filter stop_decode_input xs),
      map (\<lambda>e. Any_event (Headway_event (Some e)))
        (outputs (headway_step pf ss) st (List.map_filter stop_decode_input xs)), True)"
  unfolding headway_doStream_def
  by (rule decoded_loop) (auto simp: headway_handle_def stop_decode_input_def headway_step_def
      case_prod_beta Let_def split: option.split)

end
