(* ===== verification/Travel_Time.thy ===== *)
theory Travel_Time
  imports Stop_Input Flow_Network
begin

text \<open>
  The processor of \<open>src/processors/transit/travel_time_events/travel_time_event_processor.go\<close>: the
  time a vehicle needs from one stop of a trip to the next, between the two arrivals.

  \<open>tripKey\<close>, \<open>travel_process\<close> and \<open>travel_doStream\<close> are the declarations of the code. The
  specification \<open>travel_spec\<close> works on the (stop, second) pairs of the arrivals of one key.
\<close>

section \<open>The processor\<close>

record tripKey =
  tk_routeID :: string
  tk_directionID :: string
  tk_vehicleID :: string
  tk_tripID :: string

definition tripKey_String :: "tripKey \<Rightarrow> string" where
  "tripKey_String k =
     tk_routeID k @ ''-'' @ tk_directionID k @ ''-'' @ tk_vehicleID k @ ''-'' @ tk_tripID k"

definition travel_process ::
    "platform \<Rightarrow> 's StateStore \<Rightarrow> Time \<Rightarrow> Time \<Rightarrow> 's \<Rightarrow> StopEvent option \<Rightarrow> 's \<times> TravelTimeEvent list" where
  "travel_process pf ss t_get t_set st event =
     (if event = None \<or> StopEvent_GetStopEventType event \<noteq> StopEvent_ARRIVAL then (st, [])
      else
        let attrs = StopEvent_GetAttributes event;
            key = tripKey_String
              \<lparr>tk_routeID = GetRouteId attrs, tk_directionID = GetDirectionId attrs,
               tk_vehicleID = GetVehicleId attrs, tk_tripID = GetTripId attrs\<rparr>;
            (previousArrival, found) =
              ss_Get ss t_get st key (\<lambda>_. Any_StopEvent (Some StopEvent_zero));
            updated = fst (ss_Set ss t_set st key (Any_StopEvent event) time_Hour)
        in if found then
             (case as_StopEvent previousArrival of
                None \<Rightarrow> (updated, [])
              | Some None \<Rightarrow> (updated, [])
              | Some (Some prev) \<Rightarrow>
                  let prevAttrs = StopEvent_GetAttributes (Some prev)
                  in if GetStopId prevAttrs \<noteq> GetStopId attrs then
                       let startTime = AsTime pf (GetTimestamp prevAttrs);
                           endTime = AsTime pf (GetTimestamp attrs);
                           travelSeconds = elapsed_seconds (int32_out_of_range pf) endTime startTime
                       in if sint travelSeconds \<le> 0 then (updated, [])
                          else (updated,
                            [\<lparr>tte_Attributes = Some (EventAttributes_zero
                                \<lparr>AgencyId := GetAgencyId attrs,
                                 RouteId := GetRouteId attrs,
                                 TripId := GetTripId attrs,
                                 DirectionId := GetDirectionId attrs,
                                 VehicleId := GetVehicleId attrs,
                                 ServiceDate := GetServiceDate attrs,
                                 OriginStopId := GetStopId prevAttrs,
                                 DestinationStopId := GetStopId attrs,
                                 Timestamp := GetTimestamp attrs,
                                 StopSequence := GetStopSequence attrs\<rparr>),
                              tte_StartTime = Some (timestamppb_New pf startTime),
                              tte_EndTime = Some (timestamppb_New pf endTime),
                              tte_TravelTimeSeconds = travelSeconds\<rparr>])
                     else (st, []))
           else (updated, []))"

definition travel_handle ::
    "platform \<Rightarrow> 's StateStore \<Rightarrow> 's \<Rightarrow> Time \<times> Time \<times> go_any \<Rightarrow> 's \<times> go_any list" where
  "travel_handle pf ss st inp =
     (case inp of (t_get, t_set, event) \<Rightarrow>
        if event = Any_nil then (st, [])
        else
          (case as_StopEvent event of
             None \<Rightarrow> (st, [])
           | Some stopEvent \<Rightarrow>
               (let (st', os) = travel_process pf ss t_get t_set st stopEvent
                in (st', map (\<lambda>e. Any_event (Travel_event (Some e))) os))))"

definition travel_doStream ::
    "platform \<Rightarrow> 's StateStore \<Rightarrow> 's \<Rightarrow> (Time \<times> Time \<times> go_any) select list \<Rightarrow>
     's \<times> go_any list \<times> bool" where
  "travel_doStream pf ss st cs = select_loop (travel_handle pf ss) st cs"

text \<open>
  \<open>To\<close> and \<open>Via\<close>: the states the goroutines \<open>doStream\<close> and \<open>transmit\<close> can reach once the processor
  feeds a consumer, a sink or a flow, when it receives \<open>xs\<close> and its input channel is closed afterwards if \<open>closes\<close>.
\<close>

definition travel_To ::
    "platform \<Rightarrow> 's StateStore \<Rightarrow> 's \<Rightarrow> (Time \<times> Time \<times> go_any) list \<Rightarrow> bool \<Rightarrow> ('s, (Time \<times> Time \<times> go_any), go_any) link \<Rightarrow> bool" where
  "travel_To pf ss st xs closes l = link_run (travel_handle pf ss) (new_link st xs closes) l"

interpretation travel_flow: flow_processor "travel_handle pf ss" "\<lambda>st cs. snd (travel_doStream pf ss st cs)"
  for pf ss
  by unfold_locales (simp add: travel_doStream_def)

lemma travel_To_complete:
  "travel_To pf ss st xs closes l \<Longrightarrow> at_rest (travel_handle pf ss) l \<Longrightarrow> lk_consuming l \<Longrightarrow>
   \<exists>ys. prefix ys xs \<and> (\<not> lk_cancelled l \<longrightarrow> ys = xs) \<and> (lk_inlet l, lk_closed l) = snd (travel_doStream pf ss st (map InRecv ys @
      (if lk_cancelled l then [CtxDone] else if closes then [InClosed] else [])))"
  unfolding travel_To_def by (rule travel_flow.rest_complete)

section \<open>The processor over a store that honours its contract\<close>

definition travel_step ::
    "platform \<Rightarrow> 's StateStore \<Rightarrow> 's \<Rightarrow> se_input \<Rightarrow> 's \<times> TravelTimeEvent list" where
  "travel_step pf ss st i = travel_process pf ss (fst i) (fst (snd i)) st (snd (snd i))"

definition travel_key :: "se_input \<Rightarrow> string" where
  "travel_key i = tripKey_String
     \<lparr>tk_routeID = GetRouteId (input_attrs i), tk_directionID = GetDirectionId (input_attrs i),
      tk_vehicleID = GetVehicleId (input_attrs i), tk_tripID = GetTripId (input_attrs i)\<rparr>"

text \<open>The events for an arrival with attributes \<open>a\<close> at another stop than the one in \<open>p\<close>.\<close>

definition travel_emit ::
    "platform \<Rightarrow> EventAttributes option \<Rightarrow> EventAttributes option \<Rightarrow> TravelTimeEvent list" where
  "travel_emit pf p a =
     (let secs = elapsed_seconds (int32_out_of_range pf) (AsTime pf (GetTimestamp a))
            (AsTime pf (GetTimestamp p))
      in if sint secs \<le> 0 then []
         else [\<lparr>tte_Attributes = Some (EventAttributes_zero
                  \<lparr>AgencyId := GetAgencyId a, VehicleId := GetVehicleId a, RouteId := GetRouteId a,
                   OriginStopId := GetStopId p, DestinationStopId := GetStopId a,
                   DirectionId := GetDirectionId a, StopSequence := GetStopSequence a,
                   TripId := GetTripId a, ServiceDate := GetServiceDate a,
                   Timestamp := GetTimestamp a\<rparr>),
                tte_StartTime = Some (timestamppb_New pf (AsTime pf (GetTimestamp p))),
                tte_EndTime = Some (timestamppb_New pf (AsTime pf (GetTimestamp a))),
                tte_TravelTimeSeconds = secs\<rparr>])"

context state_store
begin

lemma travel_step_skip: "\<not> is_arrival i \<Longrightarrow> travel_step pf ss st i = (st, [])"
  by (simp add: travel_step_def travel_process_def)

lemma travel_step_arrival:
  assumes "is_arrival i"
  shows "travel_step pf ss st i =
    (let updated = fst (ss_Set ss (fst (snd i)) st (travel_key i) (Any_StopEvent (snd (snd i))) time_Hour)
     in case lookup st (fst i) (travel_key i) se_proto of
          Some (Any_event (Stop_event (Some prev))) \<Rightarrow>
            if GetStopId (se_Attributes prev) = GetStopId (input_attrs i) then (st, [])
            else (updated, travel_emit pf (se_Attributes prev) (input_attrs i))
        | _ \<Rightarrow> (updated, []))"
proof -
  obtain e where e: "snd (snd i) = Some e" using input_type_Some(1) [OF assms] by blast
  show ?thesis
  proof (cases "lookup st (fst i) (travel_key i) se_proto")
    case None
    with e assms show ?thesis
      by (simp add: travel_step_def travel_process_def travel_key_def get Let_def case_prod_beta)
  next
    case (Some m)
    with e assms show ?thesis
      by (cases m) (simp_all add: travel_step_def travel_process_def travel_key_def travel_emit_def
          get Let_def case_prod_beta as_StopEvent_def split: option.split event.split)
  qed
qed

end

sublocale state_store \<subseteq> travel_keyed: keyed_step "travel_step pf ss" travel_key
    "\<lambda>s k t. lookup s t k se_proto" for pf
proof
  fix k :: string and i :: se_input and s :: 's
  assume "k \<noteq> travel_key i"
  then show "(\<lambda>t. lookup (fst (travel_step pf ss s i)) t k se_proto) = (\<lambda>t. lookup s t k se_proto)"
    by (cases "is_arrival i")
      (auto simp: travel_step_skip travel_step_arrival lookup_set Let_def
        split: option.split go_any.split event.split simp del: StopEvent_GetStopEventType_def)
next
  fix s t :: 's and i :: se_input
  assume "(\<lambda>u. lookup s u (travel_key i) se_proto) = (\<lambda>u. lookup t u (travel_key i) se_proto)"
  then have v: "\<And>u. lookup s u (travel_key i) se_proto = lookup t u (travel_key i) se_proto"
    by (simp add: fun_eq_iff)
  show "(\<lambda>u. lookup (fst (travel_step pf ss s i)) u (travel_key i) se_proto) =
      (\<lambda>u. lookup (fst (travel_step pf ss t i)) u (travel_key i) se_proto)"
    using v by (cases "is_arrival i")
      (auto simp: travel_step_skip travel_step_arrival lookup_set Let_def
        split: option.split go_any.split event.split simp del: StopEvent_GetStopEventType_def)
  show "snd (travel_step pf ss s i) = snd (travel_step pf ss t i)"
    using v by (cases "is_arrival i")
      (auto simp: travel_step_skip travel_step_arrival Let_def
        split: option.split go_any.split event.split simp del: StopEvent_GetStopEventType_def)
qed

section \<open>The specification\<close>

text \<open>The arrivals of one key as (stop, second); the result is (origin, destination, seconds).\<close>

fun travel_spec :: "(string \<times> int) option \<Rightarrow> (string \<times> int) list \<Rightarrow> (string \<times> string \<times> int) list" where
  "travel_spec prev [] = []"
| "travel_spec None (d # ds) = travel_spec (Some d) ds"
| "travel_spec (Some (p, s)) ((c, t) # ds) =
     (if c = p then travel_spec (Some (p, s)) ds
      else (if t \<le> s then [] else [(p, c, t - s)]) @ travel_spec (Some (c, t)) ds)"

text \<open>The arrival the specification remembers at the end.\<close>

fun travel_last :: "(string \<times> int) option \<Rightarrow> (string \<times> int) list \<Rightarrow> (string \<times> int) option" where
  "travel_last prev [] = prev"
| "travel_last None (d # ds) = travel_last (Some d) ds"
| "travel_last (Some (p, s)) ((c, t) # ds) =
     (if c = p then travel_last (Some (p, s)) ds else travel_last (Some (c, t)) ds)"

lemma travel_spec_sum:
  "sorted (map snd (d # ds)) \<Longrightarrow>
   \<exists>c t. travel_last (Some d) ds = Some (c, t) \<and>
     sum_list (map (snd \<circ> snd) (travel_spec (Some d) ds)) = t - snd d"
proof (induction ds arbitrary: d)
  case Nil
  then show ?case by (cases d) simp
next
  case (Cons e ds)
  obtain p s c t where d: "d = (p, s)" "e = (c, t)" by (cases d; cases e)
  show ?case
  proof (cases "c = p")
    case True
    then show ?thesis using Cons.IH [of d] Cons.prems by (simp add: d)
  next
    case False
    then show ?thesis using Cons.IH [of e] Cons.prems by (auto simp: d)
  qed
qed

definition travel_obs :: "se_input \<Rightarrow> string \<times> int" where
  "travel_obs i = (GetStopId (input_attrs i), input_second i)"

definition travel_sig :: "TravelTimeEvent \<Rightarrow> string \<times> string \<times> int" where
  "travel_sig e =
     (GetOriginStopId (tte_Attributes e), GetDestinationStopId (tte_Attributes e),
      sint (tte_TravelTimeSeconds e))"

lemma travel_emit_sig:
  assumes "timestamppb_spec pf" and "whole_second i" and "whole_second j"
  shows "map travel_sig (travel_emit pf (input_attrs i) (input_attrs j)) =
    (let (p, s) = travel_obs i; (c, t) = travel_obs j in if t \<le> s then [] else [(p, c, t - s)])"
  using whole_second_elapsed [OF assms, of "int32_out_of_range pf"]
  by (auto simp: travel_emit_def travel_obs_def travel_sig_def Let_def)

lemma travel_run_refines:
  assumes "timestamppb_spec pf"
    and "list_all (\<lambda>i. travel_key i = k \<and> whole_second i) is" and "live_run is"
    and "stored = None \<or> (\<exists>i. stored = Some i \<and> whole_second i \<and> is_arrival i)"
    and "shows_event st k stored is"
  shows "map travel_sig (outputs (travel_step pf InMemory_ops) st is) =
    travel_spec (map_option travel_obs stored) (map travel_obs (filter is_arrival is))"
  using assms(2-)
proof (induction "is" arbitrary: st stored)
  case Nil
  then show ?case by simp
next
  case (Cons j js)
  let ?step = "travel_step pf InMemory_ops"
  let ?upd = "fst (InMemory_Set (fst (snd j)) st k (Any_StopEvent (snd (snd j))) time_Hour)"
  from Cons.prems have j: "travel_key j = k" "whole_second j"
    and js: "list_all (\<lambda>i. travel_key i = k \<and> whole_second i) js" "live_run js"
    and horizon: "\<And>i. i \<in> set js \<Longrightarrow> fst i \<le> time_Add (fst (snd j)) time_Hour"
    and l: "InMemory_lookup st (fst j) k se_proto = map_option (\<lambda>i. Any_StopEvent (snd (snd i))) stored"
    and rest: "shows_event st k stored js"
    by (simp_all add: live_run_def shows_event_def)
  have skip: ?case if "?step st j = (st, [])"
    "travel_spec (map_option travel_obs stored) (map travel_obs (filter is_arrival (j # js))) =
     travel_spec (map_option travel_obs stored) (map travel_obs (filter is_arrival js))"
    using Cons.IH [of stored st] js rest Cons.prems(3) that
    by (simp only: outputs_Cons fst_conv snd_conv append_Nil)
  show ?case
  proof (cases "is_arrival j")
    case False
    then show ?thesis
      by (intro skip in_memory.travel_step_skip) (simp_all del: StopEvent_GetStopEventType_def)
  next
    case True
    have "shows_event ?upd k (Some j) js"
      using horizon by (rule shows_event_set)
    then have IH: "map travel_sig (outputs ?step ?upd js) =
        travel_spec (Some (travel_obs j)) (map travel_obs (filter is_arrival js))"
      using Cons.IH [of "Some j" ?upd] js True j by simp
    show ?thesis
    proof (cases stored)
      case None
      then have "?step st j = (?upd, [])"
        using True l j by (simp add: in_memory.travel_step_arrival)
      with IH show ?thesis
        unfolding outputs_Cons using None True by (simp del: StopEvent_GetStopEventType_def)
    next
      case (Some i)
      then have i: "whole_second i" "is_arrival i" using Cons.prems(3) by auto
      obtain e where e: "snd (snd i) = Some e" using input_type_Some(1) [OF i(2)] by blast
      obtain p s c t where obs: "travel_obs i = (p, s)" "travel_obs j = (c, t)"
        by (cases "travel_obs i"; cases "travel_obs j")
      have step: "?step st j =
          (if c = p then (st, []) else (?upd, travel_emit pf (input_attrs i) (input_attrs j)))"
        using True l j Some e obs by (auto simp: in_memory.travel_step_arrival travel_obs_def)
      show ?thesis
      proof (cases "c = p")
        case True
        then show ?thesis
          using step obs Some \<open>is_arrival j\<close>
          by (intro skip) (simp_all del: StopEvent_GetStopEventType_def)
      next
        case False
        then show ?thesis
          unfolding outputs_Cons
          using travel_emit_sig [OF assms(1) i(1) j(2)] step obs IH \<open>is_arrival j\<close> Some
          by (simp del: StopEvent_GetStopEventType_def)
      qed
    qed
  qed
qed

section \<open>Properties\<close>

abbreviation travel_emitted_for ::
    "platform \<Rightarrow> InMemoryStateStore \<Rightarrow> string \<Rightarrow> se_input list \<Rightarrow> TravelTimeEvent list" where
  "travel_emitted_for pf st k is \<equiv> emitted_by (travel_step pf InMemory_ops) travel_key k st is"

abbreviation arrivals_of :: "string \<Rightarrow> se_input list \<Rightarrow> (string \<times> int) list" where
  "arrivals_of k is \<equiv> map travel_obs (filter (\<lambda>i. travel_key i = k \<and> is_arrival i) is)"

lemma travel_stream_refines:
  assumes "timestamppb_spec pf"
    and "list_all whole_second (filter (\<lambda>i. travel_key i = k) is)"
    and "live_run (filter (\<lambda>i. travel_key i = k) is)"
  shows "map travel_sig (travel_emitted_for pf (NewInMemoryStateStore d) k is) =
    travel_spec None (arrivals_of k is)"
  unfolding in_memory.travel_keyed.isolation
  using travel_run_refines [OF assms(1), of k "filter (\<lambda>i. travel_key i = k) is" None] assms(2,3)
  by (simp add: list_all_iff conj_commute del: StopEvent_GetStopEventType_def)

definition travel_example :: "se_input list" where
  "travel_example =
     [(0, 1, example_se StopEvent_ARRIVAL ''bus'' ''A'' 100),
      (2, 3, example_se StopEvent_DEPARTURE ''bus'' ''A'' 130),
      (4, 5, example_se StopEvent_ARRIVAL ''tram'' ''B'' 140),
      (6, 7, example_se StopEvent_ARRIVAL ''bus'' ''B'' 220),
      (8, 9, example_se StopEvent_ARRIVAL ''bus'' ''B'' 230),
      (10, 11, example_se StopEvent_ARRIVAL ''bus'' ''C'' 300)]"

lemmas travel_example_simps =
  travel_example_def example_se_simps travel_key_def tripKey_String_def travel_obs_def



text \<open>
  Travel times add up: when the arrivals of a trip come in time order, the
  travel times emitted for it add up to the time from the first arrival to the arrival at the
  last stop, repeated arrivals notwithstanding.
\<close>

lemma travel_sum_telescopes:
  assumes "timestamppb_spec pf"
    and "list_all whole_second (filter (\<lambda>i. travel_key i = k) is)"
    and "live_run (filter (\<lambda>i. travel_key i = k) is)"
    and "arrivals_of k is = (p, s) # ds" and "sorted (map snd (arrivals_of k is))"
  shows "\<exists>c t. travel_last None (arrivals_of k is) = Some (c, t) \<and>
    sum_list (map (\<lambda>e. sint (tte_TravelTimeSeconds e))
      (travel_emitted_for pf (NewInMemoryStateStore d) k is)) = t - s"
proof -
  have eq: "map (\<lambda>e. sint (tte_TravelTimeSeconds e)) es = map (snd \<circ> snd) (map travel_sig es)" for es
    by (simp add: travel_sig_def)
  show ?thesis
    unfolding eq travel_stream_refines [OF assms(1-3)] assms(4)
    using travel_spec_sum [of "(p, s)" ds] assms(5) unfolding assms(4) by simp
qed

lemma travel_handle_sound:
  assumes "Any_event (Travel_event (Some e)) \<in> set (snd (travel_handle pf ss st x))"
  shows "0 < sint (tte_TravelTimeSeconds e) \<and>
    GetOriginStopId (tte_Attributes e) \<noteq> GetDestinationStopId (tte_Attributes e)"
  using assms
  by (auto simp: travel_handle_def travel_process_def Let_def case_prod_beta
      split: option.splits if_splits prod.splits)

text \<open>
  A travel time is positive and between two different stops, whatever arrives on
  the input channel.
\<close>

lemma travel_positive:
  assumes "Any_event (Travel_event (Some e)) \<in> set (fst (snd (travel_doStream pf ss st cs)))"
  shows "0 < sint (tte_TravelTimeSeconds e) \<and>
    GetOriginStopId (tte_Attributes e) \<noteq> GetDestinationStopId (tte_Attributes e)"
proof -
  let ?P = "\<lambda>y. case y of Any_event (Travel_event (Some e)) \<Rightarrow> 0 < sint (tte_TravelTimeSeconds e) \<and>
      GetOriginStopId (tte_Attributes e) \<noteq> GetDestinationStopId (tte_Attributes e) | _ \<Rightarrow> True"
  have "?P y" if "y \<in> set (snd (travel_handle pf ss s x))" for s x y
    using that travel_handle_sound [of _ pf ss s x]
    by (auto split: go_any.split event.split option.split)
  from select_loop_outputs_all [where h = "travel_handle pf ss" and P = ?P, OF this] assms
  show ?thesis unfolding travel_doStream_def by fastforce
qed

text \<open>
  The stream loop of the travel time processor: it runs \<open>process\<close> on the stop events
  it receives, skips every other value, sends the results in order and closes its output
  channel when the input channel is closed.
\<close>

lemma travel_doStream_decodes:
  "travel_doStream pf ss st (map InRecv xs @ InClosed # cs) =
     (final_state (travel_step pf ss) st (List.map_filter stop_decode_input xs),
      map (\<lambda>e. Any_event (Travel_event (Some e)))
        (outputs (travel_step pf ss) st (List.map_filter stop_decode_input xs)), True)"
  unfolding travel_doStream_def
  by (rule decoded_loop) (auto simp: travel_handle_def stop_decode_input_def travel_step_def
      case_prod_beta Let_def split: option.split)

end
