(* ===== verification/Parse_Duration.thy ===== *)
theory Parse_Duration
  imports Go_Prelude
begin

text \<open>
  \<open>time.ParseDuration\<close> of the Go standard library, which the configuration and the HTTP source
  apply to the polling interval: a sequence of decimal numbers with units, on unsigned 64-bit
  integers with the library's overflow checks. \<open>None\<close> is an error.
\<close>

definition is_digit :: "char \<Rightarrow> bool" where
  "is_digit c \<longleftrightarrow> c \<in> set ''0123456789''"

definition digit_value :: "char \<Rightarrow> nat" where
  "digit_value c = of_char c - 48"

text \<open>\<open>leadingInt\<close>: the value and the rest; \<open>None\<close> is its overflow error.\<close>

fun leadingInt :: "nat \<Rightarrow> string \<Rightarrow> (nat \<times> string) option" where
  "leadingInt x [] = Some (x, [])"
| "leadingInt x (c # s) =
     (if \<not> is_digit c then Some (x, c # s)
      else if 2 ^ 63 div 10 < x then None
      else
        let x' = x * 10 + digit_value c
        in if 2 ^ 63 < x' then None else leadingInt x' s)"

text \<open>\<open>leadingFraction\<close>: the value, the power of ten it is scaled by, and the rest.\<close>

fun leadingFraction :: "nat \<Rightarrow> rat \<Rightarrow> bool \<Rightarrow> string \<Rightarrow> nat \<times> rat \<times> string" where
  "leadingFraction x scale overflow [] = (x, scale, [])"
| "leadingFraction x scale overflow (c # s) =
     (if \<not> is_digit c then (x, scale, c # s)
      else if overflow then leadingFraction x scale True s
      else if (2 ^ 63 - 1) div 10 < x then leadingFraction x scale True s
      else
        let y = x * 10 + digit_value c
        in if 2 ^ 63 < y then leadingFraction x scale True s
           else leadingFraction y (f64_round (scale * 10)) False s)"

definition unitMap :: "string \<Rightarrow> nat option" where
  "unitMap u =
     (if u = ''ns'' then Some 1
      else if u = ''us'' then Some 1000
      else if u = [CHR 0xC2, CHR 0xB5] @ ''s'' then Some 1000
      else if u = [CHR 0xCE, CHR 0xBC] @ ''s'' then Some 1000
      else if u = ''ms'' then Some 1000000
      else if u = ''s'' then Some 1000000000
      else if u = ''m'' then Some 60000000000
      else if u = ''h'' then Some 3600000000000
      else None)"

text \<open>The value of one number with its unit, in nanoseconds.\<close>

definition component_ns :: "nat \<Rightarrow> nat \<Rightarrow> rat \<Rightarrow> nat \<Rightarrow> nat option" where
  "component_ns v f scale unit =
     (if 2 ^ 63 div unit < v then None
      else
        let v' = v * unit
        in if 0 < f then
             let v'' = v' + nat (rat_trunc (f64_round (f64_of_int (int f) * f64_round (of_nat unit / scale))))
             in if 2 ^ 63 < v'' then None else Some v''
           else Some v')"

abbreviation unit_char :: "char \<Rightarrow> bool" where
  "unit_char c \<equiv> c \<noteq> CHR ''.'' \<and> \<not> is_digit c"

text \<open>The optional fraction: its value, its scale, the rest, and whether it has a digit.\<close>

definition fraction_part :: "string \<Rightarrow> nat \<times> rat \<times> string \<times> bool" where
  "fraction_part s =
     (if s \<noteq> [] \<and> hd s = CHR ''.'' then
        let (f, scale, s2) = leadingFraction 0 1 False (tl s)
        in (f, scale, s2, length (tl s) \<noteq> length s2)
      else (0, 1, s, False))"

text \<open>One round of the loop: the nanoseconds of the next number with its unit, and the rest.\<close>

definition component :: "string \<Rightarrow> (nat \<times> string) option" where
  "component s =
     (if \<not> (hd s = CHR ''.'' \<or> is_digit (hd s)) then None
      else (case leadingInt 0 s of
         None \<Rightarrow> None
       | Some (v, s1) \<Rightarrow>
           let pre = length s \<noteq> length s1;
               (f, scale, s2, post) = fraction_part s1;
               u = takeWhile unit_char s2;
               s3 = dropWhile unit_char s2
           in if \<not> pre \<and> \<not> post then None
              else if u = [] then None
              else (case unitMap u of
                 None \<Rightarrow> None
               | Some unit \<Rightarrow> map_option (\<lambda>v. (v, s3)) (component_ns v f scale unit))))"

lemma leadingInt_length: "leadingInt x s = Some (v, s1) \<Longrightarrow> length s1 \<le> length s"
  by (induction x s rule: leadingInt.induct) (auto simp: Let_def split: if_splits)

lemma leadingFraction_length: "length (snd (snd (leadingFraction x scale ov s))) \<le> length s"
  by (induction s arbitrary: x scale ov) (auto simp: Let_def le_SucI)

lemma fraction_part_length: "length (fst (snd (snd (fraction_part s)))) \<le> length s"
  using leadingFraction_length [of 0 1 False "tl s"]
  by (auto simp: fraction_part_def Let_def case_prod_beta)

lemma takeWhile_consumes: "takeWhile P xs \<noteq> [] \<Longrightarrow> length (dropWhile P xs) < length xs"
  by (cases xs) (auto simp: less_Suc_eq_le length_dropWhile_le split: if_splits)

lemma component_length:
  assumes "component s = Some (v, s3)"
  shows "length s3 < length s"
proof -
  from assms obtain w s1 where l: "leadingInt 0 s = Some (w, s1)"
      and s3: "s3 = dropWhile unit_char (fst (snd (snd (fraction_part s1))))"
        "takeWhile unit_char (fst (snd (snd (fraction_part s1)))) \<noteq> []"
    by (auto simp: component_def Let_def case_prod_beta split: if_splits option.splits)
  then have "length s3 < length (fst (snd (snd (fraction_part s1))))"
    using takeWhile_consumes by blast
  then show ?thesis
    using fraction_part_length [of s1] leadingInt_length [OF l] by simp
qed

text \<open>The loop adds up the components; the sum is a \<open>uint64\<close>.\<close>

function parse_components :: "nat \<Rightarrow> string \<Rightarrow> nat option" where
  "parse_components d s =
     (if s = [] then Some d
      else (case component s of
         None \<Rightarrow> None
       | Some (v, s') \<Rightarrow>
           let d' = (d + v) mod 2 ^ 64
           in if 2 ^ 63 < d' then None else parse_components d' s'))"
  by pat_completeness auto
termination
  by (relation "measure (\<lambda>(d, s). length s)") (auto dest: component_length)

declare parse_components.simps [simp del]

definition ParseDuration :: "string \<Rightarrow> Duration option" where
  "ParseDuration orig =
     (let signed = orig \<noteq> [] \<and> (hd orig = CHR ''-'' \<or> hd orig = CHR ''+'');
          neg = signed \<and> hd orig = CHR ''-'';
          s = (if signed then tl orig else orig)
      in if s = ''0'' then Some 0
         else if s = [] then None
         else (case parse_components 0 s of
            None \<Rightarrow> None
          | Some d \<Rightarrow>
              if neg then Some (- of_nat d)
              else if 2 ^ 63 - 1 < d then None
              else Some (of_nat d)))"

section \<open>Printing and parsing\<close>

lemma digit_value_char: "d < 10 \<Longrightarrow> is_digit (digit_char d) \<and> digit_value (digit_char d) = d"
  by (auto simp: digit_char_def is_digit_def digit_value_def nth_Cons' numeral_eq_Suc less_Suc_eq)

text \<open>The number a string of digits denotes.\<close>

definition digits_value :: "string \<Rightarrow> nat" where
  "digits_value s = foldl (\<lambda>n c. n * 10 + digit_value c) 0 s"

lemma digits_value_decimal: "digits_value (decimal n) = n"
proof (induction n rule: decimal.induct)
  case (1 n)
  show ?case
    using "1.IH" by (subst decimal.simps) (simp add: digits_value_def digit_value_char)
qed

text \<open>A decimal numeral up to \<open>2 ^ 63\<close> followed by something that is no digit reads back.\<close>

lemma leadingInt_decimal:
  assumes "n \<le> 2 ^ 63"
  shows "leadingInt 0 (decimal n @ s) = leadingInt n s"
  using assms
proof (induction n arbitrary: s rule: decimal.induct)
  case (1 n)
  show ?case
  proof (cases "n < 10")
    case True
    then show ?thesis
      by (subst decimal.simps) (simp add: digit_value_char Let_def)
  next
    case False
    have "leadingInt 0 (decimal n @ s) = leadingInt (n div 10) (digit_char (n mod 10) # s)"
      using False "1.IH" [of "digit_char (n mod 10) # s"] "1.prems"
      by (subst decimal.simps) (simp add: le_diff_conv div_le_dividend le_trans)
    also have "\<dots> = leadingInt n s"
      using digit_value_char [of "n mod 10"] "1.prems" div_le_mono [OF "1.prems", of 10]
      by (simp add: Let_def)
    finally show ?thesis .
  qed
qed

lemma is_digit_decimal: "list_all is_digit (decimal n)"
  unfolding list_all_iff is_digit_def using set_decimal [of n] by blast

lemma hd_decimal: "is_digit (hd (decimal n @ s))"
  unfolding is_digit_def using set_decimal [of n] hd_in_set [OF decimal_nonempty, of n]
  by (simp only: hd_append2 [OF decimal_nonempty] subsetD)

lemma digit_not_sign: "is_digit c \<Longrightarrow> c \<noteq> CHR ''-'' \<and> c \<noteq> CHR ''+'' \<and> c \<noteq> CHR ''.''"
  by (auto simp: is_digit_def)

lemma component_seconds:
  assumes "n * 1000000000 \<le> 2 ^ 63 - 1"
  shows "component (decimal n @ ''s'') = Some (n * 1000000000, [])"
proof -
  have "n \<le> 2 ^ 63" using assms by simp
  then have "leadingInt 0 (decimal n @ ''s'') = Some (n, ''s'')"
    by (simp add: leadingInt_decimal is_digit_def)
  moreover have "length (decimal n) \<noteq> 0" by simp
  ultimately show ?thesis
    using assms hd_decimal [of n "''s''"]
    by (simp add: component_def fraction_part_def component_ns_def unitMap_def is_digit_def Let_def)
qed

lemma ParseDuration_seconds:
  assumes "n * 1000000000 \<le> 2 ^ 63 - 1"
  shows "ParseDuration (decimal n @ ''s'') = Some (of_nat (n * 1000000000))"
    and "ParseDuration (''-'' @ decimal n @ ''s'') = Some (- of_nat (n * 1000000000))"
proof -
  have "parse_components 0 (decimal n @ ''s'') = Some (n * 1000000000)"
    using assms component_seconds [OF assms]
    by (subst parse_components.simps) (simp add: Let_def parse_components.simps [of _ "[]"])
  moreover have "decimal n @ ''s'' \<noteq> ''0''"
    by (simp add: append_eq_Cons_conv)
  ultimately show "ParseDuration (decimal n @ ''s'') = Some (of_nat (n * 1000000000))"
    and "ParseDuration (''-'' @ decimal n @ ''s'') = Some (- of_nat (n * 1000000000))"
    using assms digit_not_sign [OF hd_decimal [of n "''s''"]]
    by (simp_all add: ParseDuration_def Let_def)
qed

end
