(* ===== verification/Config.thy ===== *)
theory Config
  imports Parse_Duration
begin

text \<open>
  The configuration of \<open>src/config\<close>: the structures the YAML file is decoded into, and
  \<open>Validate\<close>, which \<open>ReadConfig\<close> runs on them. Reading the file and decoding the YAML are not
  modelled.

  A Go map is \<open>None\<close> when it is nil, and else the list of its entries in the order in which
  a \<open>range\<close> loop visits them. Go leaves that order open; statements about all lists are statements
  about all orders. Integers that are only compared are HOL integers.
\<close>

section \<open>Maps\<close>

type_synonym ID = string
type_synonym ('k, 'v) go_map = "('k \<times> 'v) list option"

definition entries :: "('k, 'v) go_map \<Rightarrow> ('k \<times> 'v) list" where
  [simp]: "entries m = ptr_get id [] m"

definition map_keys :: "('k, 'v) go_map \<Rightarrow> 'k list" where
  [simp]: "map_keys m = map fst (entries m)"

section \<open>The structures\<close>

record ConnectorConfig =
  conn_ID :: ID

record HTTPSourceConfig =
  http_URL :: string
  http_Interval :: string

record BucketSourceConfig =
  bsrc_URL :: string
  bsrc_BucketName :: string

record FileSystemSourceConfig =
  fsrc_Path :: string

text \<open>The options of a Redis client, \<open>redis.Options\<close>, as far as the program sets them.\<close>

record redis_Options =
  ro_Addr :: string
  ro_Password :: string
  ro_DB :: int

record RedisSourceConfig =
  rsrc_Addr :: string
  rsrc_Password :: string
  rsrc_DB :: int
  rsrc_Channel :: string

type_synonym SourceType = string

definition SourceTypeHTTP :: SourceType where "SourceTypeHTTP = ''http''"
definition SourceTypeBucket :: SourceType where "SourceTypeBucket = ''bucket''"
definition SourceTypeFileSystem :: SourceType where "SourceTypeFileSystem = ''file_system''"
definition SourceTypeRedis :: SourceType where "SourceTypeRedis = ''redis''"
definition SourceTypeConnector :: SourceType where "SourceTypeConnector = ''connector''"

lemmas SourceType_defs =
  SourceTypeHTTP_def SourceTypeBucket_def SourceTypeFileSystem_def SourceTypeRedis_def
  SourceTypeConnector_def

record SourceConfig =
  src_ID :: ID
  src_Type :: SourceType
  src_HTTP :: HTTPSourceConfig
  src_Bucket :: BucketSourceConfig
  src_FileSystem :: FileSystemSourceConfig
  src_Redis :: RedisSourceConfig
  src_Connector :: ConnectorConfig

type_synonym StateStoreType = string

definition InMemoryStateStoreType :: StateStoreType where "InMemoryStateStoreType = ''in_memory''"
definition RedisStateStoreType :: StateStoreType where "RedisStateStoreType = ''redis''"

record InMemoryStateStoreConfig =
  imsc_Expiry :: Duration

record RedisStateStoreConfig =
  rssc_Addr :: string
  rssc_Password :: string
  rssc_DB :: int
  rssc_Expiry :: Duration

record StateStoreConfig =
  ssc_ID :: ID
  ssc_Type :: StateStoreType
  ssc_InMemory :: InMemoryStateStoreConfig
  ssc_Redis :: RedisStateStoreConfig

type_synonym SinkType = string

definition SinkTypeConnector :: SinkType where "SinkTypeConnector = ''connector''"
definition SinkTypeConsole :: SinkType where "SinkTypeConsole = ''console''"
definition SinkTypeDatabase :: SinkType where "SinkTypeDatabase = ''database''"
definition SinkTypeFileSystem :: SinkType where "SinkTypeFileSystem = ''file_system''"
definition SinkTypeParquet :: SinkType where "SinkTypeParquet = ''parquet''"
definition SinkTypeRedis :: SinkType where "SinkTypeRedis = ''redis''"
definition SinkTypeSSE :: SinkType where "SinkTypeSSE = ''sse''"

lemmas SinkType_defs =
  SinkTypeConnector_def SinkTypeConsole_def SinkTypeDatabase_def SinkTypeFileSystem_def
  SinkTypeParquet_def SinkTypeRedis_def SinkTypeSSE_def

record BucketSinkConfig =
  bsnk_URL :: string
  bsnk_BucketName :: string

record DatabaseSinkConfig =
  db_Driver :: string
  db_DSN :: string
  db_Schema :: string

record ParquetSinkConfig =
  pq_BucketName :: string
  pq_Prefix :: string
  pq_EventType :: string
  pq_AWSRegion :: string
  pq_AWSEndpointURL :: string
  pq_AWSAccessKey :: string
  pq_AWSSecretKey :: string

definition ConsoleSinkLevelDebug :: string where "ConsoleSinkLevelDebug = ''debug''"
definition ConsoleSinkLevelInfo :: string where "ConsoleSinkLevelInfo = ''info''"
definition ConsoleSinkLevelWarning :: string where "ConsoleSinkLevelWarning = ''warning''"
definition ConsoleSinkLevelError :: string where "ConsoleSinkLevelError = ''error''"
definition ConsoleSinkLevelFatal :: string where "ConsoleSinkLevelFatal = ''fatal''"

lemmas console_levels =
  ConsoleSinkLevelDebug_def ConsoleSinkLevelInfo_def ConsoleSinkLevelWarning_def
  ConsoleSinkLevelError_def ConsoleSinkLevelFatal_def

record ConsoleSinkConfig =
  con_Level :: string

record FileSystemSinkConfig =
  fsnk_Path :: string

record RedisSinkConfig =
  rsnk_Addr :: string
  rsnk_Password :: string
  rsnk_DB :: int
  rsnk_Channel :: string

record SSESinkConfig =
  sse_Port :: string
  sse_Path :: string

record EventServerConfig =
  esc_Port :: string
  esc_Path :: string

record SinkConfig =
  snk_ID :: ID
  snk_Type :: SinkType
  snk_MinBatchSize :: int
  snk_MaxBatchSize :: int
  snk_FlushInterval :: Duration
  snk_FlushThreshold :: int
  snk_Console :: ConsoleSinkConfig
  snk_Bucket :: BucketSinkConfig
  snk_FileSystem :: FileSystemSinkConfig
  snk_Redis :: RedisSinkConfig
  snk_SSE :: SSESinkConfig
  snk_Connector :: ConnectorConfig
  snk_Database :: DatabaseSinkConfig
  snk_Parquet :: ParquetSinkConfig

type_synonym PipelineType = string

definition PipelineTypeFeedMessage :: PipelineType where
  "PipelineTypeFeedMessage = ''feed_message''"
definition PipelineTypeVehiclePosition :: PipelineType where
  "PipelineTypeVehiclePosition = ''vehicle_position''"
definition PipelineTypeStopEvent :: PipelineType where "PipelineTypeStopEvent = ''stop_event''"
definition PipelineTypeDwellEvent :: PipelineType where "PipelineTypeDwellEvent = ''dwell_event''"
definition PipelineTypeHeadwayEvent :: PipelineType where
  "PipelineTypeHeadwayEvent = ''headway_event''"
definition PipelineTypeTravelTime :: PipelineType where "PipelineTypeTravelTime = ''travel_time''"

lemmas PipelineType_defs =
  PipelineTypeFeedMessage_def PipelineTypeVehiclePosition_def PipelineTypeStopEvent_def
  PipelineTypeDwellEvent_def PipelineTypeHeadwayEvent_def PipelineTypeTravelTime_def

record PipelineConfig =
  pl_ID :: ID
  pl_AgencyID :: ID
  pl_Type :: PipelineType
  pl_Sources :: "ID list"
  pl_StateStore :: ID
  pl_Sinks :: "ID list"

record GraphConfig =
  gc_Sources :: "(ID, SourceConfig) go_map"
  gc_StateStores :: "(ID, StateStoreConfig) go_map"
  gc_Connectors :: "(ID, unit) go_map"
  gc_Sinks :: "(ID, SinkConfig) go_map"
  gc_Pipelines :: "(ID, PipelineConfig) go_map"
  gc_Outlet :: "SinkConfig option"

text \<open>The zero values of the two structures the program builds itself.\<close>

definition SourceConfig_zero :: SourceConfig where
  "SourceConfig_zero =
     \<lparr>src_ID = [], src_Type = [], src_HTTP = \<lparr>http_URL = [], http_Interval = []\<rparr>,
      src_Bucket = \<lparr>bsrc_URL = [], bsrc_BucketName = []\<rparr>, src_FileSystem = \<lparr>fsrc_Path = []\<rparr>,
      src_Redis = \<lparr>rsrc_Addr = [], rsrc_Password = [], rsrc_DB = 0, rsrc_Channel = []\<rparr>,
      src_Connector = \<lparr>conn_ID = []\<rparr>\<rparr>"

definition SinkConfig_zero :: SinkConfig where
  "SinkConfig_zero =
     \<lparr>snk_ID = [], snk_Type = [], snk_MinBatchSize = 0, snk_MaxBatchSize = 0, snk_FlushInterval = 0,
      snk_FlushThreshold = 0, snk_Console = \<lparr>con_Level = []\<rparr>,
      snk_Bucket = \<lparr>bsnk_URL = [], bsnk_BucketName = []\<rparr>, snk_FileSystem = \<lparr>fsnk_Path = []\<rparr>,
      snk_Redis = \<lparr>rsnk_Addr = [], rsnk_Password = [], rsnk_DB = 0, rsnk_Channel = []\<rparr>,
      snk_SSE = \<lparr>sse_Port = [], sse_Path = []\<rparr>, snk_Connector = \<lparr>conn_ID = []\<rparr>,
      snk_Database = \<lparr>db_Driver = [], db_DSN = [], db_Schema = []\<rparr>,
      snk_Parquet = \<lparr>pq_BucketName = [], pq_Prefix = [], pq_EventType = [], pq_AWSRegion = [],
        pq_AWSEndpointURL = [], pq_AWSAccessKey = [], pq_AWSSecretKey = []\<rparr>\<rparr>"

section \<open>Validation\<close>

datatype config_error =
    HTTPURLRequired ID
  | HTTPIntervalRequired ID
  | InvalidHTTPInterval ID string
  | InvalidPipelineType ID string
  | SourceRequired ID
  | SinkRequired ID
  | UnknownSource ID ID
  | UnknownSink ID ID

definition validPipelineTypes :: "PipelineType \<Rightarrow> bool" where
  "validPipelineTypes ty \<longleftrightarrow>
     ty \<in> {PipelineTypeFeedMessage, PipelineTypeVehiclePosition, PipelineTypeStopEvent,
           PipelineTypeDwellEvent, PipelineTypeHeadwayEvent, PipelineTypeTravelTime}"

text \<open>A loop that returns at the first error of its body.\<close>

fun first_error :: "('a \<Rightarrow> 'e option) \<Rightarrow> 'a list \<Rightarrow> 'e option" where
  "first_error body [] = None"
| "first_error body (x # xs) =
     (case body x of Some e \<Rightarrow> Some e | None \<Rightarrow> first_error body xs)"

lemma first_error_None: "first_error body xs = None \<longleftrightarrow> (\<forall>x \<in> set xs. body x = None)"
  by (induction xs) (auto split: option.split)

lemma first_error_Some: "first_error body xs = Some e \<Longrightarrow> \<exists>x \<in> set xs. body x = Some e"
  by (induction xs) (auto split: option.splits)

lemma or_else_None [simp]:
  "(case x of None \<Rightarrow> y | Some e \<Rightarrow> Some e) = None \<longleftrightarrow> x = None \<and> y = None"
  by (cases x) auto

definition validate_source :: "ID \<times> SourceConfig \<Rightarrow> config_error option" where
  "validate_source entry =
     (case entry of (sid, src) \<Rightarrow>
        if src_Type src = SourceTypeHTTP then
          (if http_URL (src_HTTP src) = [] then Some (HTTPURLRequired sid)
           else if http_Interval (src_HTTP src) = [] then Some (HTTPIntervalRequired sid)
           else if ParseDuration (http_Interval (src_HTTP src)) = None
             then Some (InvalidHTTPInterval sid (http_Interval (src_HTTP src)))
           else None)
        else None)"

definition validate_pipeline :: "ID list \<Rightarrow> ID list \<Rightarrow> ID \<times> PipelineConfig \<Rightarrow> config_error option" where
  "validate_pipeline knownSources knownSinks entry =
     (case entry of (sid, p) \<Rightarrow>
        if \<not> validPipelineTypes (pl_Type p) then Some (InvalidPipelineType sid (pl_Type p))
        else if pl_Sources p = [] then Some (SourceRequired sid)
        else if pl_Sinks p = [] then Some (SinkRequired sid)
        else (case first_error (\<lambda>srcID. if srcID \<in> set knownSources then None
                                  else Some (UnknownSource sid srcID)) (pl_Sources p) of
           Some e \<Rightarrow> Some e
         | None \<Rightarrow>
             first_error (\<lambda>sinkID. if sinkID \<in> set knownSinks then None
                            else Some (UnknownSink sid sinkID)) (pl_Sinks p)))"

definition Validate :: "GraphConfig \<Rightarrow> config_error option" where
  "Validate g =
     (let knownSources = map_keys (gc_Sources g) @ map_keys (gc_Connectors g);
          knownSinks = map_keys (gc_Sinks g) @ map_keys (gc_Connectors g)
      in case first_error validate_source (entries (gc_Sources g)) of
           Some e \<Rightarrow> Some e
         | None \<Rightarrow> first_error (validate_pipeline knownSources knownSinks) (entries (gc_Pipelines g)))"

section \<open>Properties\<close>

definition known_source :: "GraphConfig \<Rightarrow> ID \<Rightarrow> bool" where
  "known_source g i \<longleftrightarrow> i \<in> set (map_keys (gc_Sources g)) \<union> set (map_keys (gc_Connectors g))"

definition known_sink :: "GraphConfig \<Rightarrow> ID \<Rightarrow> bool" where
  "known_sink g i \<longleftrightarrow> i \<in> set (map_keys (gc_Sinks g)) \<union> set (map_keys (gc_Connectors g))"

definition polls_well :: "SourceConfig \<Rightarrow> bool" where
  "polls_well src \<longleftrightarrow>
     (src_Type src = SourceTypeHTTP \<longrightarrow>
        http_URL (src_HTTP src) \<noteq> [] \<and> ParseDuration (http_Interval (src_HTTP src)) \<noteq> None)"

definition wired :: "GraphConfig \<Rightarrow> PipelineConfig \<Rightarrow> bool" where
  "wired g p \<longleftrightarrow>
     validPipelineTypes (pl_Type p) \<and> pl_Sources p \<noteq> [] \<and> pl_Sinks p \<noteq> [] \<and>
     list_all (known_source g) (pl_Sources p) \<and> list_all (known_sink g) (pl_Sinks p)"

lemma ParseDuration_empty [simp]: "ParseDuration [] = None"
  by (simp add: ParseDuration_def)

lemma validate_source_None: "validate_source e = None \<longleftrightarrow> polls_well (snd e)"
  by (cases e) (auto simp: validate_source_def polls_well_def)

lemma validate_pipeline_None:
  "validate_pipeline (map_keys (gc_Sources g) @ map_keys (gc_Connectors g))
     (map_keys (gc_Sinks g) @ map_keys (gc_Connectors g)) e = None \<longleftrightarrow> wired g (snd e)"
  by (cases e) (auto simp: validate_pipeline_def wired_def first_error_None known_source_def
      known_sink_def list_all_iff simp del: entries_def map_keys_def split: if_splits)

lemma Validate_None:
  "Validate g = None \<longleftrightarrow>
     list_all (\<lambda>(i, src). polls_well src) (entries (gc_Sources g)) \<and>
     list_all (\<lambda>(i, p). wired g p) (entries (gc_Pipelines g))"
  by (simp add: Validate_def Let_def first_error_None validate_source_None validate_pipeline_None
      list_all_iff case_prod_beta del: entries_def map_keys_def)

text \<open>
  Property C33. Validation accepts exactly the consistent configurations, in whatever order the
  maps are visited: every HTTP source has a URL and an interval that parses, and every
  pipeline has a known type, at least one source and one sink, and refers only to sources and
  sinks that are configured or are connectors.
\<close>

theorem Validate_exact:
  "Validate g = None \<longleftrightarrow>
     list_all (\<lambda>(i, src). polls_well src) (entries (gc_Sources g)) \<and>
     list_all (\<lambda>(i, p). wired g p) (entries (gc_Pipelines g))"
  by (rule Validate_None)

end
