(* ===== verification/Sources.thy ===== *)
theory Sources
  imports Events Streams Config
begin

text \<open>
  The sources of \<open>src/sources\<close>: the HTTP source polls a URL, the Redis source relays the messages of a
  channel, the connector source reads a connector; \<open>NewSource\<close> builds one from its configuration.
  The network is outside the repository: what a request or a subscription returns is part of the
  input of the loops.
\<close>

section \<open>The HTTP source\<close>

record HTTPSource =
  hs_cfg :: HTTPSourceConfig
  hs_interval :: Duration

definition NewHTTPSource :: "HTTPSourceConfig \<Rightarrow> string + HTTPSource" where
  "NewHTTPSource cfg =
     (case ParseDuration (http_Interval cfg) of
        None \<Rightarrow> Inl (''invalid polling interval '' @ http_Interval cfg)
      | Some duration \<Rightarrow> Inr \<lparr>hs_cfg = cfg, hs_interval = duration\<rparr>)"

text \<open>The outcome of a request: an error, or a status code and the body, if it can be read.\<close>

datatype http_response = Request_error | Response int "bytes option"

definition http_poll :: "unit \<Rightarrow> http_response \<Rightarrow> unit \<times> go_any list" where
  "http_poll st resp =
     (case resp of
        Request_error \<Rightarrow> (st, [])
      | Response code body \<Rightarrow>
          if code < 200 \<or> code \<ge> 300 then (st, [])
          else (case body of None \<Rightarrow> (st, []) | Some b \<Rightarrow> (st, [Any_bytes b])))"

text \<open>The goroutine; \<open>None\<close> is the panic of \<open>time.NewTicker\<close> on a non-positive interval.\<close>

definition http_init :: "HTTPSource \<Rightarrow> http_response select list \<Rightarrow> (go_any list \<times> bool) option" where
  "http_init s cs =
     (if sint (hs_interval s) \<le> 0 then None else Some (snd (select_loop http_poll () cs)))"

section \<open>The Redis source\<close>

text \<open>The client of the source and the channel its subscription is on.\<close>

record RedisSource =
  rsc_client :: redis_Options
  rsc_pubsub :: string

definition NewRedisSource :: "RedisSourceConfig \<Rightarrow> RedisSource" where
  "NewRedisSource cfg =
     \<lparr>rsc_client = \<lparr>ro_Addr = rsrc_Addr cfg, ro_Password = rsrc_Password cfg, ro_DB = rsrc_DB cfg\<rparr>,
      rsc_pubsub = rsrc_Channel cfg\<rparr>"

definition redis_source_handle :: "unit \<Rightarrow> bytes \<Rightarrow> unit \<times> go_any list" where
  "redis_source_handle st payload = (st, [Any_bytes payload])"

definition redis_source_init :: "bytes select list \<Rightarrow> go_any list \<times> bool" where
  "redis_source_init cs = snd (select_loop redis_source_handle () cs)"

section \<open>Construction\<close>

datatype Source =
    HTTP_source HTTPSource
  | Connector_source "ID option"
  | Redis_source RedisSource

definition NewConnectorSource :: "ConnectorConfig \<Rightarrow> (ID \<rightharpoonup> ID) \<Rightarrow> Source" where
  "NewConnectorSource cfg conns = Connector_source (conns (conn_ID cfg))"

definition NewSource :: "SourceConfig \<Rightarrow> (ID \<rightharpoonup> ID) \<Rightarrow> string + Source" where
  "NewSource cfg conns =
     (if src_Type cfg = SourceTypeHTTP then map_sum id HTTP_source (NewHTTPSource (src_HTTP cfg))
      else if src_Type cfg = SourceTypeConnector then Inr (NewConnectorSource (src_Connector cfg) conns)
      else if src_Type cfg = SourceTypeRedis then Inr (Redis_source (NewRedisSource (src_Redis cfg)))
      else Inl (''invalid source type: '' @ src_Type cfg))"

section \<open>Properties\<close>

text \<open>The body of a successful response.\<close>

definition success_body :: "http_response \<Rightarrow> bytes option" where
  "success_body resp =
     (case resp of
        Response code (Some b) \<Rightarrow> if 200 \<le> code \<and> code < 300 then Some b else None
      | _ \<Rightarrow> None)"

text \<open>
  With a positive interval the HTTP source emits exactly the bodies of the successful
  responses, in order, and survives every failed request; it never closes its output channel.
\<close>

lemma http_source_relays_successes:
  assumes "0 < sint (hs_interval s)"
  shows "http_init s (map InRecv rs) = Some (map Any_bytes (List.map_filter success_body rs), False)"
proof -
  have "select_loop http_poll () (map InRecv rs) =
      ((), map Any_bytes (List.map_filter success_body rs), False)"
    by (induction rs)
      (auto simp: http_poll_def success_body_def List.map_filter_simps Let_def
        split: http_response.split option.split)
  then show ?thesis using assms by (simp add: http_init_def)
qed

lemma http_source_cfg:
  "NewSource cfg conns = Inr (HTTP_source s) \<Longrightarrow>
   src_Type cfg = SourceTypeHTTP \<and> ParseDuration (http_Interval (src_HTTP cfg)) = Some (hs_interval s)"
  by (auto simp: NewSource_def NewHTTPSource_def NewConnectorSource_def split: if_splits option.splits)

lemma sint_minus_seconds:
  assumes "n * 1000000000 \<le> 2 ^ 63 - 1"
  shows "sint (- of_nat (n * 1000000000) :: int64) \<le> 0"
proof -
  have "of_nat (n * 1000000000) = (word_of_int (int (n * 1000000000)) :: int64)" by simp
  then show ?thesis
    using assms sint_word64_of_int [of "- int (n * 1000000000)"] by (simp flip: word_of_int_minus)
qed

text \<open>
  Validation lets non-positive polling intervals through: an interval \<open>0s\<close> or \<open>-ns\<close>,
  for a number \<open>n\<close> of seconds, is accepted, the source is built, and its goroutine panics in
  \<open>time.NewTicker\<close>.
\<close>

lemma nonpositive_interval_panics:
  assumes "n * 1000000000 \<le> 2 ^ 63 - 1" and "u \<noteq> []"
    and "iv = ''0s'' \<or> iv = ''-'' @ decimal n @ ''s''"
  shows "validate_source (i, SourceConfig_zero\<lparr>src_Type := SourceTypeHTTP,
      src_HTTP := \<lparr>http_URL = u, http_Interval = iv\<rparr>\<rparr>) = None \<and>
    (\<exists>s. NewHTTPSource \<lparr>http_URL = u, http_Interval = iv\<rparr> = Inr s \<and> http_init s cs = None)"
proof -
  have "decimal 0 = ''0''" by (simp add: decimal.simps digit_char_def)
  then have "\<exists>d. ParseDuration iv = Some d \<and> sint d \<le> 0"
    using assms(3) ParseDuration_seconds(1) [of 0] ParseDuration_seconds(2) [OF assms(1)]
      sint_minus_seconds [OF assms(1)] by auto
  moreover have "iv \<noteq> []" using assms(3) by auto
  ultimately show ?thesis
    using assms(2)
    by (auto simp: validate_source_def SourceConfig_zero_def NewHTTPSource_def http_init_def)
qed

end
