(* ===== verification/Civil_Date.thy ===== *)
theory Civil_Date
  imports Parse_Duration
begin

text \<open>
  Dates and clock times in UTC, as \<open>time.Time\<close> of the Go standard library computes them: the
  proleptic Gregorian calendar, in cycles of 400, 100, 4 and 1 years. A year is counted from
  March, so that the leap day is its last day. \<open>days_of_civil\<close> is the inverse.
\<close>

section \<open>The date of a day\<close>

text \<open>The year within the cycle of 400 years and the day of that year, from the day of the cycle.\<close>

definition cycle_year :: "int \<Rightarrow> int \<times> int" where
  "cycle_year doe =
     (let cent = min 3 (doe div 36524);
          doc = doe - cent * 36524;
          quad = doc div 1461;
          doq = doc - quad * 1461;
          yr = min 3 (doq div 365)
      in (cent * 100 + quad * 4 + yr, doq - yr * 365))"

text \<open>The year, month and day of the day with the given number, day 0 being January 1, 1970.\<close>

definition civil_of_days :: "int \<Rightarrow> int \<times> int \<times> int" where
  "civil_of_days z =
     (let (yoe, doy) = cycle_year ((z + 719468) mod 146097);
          y = yoe + (z + 719468) div 146097 * 400;
          mp = (5 * doy + 2) div 153;
          d = doy - (153 * mp + 2) div 5 + 1;
          m = (if mp < 10 then mp + 3 else mp - 9)
      in (if m \<le> 2 then y + 1 else y, m, d))"

definition days_of_civil :: "int \<times> int \<times> int \<Rightarrow> int" where
  "days_of_civil c =
     (case c of (y0, m, d) \<Rightarrow>
        let y = (if m \<le> 2 then y0 - 1 else y0);
            yoe = y mod 400;
            mp = (if m > 2 then m - 3 else m + 9);
            doy = (153 * mp + 2) div 5 + d - 1
        in y div 400 * 146097 + (yoe * 365 + yoe div 4 - yoe div 100 + doy) - 719468)"

lemma cycle_year_range:
  assumes "0 \<le> doe" and "doe < 146097" and "cycle_year doe = (yoe, doy)"
  shows "0 \<le> yoe" "yoe < 400" "0 \<le> doy" "doy \<le> 365"
    and "yoe * 365 + yoe div 4 - yoe div 100 + doy = doe"
proof -
  define cent where "cent = min 3 (doe div 36524)"
  define doc where "doc = doe - cent * 36524"
  define quad where "quad = doc div 1461"
  define doq where "doq = doc - quad * 1461"
  define yr where "yr = min 3 (doq div 365)"
  have y: "yoe = cent * 100 + quad * 4 + yr" "doy = doq - yr * 365"
    using assms(3) by (simp_all add: cycle_year_def Let_def cent_def doc_def quad_def doq_def yr_def)
  have cent: "0 \<le> cent" "cent \<le> 3" using assms(1) by (auto simp: cent_def)
  have doc: "0 \<le> doc" "doc < 36525" using assms(1,2) by (auto simp: doc_def cent_def min_def)
  have quad: "0 \<le> quad" "quad \<le> 24" using doc by (auto simp: quad_def)
  have doq: "0 \<le> doq" "doq < 1461" by (auto simp: doq_def quad_def minus_div_mult_eq_mod)
  have yr: "0 \<le> yr" "yr \<le> 3" using doq by (auto simp: yr_def)
  show "0 \<le> yoe" "yoe < 400" using y cent quad yr by auto
  show "0 \<le> doy" "doy \<le> 365" using y doq by (auto simp: yr_def min_def)
  have "yoe div 4 = cent * 25 + quad" "yoe div 100 = cent"
    using y cent quad yr by auto
  then show "yoe * 365 + yoe div 4 - yoe div 100 + doy = doe"
    using y by (simp add: doq_def doc_def)
qed

text \<open>Month and day lie in their ranges, and the date determines the day.\<close>

lemma civil_of_days_range:
  assumes "civil_of_days z = (y, m, d)"
  shows "1 \<le> m" "m \<le> 12" "1 \<le> d" "d \<le> 31"
proof -
  obtain yoe doy where c: "cycle_year ((z + 719468) mod 146097) = (yoe, doy)" by fastforce
  define mp where "mp = (5 * doy + 2) div 153"
  have doy: "0 \<le> doy" "doy \<le> 365" using cycle_year_range(3,4) [OF _ _ c] by simp_all
  then have mp: "0 \<le> mp" "mp \<le> 11" by (auto simp: mp_def)
  have "153 * mp \<le> 5 * doy + 2" "5 * doy + 2 < 153 * mp + 153"
    using div_mult_mod_eq [of "5 * doy + 2" 153] pos_mod_sign [of 153 "5 * doy + 2"] pos_mod_bound [of 153 "5 * doy + 2"]
    unfolding mp_def by linarith+
  then have day: "(153 * mp + 2) div 5 \<le> doy" "doy \<le> (153 * mp + 2) div 5 + 30" by linarith+
  have "m = (if mp < 10 then mp + 3 else mp - 9)" "d = doy - (153 * mp + 2) div 5 + 1"
    using assms unfolding civil_of_days_def c prod.case Let_def mp_def [symmetric] by simp_all
  then show "1 \<le> m" "m \<le> 12" "1 \<le> d" "d \<le> 31" using mp day by (auto split: if_splits)
qed

lemma days_of_civil_of_days: "days_of_civil (civil_of_days z) = z"
proof -
  obtain yoe doy where c: "cycle_year ((z + 719468) mod 146097) = (yoe, doy)" by fastforce
  define e where "e = (z + 719468) div 146097"
  define mp where "mp = (5 * doy + 2) div 153"
  have r: "0 \<le> yoe" "yoe < 400" "0 \<le> doy" "doy \<le> 365"
    and doe: "yoe * 365 + yoe div 4 - yoe div 100 + doy = (z + 719468) mod 146097"
    using cycle_year_range [OF _ _ c] by simp_all
  have z: "e * 146097 + (z + 719468) mod 146097 = z + 719468"
    unfolding e_def by (rule div_mult_mod_eq)
  have y: "(yoe + e * 400) div 400 = e" "(yoe + e * 400) mod 400 = yoe" using r by auto
  have mp: "0 \<le> mp" "mp \<le> 11" using r by (auto simp: mp_def)
  have "civil_of_days z = (let m = (if mp < 10 then mp + 3 else mp - 9)
      in (if m \<le> 2 then yoe + e * 400 + 1 else yoe + e * 400, m, doy - (153 * mp + 2) div 5 + 1))"
    by (simp add: civil_of_days_def c e_def mp_def Let_def)
  then have "days_of_civil (civil_of_days z) =
      e * 146097 + (yoe * 365 + yoe div 4 - yoe div 100 + doy) - 719468"
    using mp y by (cases "mp < 10") (simp_all add: days_of_civil_def Let_def)
  then show ?thesis using z doe by simp
qed

section \<open>Formatting\<close>

text \<open>Decimal numbers padded with zeros to a width.\<close>

definition pad :: "nat \<Rightarrow> nat \<Rightarrow> string" where
  "pad w n = replicate (w - length (decimal n)) (CHR ''0'') @ decimal n"

record civil_time =
  ct_Year :: int
  ct_Month :: int
  ct_Day :: int
  ct_Hour :: int
  ct_Minute :: int
  ct_Second :: int

definition civil_time :: "Time \<Rightarrow> civil_time" where
  "civil_time t =
     (let secs = t div Second_ns;
          (y, m, d) = civil_of_days (secs div 86400);
          s = secs mod 86400
      in \<lparr>ct_Year = y, ct_Month = m, ct_Day = d, ct_Hour = s div 3600,
          ct_Minute = s mod 3600 div 60, ct_Second = s mod 60\<rparr>)"

lemma civil_time_range:
  "1 \<le> ct_Month (civil_time t)" "ct_Month (civil_time t) \<le> 12"
  "1 \<le> ct_Day (civil_time t)" "ct_Day (civil_time t) \<le> 31"
  "0 \<le> ct_Hour (civil_time t)" "ct_Hour (civil_time t) < 24"
  "0 \<le> ct_Minute (civil_time t)" "ct_Minute (civil_time t) < 60"
  "0 \<le> ct_Second (civil_time t)" "ct_Second (civil_time t) < 60"
proof -
  obtain y m d where c: "civil_of_days (t div Second_ns div 86400) = (y, m, d)"
    by (cases "civil_of_days (t div Second_ns div 86400)") auto
  have "0 \<le> s mod 86400 div 3600 \<and> s mod 86400 div 3600 < 24" for s :: int
    using pos_mod_bound [of 86400 s] pos_mod_sign [of 86400 s] by (auto simp del: pos_mod_bound)
  then show "1 \<le> ct_Month (civil_time t)" "ct_Month (civil_time t) \<le> 12"
    "1 \<le> ct_Day (civil_time t)" "ct_Day (civil_time t) \<le> 31"
    "0 \<le> ct_Hour (civil_time t)" "ct_Hour (civil_time t) < 24"
    "0 \<le> ct_Minute (civil_time t)" "ct_Minute (civil_time t) < 60"
    "0 \<le> ct_Second (civil_time t)" "ct_Second (civil_time t) < 60"
    using civil_of_days_range [OF c] by (auto simp: civil_time_def c Let_def)
qed

lemma clock_parts: "r = r div 3600 * 3600 + r mod 3600 div 60 * 60 + r mod 60" for r :: int
proof -
  have "r mod 3600 mod 60 = r mod 60" by (rule mod_mod_cancel) simp
  then show ?thesis
    using div_mult_mod_eq [of r 3600] div_mult_mod_eq [of "r mod 3600" 60] by (metis add.assoc)
qed

text \<open>The second is recovered from the date and the clock time, so these determine it.\<close>

definition seconds_of :: "civil_time \<Rightarrow> int" where
  "seconds_of c =
     days_of_civil (ct_Year c, ct_Month c, ct_Day c) * 86400 + ct_Hour c * 3600 + ct_Minute c * 60 + ct_Second c"

lemma seconds_of_civil_time: "seconds_of (civil_time t) = t div Second_ns"
proof -
  let ?s = "t div Second_ns"
  obtain y m d where c: "civil_of_days (?s div 86400) = (y, m, d)"
    by (cases "civil_of_days (?s div 86400)") auto
  then have "days_of_civil (ct_Year (civil_time t), ct_Month (civil_time t), ct_Day (civil_time t)) = ?s div 86400"
    unfolding civil_time_def c Let_def prod.case civil_time.simps using days_of_civil_of_days [of "?s div 86400"] c by simp
  moreover have "ct_Hour (civil_time t) * 3600 + ct_Minute (civil_time t) * 60 + ct_Second (civil_time t) = ?s mod 86400"
    unfolding civil_time_def c Let_def prod.case civil_time.simps by (rule clock_parts [symmetric])
  ultimately show ?thesis
    unfolding seconds_of_def using div_mult_mod_eq [of ?s 86400] by linarith
qed

lemma civil_time_inj: "civil_time t = civil_time u \<Longrightarrow> t div Second_ns = u div Second_ns"
  by (metis seconds_of_civil_time)

lemma length_decimal: "0 < w \<Longrightarrow> n < 10 ^ w \<Longrightarrow> length (decimal n) \<le> w"
proof (induction n arbitrary: w rule: decimal.induct)
  case (1 n)
  show ?case
  proof (cases "n < 10")
    case True
    then show ?thesis using "1.prems" by (subst decimal.simps) simp
  next
    case False
    then obtain v where "w = Suc v" "0 < v"
      using "1.prems" by (cases w; cases "w - 1") auto
    then show ?thesis
      using "1.IH" [OF False, of v] "1.prems" False by (subst decimal.simps) auto
  qed
qed

lemma length_pad: "0 < w \<Longrightarrow> n < 10 ^ w \<Longrightarrow> length (pad w n) = w"
  using length_decimal [of w n] by (simp add: pad_def)

lemma digits_value_pad: "digits_value (pad w n) = n"
proof -
  have "digits_value (replicate k (CHR ''0'') @ s) = digits_value s" for k s
    by (induction k) (simp_all add: digits_value_def digit_value_def)
  then show ?thesis by (simp add: pad_def digits_value_decimal)
qed

lemma pad_inj: "pad w n = pad w m \<longleftrightarrow> n = m"
  by (metis digits_value_pad)

text \<open>The layout \<open>20060102_150405\<close>.\<close>

definition format_stamp :: "Time \<Rightarrow> string" where
  "format_stamp t =
     (let c = civil_time t
      in pad 4 (nat (ct_Year c)) @ pad 2 (nat (ct_Month c)) @ pad 2 (nat (ct_Day c)) @ ''_'' @
         pad 2 (nat (ct_Hour c)) @ pad 2 (nat (ct_Minute c)) @ pad 2 (nat (ct_Second c)))"

abbreviation four_digit_year :: "Time \<Rightarrow> bool" where
  "four_digit_year t \<equiv> 0 \<le> ct_Year (civil_time t) \<and> ct_Year (civil_time t) < 10000"

lemma format_stamp_inj:
  assumes "four_digit_year t" and "four_digit_year u" and "format_stamp t = format_stamp u"
  shows "t div Second_ns = u div Second_ns"
proof (rule civil_time_inj)
  have len: "length (pad 4 (nat (ct_Year (civil_time v)))) = 4"
    "length (pad 2 (nat (ct_Month (civil_time v)))) = 2"
    "length (pad 2 (nat (ct_Day (civil_time v)))) = 2"
    "length (pad 2 (nat (ct_Hour (civil_time v)))) = 2"
    "length (pad 2 (nat (ct_Minute (civil_time v)))) = 2" if "four_digit_year v" for v
    using that civil_time_range [of v] by (auto intro!: length_pad simp: nat_less_iff)
  show "civil_time t = civil_time u"
    using assms(3) len [OF assms(1)] len [OF assms(2)] civil_time_range [of t] civil_time_range [of u]
      assms(1,2)
    by (auto simp: format_stamp_def Let_def pad_inj eq_nat_nat_iff intro!: civil_time.equality)
qed

lemma length_format_stamp: "four_digit_year t \<Longrightarrow> length (format_stamp t) = 15"
  using civil_time_range [of t] by (simp add: format_stamp_def Let_def length_pad nat_less_iff)

end
