(* ===== verification/Event_Map.thy ===== *)
theory Event_Map
  imports Events Civil_Date
begin

text \<open>
  The flat view of events of \<open>src/api/v1/events/events.go\<close>, which the event server filters on and the
  log sink prints. A Go map of this kind is a HOL map. How a float is printed is a parameter;
  the other values are formatted as the verb \<open>%v\<close> does.
\<close>

section \<open>Values\<close>

datatype go_value =
    Val_string string
  | Val_int32 int32
  | Val_int64 int64
  | Val_uint64 uint64
  | Val_StopStatus StopStatus
  | Val_Time Time
  | Val_float go_float

type_synonym event_map = "string \<rightharpoonup> go_value"

definition StopStatus_String :: "StopStatus \<Rightarrow> string" where
  "StopStatus_String n = (case StopStatus_name n of Some s \<Rightarrow> s | None \<Rightarrow> decimal_int (sint n))"

text \<open>The default format of a UTC time; a fraction is printed without trailing zeros.\<close>

definition Time_String :: "Time \<Rightarrow> string" where
  "Time_String t =
     (let c = civil_time t;
          y = ct_Year c;
          ns = nat (time_nanosecond t);
          frac = (if ns = 0 then [] else ''.'' @ strings_TrimRight1 (pad 9 ns) CHR ''0'')
      in (if y < 0 then ''-'' @ pad 4 (nat (- y)) else pad 4 (nat y)) @ ''-'' @
         pad 2 (nat (ct_Month c)) @ ''-'' @ pad 2 (nat (ct_Day c)) @ '' '' @
         pad 2 (nat (ct_Hour c)) @ '':'' @ pad 2 (nat (ct_Minute c)) @ '':'' @
         pad 2 (nat (ct_Second c)) @ frac @ '' +0000 UTC'')"

definition sprint_v :: "(go_float \<Rightarrow> string) \<Rightarrow> go_value \<Rightarrow> string" where
  "sprint_v fmt_float v =
     (case v of
        Val_string s \<Rightarrow> s
      | Val_int32 n \<Rightarrow> decimal_int (sint n)
      | Val_int64 n \<Rightarrow> decimal_int (sint n)
      | Val_uint64 n \<Rightarrow> decimal (unat n)
      | Val_StopStatus n \<Rightarrow> StopStatus_String n
      | Val_Time t \<Rightarrow> Time_String t
      | Val_float f \<Rightarrow> fmt_float f)"

section \<open>The maps\<close>

definition attributes_list :: "platform \<Rightarrow> event \<Rightarrow> (string \<times> go_value) list" where
  "attributes_list pf e =
     (let a = event_GetAttributes e in
      [(''event_type'', Val_string (strings_TrimPrefix (event_T e) ''*events.'')),
       (''agency_id'', Val_string (GetAgencyId a)),
       (''vehicle_id'', Val_string (GetVehicleId a)),
       (''route_id'', Val_string (GetRouteId a)),
       (''stop_id'', Val_string (GetStopId a)),
       (''origin_stop_id'', Val_string (GetOriginStopId a)),
       (''destination_stop_id'', Val_string (GetDestinationStopId a)),
       (''direction_id'', Val_string (GetDirectionId a)),
       (''direction'', Val_string (GetDirection a)),
       (''direction_destination'', Val_string (GetDirectionDestination a)),
       (''parent_station'', Val_string (GetParentStation a)),
       (''stop_sequence'', Val_int32 (GetStopSequence a)),
       (''stop_status'', Val_StopStatus (GetStopStatus a)),
       (''trip_id'', Val_string (GetTripId a)),
       (''service_date'', Val_string (GetServiceDate a)),
       (''timestamp'', Val_Time (AsTime pf (GetTimestamp a)))])"

definition GetEventAttributesMap :: "platform \<Rightarrow> event \<Rightarrow> event_map" where
  "GetEventAttributesMap pf e = map_of (attributes_list pf e)"

definition unix_of :: "platform \<Rightarrow> Timestamp option \<Rightarrow> go_value" where
  "unix_of pf ts = Val_int64 (time_unix_seconds (AsTime pf ts))"

text \<open>The five methods \<open>GetValues\<close>.\<close>

definition values_list :: "platform \<Rightarrow> event \<Rightarrow> (string \<times> go_value) list" where
  "values_list pf e =
     (case e of
        VehiclePosition_event v \<Rightarrow>
          [(''latitude'', Val_float (VehiclePositionEvent_GetLatitude v)),
           (''longitude'', Val_float (VehiclePositionEvent_GetLongitude v))]
      | Stop_event v \<Rightarrow>
          [(''stop_event_type'', Val_string (EventType_String (StopEvent_GetStopEventType v)))]
      | Dwell_event v \<Rightarrow>
          [(''arrival_time'', unix_of pf (DwellTimeEvent_GetArrivalTime v)),
           (''departure_time'', unix_of pf (DwellTimeEvent_GetDepartureTime v)),
           (''dwell_time_seconds'', Val_int32 (DwellTimeEvent_GetDwellTimeSeconds v))]
      | Headway_event v \<Rightarrow>
          [(''leading_vehicle_id'', Val_string (HeadwayTimeEvent_GetLeadingVehicleId v)),
           (''following_vehicle_id'', Val_string (HeadwayTimeEvent_GetFollowingVehicleId v)),
           (''headway_time_seconds'', Val_int32 (HeadwayTimeEvent_GetHeadwaySeconds v))]
      | Travel_event v \<Rightarrow>
          [(''start_time'', unix_of pf (TravelTimeEvent_GetStartTime v)),
           (''end_time'', unix_of pf (TravelTimeEvent_GetEndTime v)),
           (''travel_time_seconds'', Val_int32 (TravelTimeEvent_GetTravelTimeSeconds v))])"

definition GetEventValuesMap :: "platform \<Rightarrow> event \<Rightarrow> event_map" where
  "GetEventValuesMap pf e = map_of (values_list pf e)"

definition GetEventMap :: "platform \<Rightarrow> event \<Rightarrow> event_map" where
  "GetEventMap pf e = GetEventAttributesMap pf e ++ GetEventValuesMap pf e"

text \<open>
  The attributes of a feed message, which is not one of the events above. The method reads
  the fields directly, so a nil event or one without a message is a panic, \<open>None\<close>.
\<close>

definition FeedMessageEvent_GetAttributes :: "FeedMessageEvent option \<Rightarrow> event_map option" where
  "FeedMessageEvent_GetAttributes e =
     (case e of
        None \<Rightarrow> None
      | Some ev \<Rightarrow>
          (case fme_FeedMessage ev of
             None \<Rightarrow> None
           | Some msg \<Rightarrow>
               Some [''agency_id'' \<mapsto> Val_string (fme_AgencyId ev),
                     ''timestamp'' \<mapsto> Val_uint64 (gtfs_header_GetTimestamp (gtfs_header msg))]))"

section \<open>Properties\<close>

lemma FeedMessageEvent_GetAttributes_panics:
  "FeedMessageEvent_GetAttributes e = None \<longleftrightarrow> FeedMessageEvent_GetFeedMessage e = None"
  by (simp add: FeedMessageEvent_GetAttributes_def split: option.split)

lemma event_map_disjoint:
  "dom (GetEventAttributesMap pf e) \<inter> dom (GetEventValuesMap pf e) = {}"
  by (cases e) (simp_all add: GetEventAttributesMap_def GetEventValuesMap_def attributes_list_def
      values_list_def dom_map_of_conv_image_fst Let_def)

lemma event_map_attribute:
  "k \<in> dom (GetEventAttributesMap pf e) \<Longrightarrow> GetEventMap pf e k = GetEventAttributesMap pf e k"
  using event_map_disjoint [of pf e] by (auto simp: GetEventMap_def map_add_def split: option.split)

text \<open>
  Merging loses nothing: the values of an event never overwrite one of its attributes,
  so the combined map agrees with both parts, and it has exactly the keys of the two.
\<close>

lemma event_map_exact:
  "GetEventAttributesMap pf e \<subseteq>\<^sub>m GetEventMap pf e \<and> GetEventValuesMap pf e \<subseteq>\<^sub>m GetEventMap pf e \<and>
   dom (GetEventMap pf e) = dom (GetEventAttributesMap pf e) \<union> dom (GetEventValuesMap pf e)"
  using event_map_attribute [of _ pf e]
  by (auto simp: map_le_def GetEventMap_def)

end
