(* ===== verification/Event_Server.thy ===== *)
theory Event_Server
  imports Event_Map "HOL-Library.AList" "HOL-Library.Sublist"
begin

text \<open>
  The server of \<open>src/event_server/event_server.go\<close>, which fans events out to subscribers over
  server-sent events. The HTTP layer is not modelled; its part of the protocol is: a request
  subscribes, receives from its channel, and unsubscribes once when it ends.

  \<^item> A subscriber's channel is a buffer of sixteen messages that may be closed; the channels live in
    the server state under the id of their subscriber, since both the map of clients and the
    request handler hold them.
  \<^item> \<open>Subscribe\<close>, \<open>Unsubscribe\<close> and \<open>Broadcast\<close> are the methods, each atomic under the mutex. A send
    on a closed channel and a second close panic: the result is then \<open>None\<close>.
  \<^item> \<open>es_step\<close> is the step relation of a server with its request handlers, \<open>es_run\<close> its runs. Ids
    are fresh, as random UUIDs are.
  \<^item> A subscription is specified as a bounded queue: \<open>wanted\<close> are the broadcasts that match its
    filter, \<open>received_by\<close> the messages its handler took, \<open>keeps_up\<close> says that never more than
    sixteen are pending.
\<close>

section \<open>Channels and subscribers\<close>

type_synonym SubscriberId = string
type_synonym subscription = "(string \<times> string) list"

record 'm channel =
  ch_buf :: "'m list"
  ch_closed :: bool

abbreviation channel_capacity :: nat where
  "channel_capacity \<equiv> 16"

definition make_channel :: "'m channel" where
  "make_channel = \<lparr>ch_buf = [], ch_closed = False\<rparr>"

text \<open>The \<open>select\<close> with a send and a \<open>default\<close>.\<close>

definition chan_try_send :: "'m channel \<Rightarrow> 'm \<Rightarrow> 'm channel option" where
  "chan_try_send ch m =
     (if ch_closed ch then None
      else if length (ch_buf ch) < channel_capacity then Some (ch\<lparr>ch_buf := ch_buf ch @ [m]\<rparr>)
      else Some ch)"

definition chan_close :: "'m channel \<Rightarrow> 'm channel option" where
  "chan_close ch = (if ch_closed ch then None else Some (ch\<lparr>ch_closed := True\<rparr>))"

record Subscriber =
  sub_ID :: SubscriberId
  sub_Subscription :: subscription

record EventServer =
  es_clients :: "(SubscriberId \<times> Subscriber) list"
  es_channels :: "SubscriberId \<rightharpoonup> event_map channel"

definition NewEventServer :: EventServer where
  "NewEventServer = \<lparr>es_clients = [], es_channels = Map.empty\<rparr>"

definition NewSubscriber :: "SubscriberId \<Rightarrow> subscription \<Rightarrow> Subscriber \<times> event_map channel" where
  "NewSubscriber i sub = (\<lparr>sub_ID = i, sub_Subscription = sub\<rparr>, make_channel)"

section \<open>The methods\<close>

definition Subscribe :: "SubscriberId \<Rightarrow> subscription \<Rightarrow> EventServer \<Rightarrow> EventServer \<times> Subscriber" where
  "Subscribe newId sub es =
     (let (client, ch) = NewSubscriber newId sub
      in (es\<lparr>es_clients := AList.update (sub_ID client) client (es_clients es),
             es_channels := (es_channels es)(sub_ID client \<mapsto> ch)\<rparr>, client))"

definition Unsubscribe :: "Subscriber \<Rightarrow> EventServer \<Rightarrow> EventServer option" where
  "Unsubscribe client es =
     (let es' = es\<lparr>es_clients := AList.delete (sub_ID client) (es_clients es)\<rparr>
      in case es_channels es' (sub_ID client) of
           None \<Rightarrow> None
         | Some ch \<Rightarrow>
             (case chan_close ch of
                None \<Rightarrow> None
              | Some ch' \<Rightarrow> Some (es'\<lparr>es_channels := (es_channels es')(sub_ID client \<mapsto> ch')\<rparr>)))"

definition matches :: "(go_float \<Rightarrow> string) \<Rightarrow> subscription \<Rightarrow> event_map \<Rightarrow> bool" where
  "matches fmt_float sub eventMap =
     list_all (\<lambda>(k, v). case eventMap k of None \<Rightarrow> False | Some eventVal \<Rightarrow> v = sprint_v fmt_float eventVal)
       sub"

text \<open>The loop over the clients.\<close>

fun broadcast_loop ::
    "(go_float \<Rightarrow> string) \<Rightarrow> event_map \<Rightarrow> (SubscriberId \<times> Subscriber) list \<Rightarrow>
     (SubscriberId \<rightharpoonup> event_map channel) \<Rightarrow> (SubscriberId \<rightharpoonup> event_map channel) option" where
  "broadcast_loop fmt_float m [] chans = Some chans"
| "broadcast_loop fmt_float m ((i, client) # cs) chans =
     (if matches fmt_float (sub_Subscription client) m then
        (case chans (sub_ID client) of
           None \<Rightarrow> None
         | Some ch \<Rightarrow>
             (case chan_try_send ch m of
                None \<Rightarrow> None
              | Some ch' \<Rightarrow> broadcast_loop fmt_float m cs (chans(sub_ID client \<mapsto> ch'))))
      else broadcast_loop fmt_float m cs chans)"

definition Broadcast ::
    "(go_float \<Rightarrow> string) \<Rightarrow> platform \<Rightarrow> event \<Rightarrow> EventServer \<Rightarrow> EventServer option" where
  "Broadcast fmt_float pf event es =
     map_option (\<lambda>chans. es\<lparr>es_channels := chans\<rparr>)
       (broadcast_loop fmt_float (GetEventMap pf event) (es_clients es) (es_channels es))"

text \<open>The reception in the loop of \<open>handleSSE\<close>; with an empty buffer it blocks.\<close>

definition handler_receive :: "Subscriber \<Rightarrow> EventServer \<Rightarrow> (EventServer \<times> event_map) option" where
  "handler_receive client es =
     (case es_channels es (sub_ID client) of
        Some ch \<Rightarrow>
          (case ch_buf ch of
             [] \<Rightarrow> None
           | m # ms \<Rightarrow> Some (es\<lparr>es_channels := (es_channels es)(sub_ID client \<mapsto> ch\<lparr>ch_buf := ms\<rparr>)\<rparr>, m))
      | None \<Rightarrow> None)"

section \<open>The server with its handlers\<close>

datatype es_label =
    Act_subscribe SubscriberId subscription
  | Act_unsubscribe SubscriberId
  | Act_broadcast event
  | Act_receive SubscriberId event_map
  | Act_panic

inductive es_step ::
    "(go_float \<Rightarrow> string) \<Rightarrow> platform \<Rightarrow> EventServer \<Rightarrow> es_label \<Rightarrow> EventServer \<Rightarrow> bool"
  for fmt_float pf where
  subscribe: "es_channels es i = None \<Longrightarrow>
    es_step fmt_float pf es (Act_subscribe i sub) (fst (Subscribe i sub es))"
| unsubscribe: "(i, client) \<in> set (es_clients es) \<Longrightarrow> Unsubscribe client es = Some es' \<Longrightarrow>
    es_step fmt_float pf es (Act_unsubscribe i) es'"
| unsubscribe_panic: "(i, client) \<in> set (es_clients es) \<Longrightarrow> Unsubscribe client es = None \<Longrightarrow>
    es_step fmt_float pf es Act_panic es"
| broadcast: "Broadcast fmt_float pf e es = Some es' \<Longrightarrow>
    es_step fmt_float pf es (Act_broadcast e) es'"
| broadcast_panic: "Broadcast fmt_float pf e es = None \<Longrightarrow>
    es_step fmt_float pf es Act_panic es"
| receive: "(i, client) \<in> set (es_clients es) \<Longrightarrow> handler_receive client es = Some (es', m) \<Longrightarrow>
    es_step fmt_float pf es (Act_receive i m) es'"

inductive es_run ::
    "(go_float \<Rightarrow> string) \<Rightarrow> platform \<Rightarrow> EventServer \<Rightarrow> es_label list \<Rightarrow> EventServer \<Rightarrow> bool"
  for fmt_float pf where
  nil: "es_run fmt_float pf es [] es"
| snoc: "es_run fmt_float pf es ls es' \<Longrightarrow> es_step fmt_float pf es' l es'' \<Longrightarrow>
    es_run fmt_float pf es (ls @ [l]) es''"

section \<open>The invariant\<close>

text \<open>
  Clients are listed once, under their own id, and each has an open channel within its capacity.
\<close>

definition open_channel :: "EventServer \<Rightarrow> SubscriberId \<Rightarrow> bool" where
  "open_channel es i =
     (case es_channels es i of
        None \<Rightarrow> False
      | Some ch \<Rightarrow> \<not> ch_closed ch \<and> length (ch_buf ch) \<le> channel_capacity)"

definition es_inv :: "EventServer \<Rightarrow> bool" where
  "es_inv es \<longleftrightarrow> distinct (map fst (es_clients es)) \<and>
     list_all (\<lambda>(i, c). sub_ID c = i \<and> open_channel es i) (es_clients es)"

lemma es_inv_new: "es_inv NewEventServer"
  by (simp add: es_inv_def NewEventServer_def)

lemma es_inv_client:
  assumes "es_inv es" and "(i, c) \<in> set (es_clients es)"
  shows "sub_ID c = i" and "\<exists>ch. es_channels es i = Some ch \<and> \<not> ch_closed ch \<and>
    length (ch_buf ch) \<le> channel_capacity"
proof -
  have "(\<lambda>(i, c). sub_ID c = i \<and> open_channel es i) (i, c)"
    using assms unfolding es_inv_def list_all_iff by blast
  then show "sub_ID c = i" and "\<exists>ch. es_channels es i = Some ch \<and> \<not> ch_closed ch \<and>
    length (ch_buf ch) \<le> channel_capacity"
    by (auto simp: open_channel_def split: option.splits)
qed

text \<open>What a broadcast does to the channels.\<close>

definition offered :: "(go_float \<Rightarrow> string) \<Rightarrow> event_map \<Rightarrow> Subscriber \<Rightarrow> event_map channel \<Rightarrow> event_map channel" where
  "offered fmt_float m c ch =
     (if matches fmt_float (sub_Subscription c) m \<and> length (ch_buf ch) < channel_capacity
      then ch\<lparr>ch_buf := ch_buf ch @ [m]\<rparr> else ch)"

lemma broadcast_loop_effect:
  assumes "distinct (map fst cs)"
    and "\<forall>(i, c) \<in> set cs. sub_ID c = i \<and> (\<exists>ch. chans i = Some ch \<and> \<not> ch_closed ch)"
  shows "\<exists>chans'. broadcast_loop fmt_float m cs chans = Some chans' \<and>
    (\<forall>i. chans' i = (case map_of cs i of None \<Rightarrow> chans i | Some c \<Rightarrow> map_option (offered fmt_float m c) (chans i)))"
  using assms
proof (induction cs arbitrary: chans)
  case Nil
  then show ?case by simp
next
  case (Cons p cs)
  obtain j c where p: "p = (j, c)" by fastforce
  with Cons.prems obtain ch where j: "sub_ID c = j" "chans j = Some ch" "\<not> ch_closed ch"
      "j \<notin> fst ` set cs" by auto
  show ?case
  proof (cases "matches fmt_float (sub_Subscription c) m")
    case True
    then have send: "chan_try_send ch m = Some (offered fmt_float m c ch)"
      using j by (simp add: chan_try_send_def offered_def)
    have "\<exists>chans'. broadcast_loop fmt_float m cs (chans(j \<mapsto> offered fmt_float m c ch)) = Some chans' \<and>
      (\<forall>i. chans' i = (case map_of cs i of None \<Rightarrow> (chans(j \<mapsto> offered fmt_float m c ch)) i
         | Some c' \<Rightarrow> map_option (offered fmt_float m c') ((chans(j \<mapsto> offered fmt_float m c ch)) i)))"
      by (rule Cons.IH) (use Cons.prems j in \<open>auto simp: p offered_def image_iff\<close>)
    moreover have "map_of cs j = None" using j by (simp add: map_of_eq_None_iff)
    ultimately show ?thesis
      using True send j by (auto simp: p split: option.split)
  next
    case False
    have "\<exists>chans'. broadcast_loop fmt_float m cs chans = Some chans' \<and>
      (\<forall>i. chans' i = (case map_of cs i of None \<Rightarrow> chans i
         | Some c' \<Rightarrow> map_option (offered fmt_float m c') (chans i)))"
      by (rule Cons.IH) (use Cons.prems in \<open>auto simp: p\<close>)
    moreover have "map_of cs j = None" using j by (simp add: map_of_eq_None_iff)
    moreover have "offered fmt_float m c ch = ch" using False by (simp add: offered_def)
    ultimately show ?thesis
      using False j by (auto simp: p split: option.split)
  qed
qed

lemma offered_simps [simp]:
  "ch_closed (offered fmt_float m c ch) = ch_closed ch"
  "length (ch_buf (offered fmt_float m c ch)) \<le> channel_capacity \<longleftrightarrow> length (ch_buf ch) \<le> channel_capacity"
  by (simp_all add: offered_def)

lemma Broadcast_effect:
  assumes "es_inv es"
  shows "\<exists>chans'. Broadcast fmt_float pf e es = Some (es\<lparr>es_channels := chans'\<rparr>) \<and>
    (\<forall>i. chans' i = (case map_of (es_clients es) i of None \<Rightarrow> es_channels es i
       | Some c \<Rightarrow> map_option (offered fmt_float (GetEventMap pf e) c) (es_channels es i)))"
proof -
  have "distinct (map fst (es_clients es))" using assms by (simp add: es_inv_def)
  moreover have "\<forall>(i, c) \<in> set (es_clients es). sub_ID c = i \<and>
      (\<exists>ch. es_channels es i = Some ch \<and> \<not> ch_closed ch)"
    using es_inv_client [OF assms] by blast
  ultimately obtain chans' where
      "broadcast_loop fmt_float (GetEventMap pf e) (es_clients es) (es_channels es) = Some chans'"
      "\<forall>i. chans' i = (case map_of (es_clients es) i of None \<Rightarrow> es_channels es i
       | Some c \<Rightarrow> map_option (offered fmt_float (GetEventMap pf e) c) (es_channels es i))"
    using broadcast_loop_effect [of "es_clients es" "es_channels es" fmt_float "GetEventMap pf e"] by blast
  then show ?thesis by (intro exI [of _ chans'] conjI) (simp_all add: Broadcast_def)
qed

lemma es_inv_broadcast:
  assumes "es_inv es" and "Broadcast fmt_float pf e es = Some es'"
  shows "es_inv es'"
proof -
  obtain chans' where es': "es' = es\<lparr>es_channels := chans'\<rparr>"
    and chans: "\<And>i. chans' i = (case map_of (es_clients es) i of None \<Rightarrow> es_channels es i
       | Some c \<Rightarrow> map_option (offered fmt_float (GetEventMap pf e) c) (es_channels es i))"
    using Broadcast_effect [OF assms(1), of fmt_float pf e] assms(2) by auto
  have "open_channel es i \<Longrightarrow> open_channel es' i" for i
    by (auto simp: open_channel_def es' chans split: option.splits)
  then show ?thesis using assms(1) by (auto simp: es_inv_def es' list_all_iff)
qed

lemma update_fresh: "i \<notin> fst ` set al \<Longrightarrow> AList.update i v al = al @ [(i, v)]"
  by (induction al) auto

lemma fresh_client:
  assumes "es_inv es" and "es_channels es i = None"
  shows "i \<notin> fst ` set (es_clients es)"
  using es_inv_client(2) [OF assms(1), of i] assms(2) by fastforce

lemma es_inv_subscribe:
  assumes "es_inv es" and "es_channels es i = None"
  shows "es_inv (fst (Subscribe i sub es))"
proof -
  let ?es' = "fst (Subscribe i sub es)"
  have cl: "es_clients ?es' = es_clients es @ [(i, \<lparr>sub_ID = i, sub_Subscription = sub\<rparr>)]"
    using fresh_client [OF assms] by (simp add: Subscribe_def NewSubscriber_def update_fresh)
  have "open_channel es j \<Longrightarrow> open_channel ?es' j" "open_channel ?es' i" for j
    using assms(2) by (auto simp: open_channel_def Subscribe_def NewSubscriber_def make_channel_def)
  then show ?thesis
    using assms(1) fresh_client [OF assms] by (auto simp: es_inv_def cl list_all_iff)
qed

lemma Unsubscribe_client:
  assumes "es_inv es" and "(i, c) \<in> set (es_clients es)"
  shows "\<exists>ch. es_channels es i = Some ch \<and> Unsubscribe c es =
    Some (es\<lparr>es_clients := AList.delete i (es_clients es),
             es_channels := (es_channels es)(i \<mapsto> ch\<lparr>ch_closed := True\<rparr>)\<rparr>)"
proof -
  obtain ch where "es_channels es i = Some ch" "\<not> ch_closed ch"
    using es_inv_client(2) [OF assms] by blast
  then show ?thesis
    by (simp add: Unsubscribe_def chan_close_def Let_def es_inv_client(1) [OF assms])
qed

lemma es_inv_unsubscribe:
  assumes "es_inv es" and "(i, c) \<in> set (es_clients es)" and "Unsubscribe c es = Some es'"
  shows "es_inv es'"
proof -
  obtain ch where es': "es' = es\<lparr>es_clients := AList.delete i (es_clients es),
             es_channels := (es_channels es)(i \<mapsto> ch\<lparr>ch_closed := True\<rparr>)\<rparr>"
    using Unsubscribe_client [OF assms(1,2)] assms(3) by auto
  have "open_channel es j \<Longrightarrow> j \<noteq> i \<Longrightarrow> open_channel es' j" for j
    by (simp add: open_channel_def es')
  then show ?thesis
    using assms(1) by (auto simp: es_inv_def es' list_all_iff AList.delete_eq distinct_map inj_on_def)
qed

lemma handler_receive_client:
  assumes "es_inv es" and "(i, c) \<in> set (es_clients es)" and "handler_receive c es = Some (es', m)"
  shows "\<exists>ch ms. es_channels es i = Some ch \<and> ch_buf ch = m # ms \<and>
    es' = es\<lparr>es_channels := (es_channels es)(i \<mapsto> ch\<lparr>ch_buf := ms\<rparr>)\<rparr>"
proof -
  obtain ch where "es_channels es i = Some ch" using es_inv_client(2) [OF assms(1,2)] by blast
  then show ?thesis
    using assms(3) es_inv_client(1) [OF assms(1,2)]
    by (auto simp: handler_receive_def split: list.splits)
qed

lemma es_inv_receive:
  assumes "es_inv es" and "(i, c) \<in> set (es_clients es)" and "handler_receive c es = Some (es', m)"
  shows "es_inv es'"
proof -
  obtain ch ms where ch: "es_channels es i = Some ch" "ch_buf ch = m # ms"
      "es' = es\<lparr>es_channels := (es_channels es)(i \<mapsto> ch\<lparr>ch_buf := ms\<rparr>)\<rparr>"
    using handler_receive_client [OF assms] by blast
  have "open_channel es j \<Longrightarrow> open_channel es' j" for j
    using ch by (auto simp: open_channel_def)
  then show ?thesis using assms(1) ch(3) by (auto simp: es_inv_def list_all_iff)
qed

lemma es_step_inv:
  assumes "es_step fmt_float pf es l es'" and "es_inv es"
  shows "es_inv es' \<and> l \<noteq> Act_panic"
  using assms(1)
proof (cases rule: es_step.cases)
  case (unsubscribe_panic i client)
  then show ?thesis using Unsubscribe_client [OF assms(2), of i client] by auto
next
  case (broadcast_panic e)
  then show ?thesis using Broadcast_effect [OF assms(2), of fmt_float pf e] by auto
qed (use assms(2) in \<open>auto intro: es_inv_subscribe es_inv_unsubscribe es_inv_broadcast es_inv_receive\<close>)

lemma es_run_inv:
  "es_run fmt_float pf es ls es' \<Longrightarrow> es_inv es \<Longrightarrow> es_inv es' \<and> Act_panic \<notin> set ls"
  by (induction rule: es_run.induct) (auto dest: es_step_inv)

text \<open>
  Property C8. The server never panics: in no interleaving of subscriptions, broadcasts,
  receptions and the final unsubscription of each request does it send on a closed channel or
  close one twice; and every subscriber's channel is open with at most sixteen messages pending.
\<close>

theorem event_server_never_panics:
  assumes "es_run fmt_float pf NewEventServer ls es"
  shows "Act_panic \<notin> set ls \<and> es_inv es"
  using es_run_inv [OF assms es_inv_new] by blast

theorem event_server_never_panics_witness:
  "es_inv (fst (Subscribe ''u1'' [] NewEventServer))"
proof -
  have "es_run (\<lambda>_. []) reference_platform NewEventServer ([] @ [Act_subscribe ''u1'' []])
      (fst (Subscribe ''u1'' [] NewEventServer))"
    by (rule es_run.snoc [OF es_run.nil]) (rule es_step.subscribe, simp add: NewEventServer_def)
  from event_server_never_panics [OF this] show ?thesis by blast
qed

section \<open>A subscription is a bounded queue\<close>

text \<open>The messages received on a subscription, and the broadcasts it asks for.\<close>

fun received_by :: "SubscriberId \<Rightarrow> es_label list \<Rightarrow> event_map list" where
  "received_by i [] = []"
| "received_by i (Act_receive j m # ls) = (if j = i then m # received_by i ls else received_by i ls)"
| "received_by i (l # ls) = received_by i ls"

fun wanted :: "(go_float \<Rightarrow> string) \<Rightarrow> platform \<Rightarrow> subscription \<Rightarrow> es_label list \<Rightarrow> event_map list" where
  "wanted fmt_float pf sub [] = []"
| "wanted fmt_float pf sub (Act_broadcast e # ls) =
     (if matches fmt_float sub (GetEventMap pf e) then [GetEventMap pf e] else []) @ wanted fmt_float pf sub ls"
| "wanted fmt_float pf sub (l # ls) = wanted fmt_float pf sub ls"

lemma received_by_append: "received_by i (ls @ ls') = received_by i ls @ received_by i ls'"
  by (induction i ls rule: received_by.induct) auto

lemma wanted_append:
  "wanted fmt_float pf sub (ls @ ls') = wanted fmt_float pf sub ls @ wanted fmt_float pf sub ls'"
  by (induction fmt_float pf sub ls rule: wanted.induct) auto

text \<open>At every moment at most sixteen wanted messages have not been received.\<close>

definition keeps_up :: "(go_float \<Rightarrow> string) \<Rightarrow> platform \<Rightarrow> SubscriberId \<Rightarrow> subscription \<Rightarrow> es_label list \<Rightarrow> bool" where
  "keeps_up fmt_float pf i sub ls \<longleftrightarrow>
     (\<forall>n \<le> length ls. length (wanted fmt_float pf sub (take n ls)) \<le>
        length (received_by i (take n ls)) + channel_capacity)"

lemma keeps_up_snoc:
  "keeps_up fmt_float pf i sub (ls @ [l]) \<Longrightarrow> keeps_up fmt_float pf i sub ls \<and>
   length (wanted fmt_float pf sub (ls @ [l])) \<le> length (received_by i (ls @ [l])) + channel_capacity"
  unfolding keeps_up_def by (auto dest: spec [of _ "length ls + 1"]) (metis le_SucI take_append take_all
      append_Nil2 diff_is_0_eq take_0)

text \<open>One step as the subscription sees it: what it receives comes off the front of its buffer and
  a wanted broadcast goes to the end, unless the buffer is full.\<close>

lemma subscription_step:
  assumes step: "es_step fmt_float pf es l es'" and inv: "es_inv es"
    and c: "(i, c) \<in> set (es_clients es)" and ch: "es_channels es i = Some ch"
    and l: "l \<noteq> Act_unsubscribe i"
  shows "(i, c) \<in> set (es_clients es') \<and> (\<exists>ch'. es_channels es' i = Some ch' \<and>
    (received_by i [l] @ ch_buf ch' = ch_buf ch @ wanted fmt_float pf (sub_Subscription c) [l] \<or>
     received_by i [l] = [] \<and> ch_buf ch' = ch_buf ch \<and> channel_capacity \<le> length (ch_buf ch)))"
  using step
proof (cases rule: es_step.cases)
  case (subscribe j sub)
  then have "j \<noteq> i" using ch by auto
  then show ?thesis
    using subscribe c ch fresh_client [OF inv subscribe(3)]
    by (simp add: Subscribe_def NewSubscriber_def update_fresh)
next
  case (unsubscribe j d)
  then show ?thesis
    using Unsubscribe_client [OF inv unsubscribe(2)] c ch l by (auto simp: AList.delete_eq)
next
  case (broadcast e)
  obtain chans' where es': "es' = es\<lparr>es_channels := chans'\<rparr>"
    and chans: "chans' i = (case map_of (es_clients es) i of None \<Rightarrow> es_channels es i
       | Some c \<Rightarrow> map_option (offered fmt_float (GetEventMap pf e) c) (es_channels es i))"
    using Broadcast_effect [OF inv, of fmt_float pf e] broadcast(2) by auto
  have "map_of (es_clients es) i = Some c"
    using inv c by (simp add: es_inv_def)
  then show ?thesis
    using broadcast(1) c ch by (auto simp: es' chans offered_def)
next
  case (receive j d m)
  obtain ch2 ms where r: "es_channels es j = Some ch2" "ch_buf ch2 = m # ms"
      "es' = es\<lparr>es_channels := (es_channels es)(j \<mapsto> ch2\<lparr>ch_buf := ms\<rparr>)\<rparr>"
    using handler_receive_client [OF inv receive(2,3)] by blast
  then show ?thesis using receive(1) c ch by (cases "j = i") auto
qed (use es_step_inv [OF step inv] in simp_all)

lemma subscription_run:
  assumes "es_run fmt_float pf es0 ls es" and "es_inv es0"
    and "(i, c) \<in> set (es_clients es0)" and "es_channels es0 i = Some make_channel"
    and "Act_unsubscribe i \<notin> set ls"
  shows "(i, c) \<in> set (es_clients es) \<and> (\<exists>ch. es_channels es i = Some ch \<and>
    subseq (received_by i ls @ ch_buf ch) (wanted fmt_float pf (sub_Subscription c) ls) \<and>
    (keeps_up fmt_float pf i (sub_Subscription c) ls \<longrightarrow>
       received_by i ls @ ch_buf ch = wanted fmt_float pf (sub_Subscription c) ls))"
  using assms
proof (induction rule: es_run.induct)
  case (nil es)
  then show ?case by (simp add: make_channel_def)
next
  case (snoc es ls es' l es'')
  let ?w = "wanted fmt_float pf (sub_Subscription c)"
  from snoc obtain ch where c: "(i, c) \<in> set (es_clients es')" and ch: "es_channels es' i = Some ch"
    and IH: "subseq (received_by i ls @ ch_buf ch) (?w ls)"
      "keeps_up fmt_float pf i (sub_Subscription c) ls \<Longrightarrow> received_by i ls @ ch_buf ch = ?w ls"
    by auto
  have "es_inv es'" using es_run_inv [OF snoc.hyps(1) snoc.prems(1)] by simp
  moreover have "l \<noteq> Act_unsubscribe i" using snoc.prems by auto
  ultimately obtain ch' where c': "(i, c) \<in> set (es_clients es'')" and ch': "es_channels es'' i = Some ch'"
    and step: "received_by i [l] @ ch_buf ch' = ch_buf ch @ ?w [l] \<or>
      received_by i [l] = [] \<and> ch_buf ch' = ch_buf ch \<and> channel_capacity \<le> length (ch_buf ch)"
    using subscription_step [OF snoc.hyps(2) _ c ch] by blast
  from step show ?case
  proof
    assume eq: "received_by i [l] @ ch_buf ch' = ch_buf ch @ ?w [l]"
    then have "received_by i (ls @ [l]) @ ch_buf ch' = (received_by i ls @ ch_buf ch) @ ?w [l]"
      by (simp add: received_by_append)
    moreover have "subseq ((received_by i ls @ ch_buf ch) @ ?w [l]) (?w ls @ ?w [l])"
      using IH(1) by (rule list_emb_append_mono) simp
    ultimately show ?thesis
      using c' ch' IH(2) keeps_up_snoc [of fmt_float pf i "sub_Subscription c" ls l]
      by (auto simp: wanted_append)
  next
    assume full: "received_by i [l] = [] \<and> ch_buf ch' = ch_buf ch \<and> channel_capacity \<le> length (ch_buf ch)"
    then have eq: "received_by i (ls @ [l]) @ ch_buf ch' = received_by i ls @ ch_buf ch"
      by (simp add: received_by_append)
    have "received_by i (ls @ [l]) @ ch_buf ch' = ?w (ls @ [l])"
      if k: "keeps_up fmt_float pf i (sub_Subscription c) (ls @ [l])"
    proof -
      have e: "received_by i ls @ ch_buf ch = ?w ls" using k keeps_up_snoc IH(2) by blast
      have "length (?w ls) + length (?w [l]) \<le> length (received_by i ls) + channel_capacity"
        using keeps_up_snoc [OF k] full by (simp add: wanted_append received_by_append)
      then have "length (?w [l]) = 0"
        using full arg_cong [OF e, of length] unfolding length_append by linarith
      then have "?w [l] = []" by simp
      then show ?thesis using eq e by (simp add: wanted_append)
    qed
    moreover have "subseq (received_by i (ls @ [l]) @ ch_buf ch') (?w (ls @ [l]))"
      unfolding eq wanted_append using IH(1) by (rule list_emb_prefix)
    ultimately show ?thesis using c' ch' by blast
  qed
qed

text \<open>
  Property C7. Delivery to a subscriber: from its subscription on, in any interleaving with other
  subscribers, the messages it has received followed by those still pending are a subsequence of
  the broadcast events that match its filter, in their order; and they are all of them, if
  the subscriber never lags behind by more than sixteen messages.
\<close>

theorem subscription_delivery:
  assumes "es_run fmt_float pf NewEventServer ls0 es" and "es_channels es i = None"
    and "es_run fmt_float pf (fst (Subscribe i sub es)) ls es'" and "Act_unsubscribe i \<notin> set ls"
  shows "\<exists>ch. es_channels es' i = Some ch \<and>
    subseq (received_by i ls @ ch_buf ch) (wanted fmt_float pf sub ls) \<and>
    (keeps_up fmt_float pf i sub ls \<longrightarrow> received_by i ls @ ch_buf ch = wanted fmt_float pf sub ls)"
proof -
  let ?c = "\<lparr>sub_ID = i, sub_Subscription = sub\<rparr>"
  have inv: "es_inv es" using es_run_inv [OF assms(1) es_inv_new] by simp
  have "(i, ?c) \<in> set (es_clients (fst (Subscribe i sub es)))"
    "es_channels (fst (Subscribe i sub es)) i = Some make_channel"
    using fresh_client [OF inv assms(2)]
    by (simp_all add: Subscribe_def NewSubscriber_def update_fresh)
  from subscription_run [OF assms(3) es_inv_subscribe [OF inv assms(2)] this assms(4)]
  show ?thesis by auto
qed

theorem subscription_delivery_witness:
  "\<exists>es' ch. Broadcast (\<lambda>_. []) reference_platform (Stop_event None)
       (fst (Subscribe ''u1'' [(''event_type'', ''StopEvent'')] NewEventServer)) = Some es' \<and>
     es_channels es' ''u1'' = Some ch \<and> ch_buf ch = [GetEventMap reference_platform (Stop_event None)]"
proof -
  let ?sub = "[(''event_type'', ''StopEvent'')]" and ?e = "Stop_event None"
  let ?es = "fst (Subscribe ''u1'' ?sub NewEventServer)"
  have m: "matches (\<lambda>_. []) ?sub (GetEventMap reference_platform ?e)"
    by (simp add: matches_def GetEventMap_def GetEventAttributesMap_def GetEventValuesMap_def
        attributes_list_def values_list_def sprint_v_def event_T_def strings_TrimPrefix_def Let_def)
  have new: "es_channels NewEventServer ''u1'' = None" by (simp add: NewEventServer_def)
  obtain es' where b: "Broadcast (\<lambda>_. []) reference_platform ?e ?es = Some es'"
    using Broadcast_effect [OF es_inv_subscribe [OF es_inv_new new]] by blast
  have "es_run (\<lambda>_. []) reference_platform ?es ([] @ [Act_broadcast ?e]) es'"
    by (rule es_run.snoc [OF es_run.nil es_step.broadcast [OF b]])
  moreover have "keeps_up (\<lambda>_. []) reference_platform ''u1'' ?sub [Act_broadcast ?e]"
    using m by (auto simp: keeps_up_def take_Cons' numeral_eq_Suc)
  ultimately obtain ch where "es_channels es' ''u1'' = Some ch"
      "ch_buf ch = wanted (\<lambda>_. []) reference_platform ?sub [Act_broadcast ?e]"
    using subscription_delivery [OF es_run.nil new, of "\<lambda>_. []" reference_platform ?sub "[Act_broadcast ?e]" es']
    by auto
  then show ?thesis using b m by auto
qed

end
