(* ===== verification/Batching.thy ===== *)
theory Batching
  imports Events
begin

text \<open>
  The contract of the two sinks that write in batches, \<open>src/sinks/db_sink.go\<close> and
  \<open>src/sinks/parquet_sink.go\<close>. Their goroutines have the same shape: a \<open>select\<close> over the
  cancellation of the context, a ticker and the input channel, around a batch that is flushed
  when it is full, at a tick and at cancellation.

  \<open>flushes\<close> is the specification: the batches such a goroutine flushes, with the context of
  each flush, and what is left in the batch. The locale \<open>batch_sink\<close> lists the equations a
  sink's loop has to satisfy, and shows that the loop performs exactly the flushes of the
  specification. The lemmas on \<open>flushes\<close> say that no element is lost, duplicated or reordered
  and that no batch exceeds its limit.
\<close>

section \<open>The outcomes of the select\<close>

datatype sink_select =
    SinkDone \<comment> \<open>\<open>case <-ctx.Done()\<close>\<close>
  | SinkTick \<comment> \<open>\<open>case <-ticker.C\<close>\<close>
  | SinkClosed \<comment> \<open>\<open>case msg, ok := <-s.in\<close> with \<open>!ok\<close>\<close>
  | SinkRecv go_any \<comment> \<open>\<open>case msg, ok := <-s.in\<close> with an element\<close>

text \<open>The context a flush runs under: the sink's own, the sink's own after it was cancelled, or a
  fresh one.\<close>

datatype go_ctx = Ctx_sink | Ctx_cancelled | Ctx_background

section \<open>The specification\<close>

text \<open>What was received before the goroutine returned.\<close>

fun received :: "(go_any \<Rightarrow> 'b option) \<Rightarrow> sink_select list \<Rightarrow> 'b list" where
  "received accept [] = []"
| "received accept (SinkDone # cs) = []"
| "received accept (SinkClosed # cs) = []"
| "received accept (SinkTick # cs) = received accept cs"
| "received accept (SinkRecv v # cs) =
     (case accept v of None \<Rightarrow> received accept cs | Some b \<Rightarrow> b # received accept cs)"

text \<open>The flushed batches, the elements left in the batch, and whether the goroutine returned.\<close>

fun flushes ::
    "int \<Rightarrow> (go_any \<Rightarrow> 'b option) \<Rightarrow> go_ctx \<Rightarrow> 'b list \<Rightarrow> sink_select list \<Rightarrow>
     (go_ctx \<times> 'b list) list \<times> 'b list \<times> bool" where
  "flushes limit accept final batch [] = ([], batch, False)"
| "flushes limit accept final batch (SinkDone # cs) =
     (if batch = [] then [] else [(final, batch)], [], True)"
| "flushes limit accept final batch (SinkClosed # cs) = ([], batch, True)"
| "flushes limit accept final batch (SinkTick # cs) =
     (let (fs, r) = flushes limit accept final [] cs
      in (if batch = [] then fs else (Ctx_sink, batch) # fs, r))"
| "flushes limit accept final batch (SinkRecv v # cs) =
     (case accept v of
        None \<Rightarrow> flushes limit accept final batch cs
      | Some b \<Rightarrow>
          if limit \<le> int (length (batch @ [b]))
          then (let (fs, r) = flushes limit accept final [] cs in ((Ctx_sink, batch @ [b]) # fs, r))
          else flushes limit accept final (batch @ [b]) cs)"

abbreviation flushed :: "(go_ctx \<times> 'b list) list \<times> 'b list \<times> bool \<Rightarrow> 'b list" where
  "flushed r \<equiv> concat (map snd (fst r))"

abbreviation left_over :: "(go_ctx \<times> 'b list) list \<times> 'b list \<times> bool \<Rightarrow> 'b list" where
  "left_over r \<equiv> fst (snd r)"

lemma flushes_conserve:
  "flushed (flushes limit accept final batch cs) @ left_over (flushes limit accept final batch cs) =
   batch @ received accept cs"
  by (induction limit accept final batch cs rule: flushes.induct)
    (auto simp: Let_def case_prod_beta split: option.split)

lemma flushes_bounded:
  assumes "0 < limit" and "int (length batch) < limit"
  shows "(\<forall>f \<in> set (fst (flushes limit accept final batch cs)).
      snd f \<noteq> [] \<and> int (length (snd f)) \<le> limit) \<and>
    int (length (left_over (flushes limit accept final batch cs))) < limit"
  using assms
  by (induction limit accept final batch cs rule: flushes.induct)
    (auto simp: Let_def case_prod_beta split: option.split)

lemma left_over_done:
  "left_over (flushes limit accept final batch (map SinkRecv vs @ SinkDone # cs)) = []"
  by (induction vs arbitrary: batch) (auto simp: Let_def case_prod_beta split: option.split)

lemma received_recv:
  "received accept (map SinkRecv vs @ cs) = List.map_filter accept vs @ received accept cs"
  by (induction vs) (auto simp: List.map_filter_simps split: option.split)

text \<open>Whatever ticks come in between, the goroutine that is cancelled has nothing left over.\<close>

definition keeps_running :: "sink_select \<Rightarrow> bool" where
  "keeps_running c \<longleftrightarrow> c \<noteq> SinkDone \<and> c \<noteq> SinkClosed"

lemma flushes_until_done:
  "list_all keeps_running rs \<Longrightarrow>
   left_over (flushes limit accept final batch (rs @ SinkDone # cs)) = [] \<and>
   received accept (rs @ SinkDone # cs) = received accept rs"
proof (induction rs arbitrary: batch)
  case Nil
  then show ?case by simp
next
  case (Cons r rs)
  then show ?case
    by (cases r) (auto simp: keeps_running_def Let_def case_prod_beta split: option.split)
qed

section \<open>The contract\<close>

locale batch_sink =
  fixes doSink :: "'b list \<Rightarrow> sink_select list \<Rightarrow> 'c list \<times> bool"
    and limit :: int
    and accept :: "go_any \<Rightarrow> 'b option"
    and flush :: "go_ctx \<Rightarrow> 'b list \<Rightarrow> 'c list"
    and final :: go_ctx
  assumes blocked: "doSink batch [] = ([], False)"
    and cancelled: "doSink batch (SinkDone # cs) = (if batch = [] then [] else flush final batch, True)"
    and closed: "doSink batch (SinkClosed # cs) = ([], True)"
    and tick: "doSink batch (SinkTick # cs) =
      (let (ws, r) = doSink [] cs in (if batch = [] then ws else flush Ctx_sink batch @ ws, r))"
    and skip: "accept v = None \<Longrightarrow> doSink batch (SinkRecv v # cs) = doSink batch cs"
    and full: "accept v = Some b \<Longrightarrow> limit \<le> int (length (batch @ [b])) \<Longrightarrow>
      doSink batch (SinkRecv v # cs) =
      (let (ws, r) = doSink [] cs in (flush Ctx_sink (batch @ [b]) @ ws, r))"
    and room: "accept v = Some b \<Longrightarrow> \<not> limit \<le> int (length (batch @ [b])) \<Longrightarrow>
      doSink batch (SinkRecv v # cs) = doSink (batch @ [b]) cs"
begin

lemmas loop = blocked cancelled closed tick skip full room

lemma refines:
  "doSink batch cs =
    (concat (map (\<lambda>(c, b). flush c b) (fst (flushes limit accept final batch cs))),
     snd (snd (flushes limit accept final batch cs)))"
proof (induction cs arbitrary: batch)
  case Nil
  show ?case by (simp add: blocked)
next
  case (Cons c cs)
  show ?case
  proof (cases c)
    case (SinkRecv v)
    show ?thesis
    proof (cases "accept v")
      case None
      then show ?thesis using Cons.IH [of batch] by (simp add: SinkRecv skip)
    next
      case (Some b)
      then show ?thesis
        using Cons.IH [of "[]"] Cons.IH [of "batch @ [b]"]
        by (cases "limit \<le> int (length (batch @ [b]))")
          (simp_all add: SinkRecv full room Let_def case_prod_beta del: length_append)
    qed
  qed (use Cons.IH [of "[]"] in \<open>simp_all add: cancelled closed tick Let_def case_prod_beta\<close>)
qed

text \<open>
  Cancellation loses nothing: the flushed batches are, one after the other, the elements that
  were received.
\<close>

lemma until_cancelled:
  assumes "list_all keeps_running rs"
  shows "\<exists>fs. doSink [] (rs @ SinkDone # cs) = (concat (map (\<lambda>(c, b). flush c b) fs), True) \<and>
    concat (map snd fs) = received accept rs \<and>
    (0 < limit \<longrightarrow> (\<forall>f \<in> set fs. snd f \<noteq> [] \<and> int (length (snd f)) \<le> limit))"
proof -
  let ?r = "flushes limit accept final [] (rs @ SinkDone # cs)"
  have "snd (snd (flushes limit accept final batch (rs @ SinkDone # cs)))" for batch
    using assms
  proof (induction rs arbitrary: batch)
    case (Cons r rs)
    then show ?case
      by (cases r) (auto simp: keeps_running_def Let_def case_prod_beta split: option.split)
  qed simp
  then have "doSink [] (rs @ SinkDone # cs) = (concat (map (\<lambda>(c, b). flush c b) (fst ?r)), True)"
    by (simp add: refines)
  moreover have "concat (map snd (fst ?r)) = received accept rs"
    using flushes_conserve [of limit accept final "[]" "rs @ SinkDone # cs"]
      flushes_until_done [OF assms, of limit accept final "[]" cs] by simp
  ultimately show ?thesis
    using flushes_bounded [of limit "[]" accept final "rs @ SinkDone # cs"] by auto
qed

end

end
