(* ===== verification/Db_Sink.thy ===== *)
theory Db_Sink
  imports Batching Config
begin

text \<open>
  The sink of \<open>src/sinks/db_sink.go\<close>, which writes events to a database in batches. The database
  is outside the repository: the model records the calls of \<open>ExecContext\<close>, with the context, the
  statement and its arguments. Their errors are only logged, so they do not influence the sink.
\<close>

section \<open>Statements\<close>

datatype sql_arg = Sql_string string | Sql_int32 int32 | Sql_time "Time option"

record exec_call =
  ec_ctx :: go_ctx
  ec_query :: string
  ec_args :: "sql_arg list"

definition buildInsert :: "string \<Rightarrow> string list \<Rightarrow> nat \<Rightarrow> string" where
  "buildInsert table cols nRows =
     (let nCols = length cols;
          rowPH = map (\<lambda>i. ''('' @ strings_Join
            (map (\<lambda>j. ''$'' @ decimal (i * nCols + j + 1)) [0..<nCols]) '', '' @ '')'') [0..<nRows]
      in ''INSERT INTO '' @ table @ '' ('' @ strings_Join cols '', '' @ '') VALUES '' @
         strings_Join rowPH '', '')"

definition nullableTime :: "platform \<Rightarrow> EventAttributes option \<Rightarrow> Time option" where
  "nullableTime pf a =
     (if a = None \<or> GetTimestamp a = None then None else Some (AsTime pf (GetTimestamp a)))"

text \<open>
  The parameter of \<open>nullableTimestamp\<close> is an interface: \<open>None\<close> is the nil interface, \<open>Some p\<close> holds
  the pointer \<open>p\<close>, which may be nil itself.
\<close>

definition nullableTimestamp :: "platform \<Rightarrow> Timestamp option option \<Rightarrow> Time option" where
  "nullableTimestamp pf ts =
     (case ts of
        None \<Rightarrow> None
      | Some p \<Rightarrow> let t = AsTime pf p in if time_IsZero t then None else Some t)"

text \<open>The columns and the arguments the four statements have in common.\<close>

definition attr_cols :: "string list" where
  "attr_cols =
     [''agency_id'', ''vehicle_id'', ''route_id'', ''stop_id'',
      ''origin_stop_id'', ''destination_stop_id'', ''direction_id'',
      ''direction'', ''direction_destination'', ''parent_station'',
      ''stop_sequence'', ''stop_status'', ''trip_id'', ''service_date'', ''event_timestamp'']"

definition attr_args :: "platform \<Rightarrow> EventAttributes option \<Rightarrow> sql_arg list" where
  "attr_args pf a =
     [Sql_string (GetAgencyId a), Sql_string (GetVehicleId a), Sql_string (GetRouteId a),
      Sql_string (GetStopId a), Sql_string (GetOriginStopId a), Sql_string (GetDestinationStopId a),
      Sql_string (GetDirectionId a), Sql_string (GetDirection a),
      Sql_string (GetDirectionDestination a), Sql_string (GetParentStation a),
      Sql_int32 (GetStopSequence a), Sql_int32 (GetStopStatus a), Sql_string (GetTripId a),
      Sql_string (GetServiceDate a), Sql_time (nullableTime pf a)]"

definition stop_cols :: "string list" where
  "stop_cols = attr_cols @ [''stop_event_type'']"

definition stop_args :: "platform \<Rightarrow> StopEvent option \<Rightarrow> sql_arg list" where
  "stop_args pf e = attr_args pf (StopEvent_GetAttributes e) @
     [Sql_string (EventType_String (StopEvent_GetStopEventType e))]"

definition dwell_cols :: "string list" where
  "dwell_cols = attr_cols @ [''arrival_time'', ''departure_time'', ''dwell_time_seconds'']"

definition dwell_args :: "platform \<Rightarrow> DwellTimeEvent option \<Rightarrow> sql_arg list" where
  "dwell_args pf e = attr_args pf (DwellTimeEvent_GetAttributes e) @
     [Sql_time (nullableTimestamp pf (Some (DwellTimeEvent_GetArrivalTime e))),
      Sql_time (nullableTimestamp pf (Some (DwellTimeEvent_GetDepartureTime e))),
      Sql_int32 (DwellTimeEvent_GetDwellTimeSeconds e)]"

definition travel_cols :: "string list" where
  "travel_cols = attr_cols @ [''start_time'', ''end_time'', ''travel_time_seconds'']"

definition travel_args :: "platform \<Rightarrow> TravelTimeEvent option \<Rightarrow> sql_arg list" where
  "travel_args pf e = attr_args pf (TravelTimeEvent_GetAttributes e) @
     [Sql_time (nullableTimestamp pf (Some (TravelTimeEvent_GetStartTime e))),
      Sql_time (nullableTimestamp pf (Some (TravelTimeEvent_GetEndTime e))),
      Sql_int32 (TravelTimeEvent_GetTravelTimeSeconds e)]"

definition headway_cols :: "string list" where
  "headway_cols = attr_cols @ [''leading_vehicle_id'', ''following_vehicle_id'', ''headway_seconds'']"

definition headway_args :: "platform \<Rightarrow> HeadwayTimeEvent option \<Rightarrow> sql_arg list" where
  "headway_args pf e = attr_args pf (HeadwayTimeEvent_GetAttributes e) @
     [Sql_string (HeadwayTimeEvent_GetLeadingVehicleId e),
      Sql_string (HeadwayTimeEvent_GetFollowingVehicleId e),
      Sql_int32 (HeadwayTimeEvent_GetHeadwaySeconds e)]"

definition insertStopEvents :: "platform \<Rightarrow> go_ctx \<Rightarrow> StopEvent option list \<Rightarrow> exec_call" where
  "insertStopEvents pf ctx batch =
     \<lparr>ec_ctx = ctx, ec_query = buildInsert ''stop_events'' stop_cols (length batch),
      ec_args = concat (map (stop_args pf) batch)\<rparr>"

definition insertDwellTimeEvents :: "platform \<Rightarrow> go_ctx \<Rightarrow> DwellTimeEvent option list \<Rightarrow> exec_call" where
  "insertDwellTimeEvents pf ctx batch =
     \<lparr>ec_ctx = ctx, ec_query = buildInsert ''dwell_time_events'' dwell_cols (length batch),
      ec_args = concat (map (dwell_args pf) batch)\<rparr>"

definition insertTravelTimeEvents :: "platform \<Rightarrow> go_ctx \<Rightarrow> TravelTimeEvent option list \<Rightarrow> exec_call" where
  "insertTravelTimeEvents pf ctx batch =
     \<lparr>ec_ctx = ctx, ec_query = buildInsert ''travel_time_events'' travel_cols (length batch),
      ec_args = concat (map (travel_args pf) batch)\<rparr>"

definition insertHeadwayTimeEvents :: "platform \<Rightarrow> go_ctx \<Rightarrow> HeadwayTimeEvent option list \<Rightarrow> exec_call" where
  "insertHeadwayTimeEvents pf ctx batch =
     \<lparr>ec_ctx = ctx, ec_query = buildInsert ''headway_time_events'' headway_cols (length batch),
      ec_args = concat (map (headway_args pf) batch)\<rparr>"

section \<open>The sink\<close>

definition pick_stop :: "event \<Rightarrow> StopEvent option option" where
  "pick_stop e = (case e of Stop_event ev \<Rightarrow> Some ev | _ \<Rightarrow> None)"
definition pick_dwell :: "event \<Rightarrow> DwellTimeEvent option option" where
  "pick_dwell e = (case e of Dwell_event ev \<Rightarrow> Some ev | _ \<Rightarrow> None)"
definition pick_travel :: "event \<Rightarrow> TravelTimeEvent option option" where
  "pick_travel e = (case e of Travel_event ev \<Rightarrow> Some ev | _ \<Rightarrow> None)"
definition pick_headway :: "event \<Rightarrow> HeadwayTimeEvent option option" where
  "pick_headway e = (case e of Headway_event ev \<Rightarrow> Some ev | _ \<Rightarrow> None)"

definition db_flush :: "platform \<Rightarrow> go_ctx \<Rightarrow> event list \<Rightarrow> exec_call list" where
  "db_flush pf ctx batch =
     (let stopEvents = List.map_filter pick_stop batch;
          dwellEvents = List.map_filter pick_dwell batch;
          travelEvents = List.map_filter pick_travel batch;
          headwayEvents = List.map_filter pick_headway batch
      in (if 0 < length stopEvents then [insertStopEvents pf ctx stopEvents] else []) @
         (if 0 < length dwellEvents then [insertDwellTimeEvents pf ctx dwellEvents] else []) @
         (if 0 < length travelEvents then [insertTravelTimeEvents pf ctx travelEvents] else []) @
         (if 0 < length headwayEvents then [insertHeadwayTimeEvents pf ctx headwayEvents] else []))"

record DatabaseSink =
  dbs_driver :: string
  dbs_dsn :: string
  dbs_maxBatchSize :: int
  dbs_flushInterval :: Duration

text \<open>Opening and pinging the database are parameters: they return an error or \<open>None\<close>.\<close>

definition NewDatabaseSink ::
    "(string \<Rightarrow> string \<Rightarrow> string option) \<Rightarrow> (string \<Rightarrow> string option) \<Rightarrow> SinkConfig \<Rightarrow>
     string + DatabaseSink" where
  "NewDatabaseSink sql_Open ping cfg =
     (let dsn = db_DSN (snk_Database cfg) in
      if dsn = [] then Inl ''db sink: dsn is required''
      else
        let d = db_Driver (snk_Database cfg);
            sqlDriverName = (if d = [] \<or> d = ''postgres'' then ''pgx'' else d)
        in case sql_Open sqlDriverName dsn of
             Some err \<Rightarrow> Inl (''db sink: open db: '' @ err)
           | None \<Rightarrow>
               (case ping dsn of
                  Some err \<Rightarrow> Inl (''db sink: ping db: '' @ err)
                | None \<Rightarrow> Inr
                    \<lparr>dbs_driver = sqlDriverName, dbs_dsn = dsn,
                     dbs_maxBatchSize = (if snk_MaxBatchSize cfg \<le> 0 then 100 else snk_MaxBatchSize cfg),
                     dbs_flushInterval =
                       (if sint (snk_FlushInterval cfg) \<le> 0 then 10 * time_Second
                        else snk_FlushInterval cfg)\<rparr>))"

text \<open>The loop; the result is the calls it makes and whether it returned.\<close>

fun db_doSink :: "platform \<Rightarrow> DatabaseSink \<Rightarrow> event list \<Rightarrow> sink_select list \<Rightarrow> exec_call list \<times> bool" where
  "db_doSink pf s batch [] = ([], False)"
| "db_doSink pf s batch (SinkDone # cs) =
     (if 0 < length batch then db_flush pf Ctx_background batch else [], True)"
| "db_doSink pf s batch (SinkTick # cs) =
     (if 0 < length batch
      then (let (calls, r) = db_doSink pf s [] cs in (db_flush pf Ctx_sink batch @ calls, r))
      else db_doSink pf s batch cs)"
| "db_doSink pf s batch (SinkClosed # cs) = ([], True)"
| "db_doSink pf s batch (SinkRecv msg # cs) =
     (case as_Event msg of
        None \<Rightarrow> db_doSink pf s batch cs
      | Some event \<Rightarrow>
          let batch' = batch @ [event]
          in if dbs_maxBatchSize s \<le> int (length batch')
             then (let (calls, r) = db_doSink pf s [] cs in (db_flush pf Ctx_sink batch' @ calls, r))
             else db_doSink pf s batch' cs)"

text \<open>It keeps the contract of a batching sink, with a fresh context for the last flush.\<close>

interpretation db: batch_sink "db_doSink pf s" "dbs_maxBatchSize s" as_Event "db_flush pf" Ctx_background
  for pf s
  by unfold_locales (auto simp: Let_def split: prod.split)

section \<open>The placeholders of a statement\<close>

text \<open>
  A reader of statements, independent of how they are built: the numbers after the dollar signs,
  from left to right.
\<close>

fun placeholders :: "string \<Rightarrow> nat list" where
  "placeholders [] = []"
| "placeholders (c # s) =
     (if c = CHR ''$'' then digits_value (takeWhile is_digit s) # placeholders s else placeholders s)"

abbreviation no_digit_next :: "string \<Rightarrow> bool" where
  "no_digit_next t \<equiv> t = [] \<or> \<not> is_digit (hd t)"

lemma placeholders_plain: "CHR ''$'' \<notin> set s \<Longrightarrow> placeholders (s @ t) = placeholders t"
  by (induction s) auto

lemma takeWhile_decimal:
  "no_digit_next t \<Longrightarrow> takeWhile is_digit (decimal n @ t) = decimal n"
  using is_digit_decimal [of n] by (cases t) (auto simp: list_all_iff takeWhile_tail)

lemma placeholders_one:
  assumes "no_digit_next t"
  shows "placeholders ((''$'' @ decimal n) @ t) = [n] @ placeholders t"
proof -
  have "CHR ''$'' \<notin> set (decimal n)" using set_decimal [of n] by auto
  then show ?thesis
    using takeWhile_decimal [OF assms] by (simp add: digits_value_decimal placeholders_plain)
qed

lemma placeholders_Join:
  assumes "\<And>x t. x \<in> set xs \<Longrightarrow> no_digit_next t \<Longrightarrow> placeholders (x @ t) = f x @ placeholders t"
    and "no_digit_next t"
  shows "placeholders (strings_Join xs '', '' @ t) = concat (map f xs) @ placeholders t"
  using assms(1)
proof (induction xs "'', ''" rule: strings_Join.induct)
  case 1
  then show ?case by simp
next
  case (2 x)
  then show ?case using assms(2) by simp
next
  case (3 x y ys)
  have "placeholders (strings_Join (x # y # ys) '', '' @ t) =
      placeholders (x @ '', '' @ strings_Join (y # ys) '', '' @ t)" by simp
  also have "\<dots> = f x @ placeholders (strings_Join (y # ys) '', '' @ t)"
    using "3.prems" [of x "'', '' @ strings_Join (y # ys) '', '' @ t"] by (simp add: is_digit_def)
  also have "\<dots> = concat (map f (x # y # ys)) @ placeholders t"
    using "3.hyps" "3.prems" by simp
  finally show ?case .
qed

lemma row_numbers:
  "concat (map (\<lambda>i. map (\<lambda>j. i * m + j + 1) [0..<m]) [0..<n]) = [1..<n * m + 1]"
proof (induction n)
  case 0
  then show ?case by simp
next
  case (Suc n)
  have "map (\<lambda>j. n * m + j + 1) [0..<m] = [n * m + 1..<n * m + 1 + m]"
    using map_add_upt [of "n * m + 1" m] by (simp add: add.commute add.left_commute)
  moreover have "[1..<n * m + 1] @ [n * m + 1..<n * m + 1 + m] = [1..<Suc n * m + 1]"
    using upt_add_eq_append [of 1 "n * m + 1" m] by (simp add: add.commute add.left_commute)
  ultimately show ?case using Suc.IH by simp
qed

lemma placeholders_buildInsert:
  assumes "CHR ''$'' \<notin> set table" and "list_all (\<lambda>c. CHR ''$'' \<notin> set c) cols"
  shows "placeholders (buildInsert table cols n) = [1..<n * length cols + 1]"
proof -
  let ?m = "length cols"
  let ?row = "\<lambda>i. ''('' @ strings_Join (map (\<lambda>j. ''$'' @ decimal (i * ?m + j + 1)) [0..<?m]) '', '' @ '')''"
  have row: "placeholders (?row i @ t) = map (\<lambda>j. i * ?m + j + 1) [0..<?m] @ placeholders t" for i t
  proof -
    have "placeholders (strings_Join (map (\<lambda>j. ''$'' @ decimal (i * ?m + j + 1)) [0..<?m]) '', '' @ '')'' @ t) =
        concat (map (\<lambda>x. [digits_value (tl x)]) (map (\<lambda>j. ''$'' @ decimal (i * ?m + j + 1)) [0..<?m])) @
        placeholders ('')'' @ t)"
    proof (rule placeholders_Join)
      fix x t'
      assume "x \<in> set (map (\<lambda>j. ''$'' @ decimal (i * ?m + j + 1)) [0..<?m])" and t: "no_digit_next t'"
      then obtain k where "x = ''$'' @ decimal k" by auto
      then show "placeholders (x @ t') = [digits_value (tl x)] @ placeholders t'"
        using placeholders_one [OF t, of k] by (simp add: digits_value_decimal)
    qed (simp add: is_digit_def)
    then show ?thesis by (simp add: digits_value_decimal o_def)
  qed
  have "placeholders (strings_Join (map ?row [0..<n]) '', '' @ []) =
      concat (map placeholders (map ?row [0..<n])) @ placeholders []"
    by (rule placeholders_Join) (use row [of _ "[]"] row in auto)
  then have rows: "placeholders (strings_Join (map ?row [0..<n]) '', '') = [1..<n * ?m + 1]"
    using row [of _ "[]"] row_numbers [where m = ?m and n = n] by (simp add: o_def)
  have cols: "CHR ''$'' \<notin> set (strings_Join cols '', '')"
    using assms(2) by (induction cols "'', ''" rule: strings_Join.induct) auto
  let ?head = "''INSERT INTO '' @ table @ '' ('' @ strings_Join cols '', '' @ '') VALUES ''"
  have "placeholders (?head @ strings_Join (map ?row [0..<n]) '', '') =
      placeholders (strings_Join (map ?row [0..<n]) '', '')"
    using assms(1) cols by (intro placeholders_plain) auto
  then show ?thesis using rows by (simp add: buildInsert_def Let_def)
qed

section \<open>Properties\<close>

text \<open>The calls that insert into a table, and the rows they insert, one after the other.\<close>

definition into :: "string \<Rightarrow> exec_call \<Rightarrow> bool" where
  "into table c =
     (let h = ''INSERT INTO '' @ table @ '' ('' in take (length h) (ec_query c) = h)"

definition table_args :: "string \<Rightarrow> exec_call list \<Rightarrow> sql_arg list" where
  "table_args table calls = concat (map ec_args (filter (into table) calls))"

lemmas insert_defs =
  insertStopEvents_def insertDwellTimeEvents_def insertTravelTimeEvents_def insertHeadwayTimeEvents_def

lemma into_insert:
  "into ''stop_events'' (insertStopEvents pf ctx a)"
  "\<not> into ''stop_events'' (insertDwellTimeEvents pf ctx b)"
  "\<not> into ''stop_events'' (insertTravelTimeEvents pf ctx c)"
  "\<not> into ''stop_events'' (insertHeadwayTimeEvents pf ctx d)"
  "\<not> into ''dwell_time_events'' (insertStopEvents pf ctx a)"
  "into ''dwell_time_events'' (insertDwellTimeEvents pf ctx b)"
  "\<not> into ''dwell_time_events'' (insertTravelTimeEvents pf ctx c)"
  "\<not> into ''dwell_time_events'' (insertHeadwayTimeEvents pf ctx d)"
  "\<not> into ''travel_time_events'' (insertStopEvents pf ctx a)"
  "\<not> into ''travel_time_events'' (insertDwellTimeEvents pf ctx b)"
  "into ''travel_time_events'' (insertTravelTimeEvents pf ctx c)"
  "\<not> into ''travel_time_events'' (insertHeadwayTimeEvents pf ctx d)"
  "\<not> into ''headway_time_events'' (insertStopEvents pf ctx a)"
  "\<not> into ''headway_time_events'' (insertDwellTimeEvents pf ctx b)"
  "\<not> into ''headway_time_events'' (insertTravelTimeEvents pf ctx c)"
  "into ''headway_time_events'' (insertHeadwayTimeEvents pf ctx d)"
  by (simp_all add: into_def insert_defs buildInsert_def Let_def)

lemma table_args_flush:
  "table_args ''stop_events'' (db_flush pf ctx b) = concat (map (stop_args pf) (List.map_filter pick_stop b))"
  "table_args ''dwell_time_events'' (db_flush pf ctx b) =
     concat (map (dwell_args pf) (List.map_filter pick_dwell b))"
  "table_args ''travel_time_events'' (db_flush pf ctx b) =
     concat (map (travel_args pf) (List.map_filter pick_travel b))"
  "table_args ''headway_time_events'' (db_flush pf ctx b) =
     concat (map (headway_args pf) (List.map_filter pick_headway b))"
  by (simp_all add: table_args_def db_flush_def into_insert insert_defs [THEN arg_cong, of ec_args] Let_def)

lemma table_args_concat:
  "table_args t (concat (map (\<lambda>(c, b). F c b) fs)) = concat (map (\<lambda>(c, b). table_args t (F c b)) fs)"
  by (induction fs) (auto simp: table_args_def)

lemma map_filter_concat:
  "concat (map (\<lambda>(c, b). concat (map g (List.map_filter f b))) fs) =
   concat (map g (List.map_filter f (concat (map snd fs))))"
  by (induction fs) (auto simp: List.map_filter_def)

lemma db_rows:
  assumes "list_all keeps_running rs"
    and "\<And>c b. table_args t (db_flush pf c b) = concat (map row (List.map_filter pick b))"
  shows "table_args t (fst (db_doSink pf s [] (rs @ SinkDone # cs))) =
    concat (map row (List.map_filter pick (received as_Event rs)))"
proof -
  obtain fs where "db_doSink pf s [] (rs @ SinkDone # cs) = (concat (map (\<lambda>(c, b). db_flush pf c b) fs), True)"
      and "concat (map snd fs) = received as_Event rs"
    using db.until_cancelled [OF assms(1), of pf s cs] by blast
  then show ?thesis
    using map_filter_concat [of row pick fs] by (simp add: table_args_concat assms(2))
qed

text \<open>
  Property C9. Cancelling the context loses nothing: whatever sequence of events, ticks and other
  values the database sink went through, the rows of the insert statements it executed for each
  table are exactly those of the received events of that kind, each once and in the order of
  reception.
\<close>

theorem db_cancel_inserts_everything:
  assumes "list_all keeps_running rs"
  shows "table_args ''stop_events'' (fst (db_doSink pf s [] (rs @ SinkDone # cs))) =
      concat (map (stop_args pf) (List.map_filter pick_stop (received as_Event rs))) \<and>
    table_args ''dwell_time_events'' (fst (db_doSink pf s [] (rs @ SinkDone # cs))) =
      concat (map (dwell_args pf) (List.map_filter pick_dwell (received as_Event rs))) \<and>
    table_args ''travel_time_events'' (fst (db_doSink pf s [] (rs @ SinkDone # cs))) =
      concat (map (travel_args pf) (List.map_filter pick_travel (received as_Event rs))) \<and>
    table_args ''headway_time_events'' (fst (db_doSink pf s [] (rs @ SinkDone # cs))) =
      concat (map (headway_args pf) (List.map_filter pick_headway (received as_Event rs)))"
  by (intro conjI db_rows assms table_args_flush)

definition example_db :: "int \<Rightarrow> DatabaseSink" where
  "example_db n = \<lparr>dbs_driver = ''pgx'', dbs_dsn = ''dsn'', dbs_maxBatchSize = n,
     dbs_flushInterval = 10 * time_Second\<rparr>"

theorem db_cancel_inserts_everything_witness:
  "table_args ''stop_events'' (fst (db_doSink reference_platform (example_db 2) []
     ([SinkRecv (Any_StopEvent None), SinkTick, SinkRecv (Any_other ''x''),
       SinkRecv (Any_StopEvent (Some StopEvent_zero))] @ [SinkDone]))) =
   stop_args reference_platform None @ stop_args reference_platform (Some StopEvent_zero)"
  by (subst db_cancel_inserts_everything [THEN conjunct1])
    (simp_all add: keeps_running_def as_Event_def pick_stop_def List.map_filter_simps)

lemma flush_calls:
  "c \<in> set (db_flush pf ctx b) \<Longrightarrow>
   (\<exists>es. c = insertStopEvents pf ctx es \<and> length es \<le> length b) \<or>
   (\<exists>es. c = insertDwellTimeEvents pf ctx es \<and> length es \<le> length b) \<or>
   (\<exists>es. c = insertTravelTimeEvents pf ctx es \<and> length es \<le> length b) \<or>
   (\<exists>es. c = insertHeadwayTimeEvents pf ctx es \<and> length es \<le> length b)"
  by (auto simp: db_flush_def Let_def List.map_filter_def split: if_splits)

lemma length_args [simp]:
  "length (stop_args pf e) = 16" "length (dwell_args pf e') = 18"
  "length (travel_args pf t) = 18" "length (headway_args pf h) = 18"
  by (simp_all add: stop_args_def dwell_args_def travel_args_def headway_args_def attr_args_def)

lemma columns [simp]:
  "length stop_cols = 16" "length dwell_cols = 18" "length travel_cols = 18" "length headway_cols = 18"
  "list_all (\<lambda>c. CHR ''$'' \<notin> set c) stop_cols" "list_all (\<lambda>c. CHR ''$'' \<notin> set c) dwell_cols"
  "list_all (\<lambda>c. CHR ''$'' \<notin> set c) travel_cols" "list_all (\<lambda>c. CHR ''$'' \<notin> set c) headway_cols"
  by (simp_all add: stop_cols_def dwell_cols_def travel_cols_def headway_cols_def attr_cols_def)

lemma length_concat_const: "(\<And>x. length (f x) = k) \<Longrightarrow> length (concat (map f xs)) = length xs * k"
  by (induction xs) auto

lemma flush_args:
  assumes "c \<in> set (db_flush pf ctx b)"
  shows "placeholders (ec_query c) = [1..<length (ec_args c) + 1]" and "length (ec_args c) \<le> length b * 18"
proof -
  from flush_calls [OF assms]
  have "placeholders (ec_query c) = [1..<length (ec_args c) + 1] \<and> length (ec_args c) \<le> length b * 18"
    by (elim disjE exE conjE)
      (simp_all add: insert_defs placeholders_buildInsert length_concat_const)
  then show "placeholders (ec_query c) = [1..<length (ec_args c) + 1]"
    and "length (ec_args c) \<le> length b * 18" by blast+
qed

lemma db_calls:
  "c \<in> set (fst (db_doSink pf s batch cs)) \<Longrightarrow>
   \<exists>ctx b. (ctx, b) \<in> set (fst (flushes (dbs_maxBatchSize s) as_Event Ctx_background batch cs)) \<and>
     c \<in> set (db_flush pf ctx b)"
  by (subst (asm) db.refines) fastforce

text \<open>
  Every statement the sink executes has exactly one argument per placeholder:
  read from left to right, the placeholders of its text are the numbers from one to the
  number of arguments.
\<close>

lemma db_placeholders_match:
  "list_all (\<lambda>c. placeholders (ec_query c) = [1..<length (ec_args c) + 1])
     (fst (db_doSink pf s batch cs))"
  unfolding list_all_iff using db_calls [of _ pf s batch cs] flush_args(1) by blast

lemma NewDatabaseSink_positive:
  "NewDatabaseSink sql_Open ping cfg = Inr s \<Longrightarrow> 0 < dbs_maxBatchSize s \<and> 0 < sint (dbs_flushInterval s) \<and>
     (0 < snk_MaxBatchSize cfg \<longrightarrow> dbs_maxBatchSize s = snk_MaxBatchSize cfg)"
  by (auto simp: NewDatabaseSink_def Let_def time_Second_def split: if_splits option.splits)

text \<open>
  Property C37. A sink that was constructed never executes a statement with more than eighteen
  arguments per element of its batch limit, so with a limit up to 3640 it stays below the 65535
  parameters a PostgreSQL statement may have.
\<close>

theorem db_parameter_bound:
  assumes "NewDatabaseSink sql_Open ping cfg = Inr s"
  shows "list_all (\<lambda>c. int (length (ec_args c)) \<le> 18 * dbs_maxBatchSize s \<and>
      (snk_MaxBatchSize cfg \<le> 3640 \<longrightarrow> length (ec_args c) \<le> 65535)) (fst (db_doSink pf s [] cs))"
  unfolding list_all_iff
proof
  fix c
  assume "c \<in> set (fst (db_doSink pf s [] cs))"
  then obtain ctx b where
      f: "(ctx, b) \<in> set (fst (flushes (dbs_maxBatchSize s) as_Event Ctx_background [] cs))"
      and c: "c \<in> set (db_flush pf ctx b)"
    using db_calls by blast
  have "int (length b) \<le> dbs_maxBatchSize s"
    using flushes_bounded [of "dbs_maxBatchSize s" "[]" as_Event Ctx_background cs] f
      NewDatabaseSink_positive [OF assms] by auto
  then have "int (length (ec_args c)) \<le> 18 * dbs_maxBatchSize s" using flush_args(2) [OF c] by simp
  moreover have "snk_MaxBatchSize cfg \<le> 3640 \<longrightarrow> dbs_maxBatchSize s \<le> 3640"
    using assms by (auto simp: NewDatabaseSink_def Let_def split: if_splits option.splits)
  ultimately show "int (length (ec_args c)) \<le> 18 * dbs_maxBatchSize s \<and>
      (snk_MaxBatchSize cfg \<le> 3640 \<longrightarrow> length (ec_args c) \<le> 65535)"
    by auto
qed

theorem db_parameter_bound_witness:
  "list_all (\<lambda>c. int (length (ec_args c)) \<le> 18 * 100 \<and> length (ec_args c) \<le> 65535)
     (fst (db_doSink reference_platform (example_db 100) [] [SinkRecv (Any_StopEvent None), SinkDone]))"
proof -
  have "NewDatabaseSink (\<lambda>d u. None) (\<lambda>u. None) (SinkConfig_zero
      \<lparr>snk_Database := \<lparr>db_Driver = ''postgres'', db_DSN = ''dsn'', db_Schema = []\<rparr>\<rparr>) = Inr (example_db 100)"
    by (simp add: NewDatabaseSink_def SinkConfig_zero_def example_db_def Let_def)
  from db_parameter_bound [OF this, of reference_platform "[SinkRecv (Any_StopEvent None), SinkDone]"]
  show ?thesis by (simp add: SinkConfig_zero_def example_db_def list_all_iff)
qed

text \<open>
  Closing the input channel loses the pending batch: with fewer events than the batch
  limit and no tick in between, the sink returns without having executed any statement.
\<close>

lemma db_close_drops_batch:
  assumes "int (length (batch @ vs)) < dbs_maxBatchSize s"
  shows "db_doSink pf s batch (map (\<lambda>e. SinkRecv (Any_event e)) vs @ SinkClosed # cs) = ([], True)"
  using assms
  by (induction vs arbitrary: batch) (auto simp: as_Event_def Let_def)

text \<open>
  An unset arrival time is not stored as NULL: the nil pointer is wrapped in a
  non-nil interface, and the column \<open>arrival_time\<close> receives the Unix epoch.
\<close>

lemma dwell_unset_time_stored_as_epoch:
  assumes "timestamppb_spec pf" and "dte_ArrivalTime e = None"
  shows "dwell_args pf (Some e) ! 15 = Sql_time (Some 0)"
  using assms
  by (simp add: dwell_args_def attr_args_def nullableTimestamp_def timestamppb_spec_def time_Unix_def
      time_IsZero_def unixToInternal_def Second_ns_def Let_def)

end
