(* ===== verification/Parquet_Sink.thy ===== *)
theory Parquet_Sink
  imports Batching Config Civil_Date
begin

text \<open>
  The sink of \<open>src/sinks/parquet_sink.go\<close>: it flattens events into rows and writes each batch as
  one object. The Parquet writer and the AWS SDK are outside the repository: the writer is the
  parameter \<open>lib\<close>, loading the AWS configuration the parameter \<open>LoadDefaultConfig\<close>, and the model
  records the calls of \<open>PutObject\<close>. A flush reads the clock for the name of the object, so its call
  is a function of that instant.
\<close>

section \<open>Rows\<close>

record EventRow =
  row_EventType :: string
  row_AgencyID :: string
  row_VehicleID :: string
  row_RouteID :: string
  row_StopID :: string
  row_OriginStopID :: string
  row_DestinationStopID :: string
  row_DirectionID :: string
  row_Direction :: string
  row_DirectionDestination :: string
  row_ParentStation :: string
  row_StopSequence :: int32
  row_StopStatus :: int32
  row_TripID :: string
  row_ServiceDate :: string
  row_Timestamp :: int64
  row_StopEventType :: string
  row_ArrivalTime :: int64
  row_DepartureTime :: int64
  row_DwellTimeSeconds :: int32
  row_StartTime :: int64
  row_EndTime :: int64
  row_TravelTimeSeconds :: int32
  row_LeadingVehicleID :: string
  row_FollowingVehicleID :: string
  row_HeadwaySeconds :: int32

text \<open>The zero value.\<close>

definition EventRow_zero :: EventRow where
  "EventRow_zero =
     \<lparr>row_EventType = [], row_AgencyID = [], row_VehicleID = [], row_RouteID = [], row_StopID = [],
      row_OriginStopID = [], row_DestinationStopID = [], row_DirectionID = [], row_Direction = [],
      row_DirectionDestination = [], row_ParentStation = [], row_StopSequence = 0,
      row_StopStatus = 0, row_TripID = [], row_ServiceDate = [], row_Timestamp = 0,
      row_StopEventType = [], row_ArrivalTime = 0, row_DepartureTime = 0, row_DwellTimeSeconds = 0,
      row_StartTime = 0, row_EndTime = 0, row_TravelTimeSeconds = 0, row_LeadingVehicleID = [],
      row_FollowingVehicleID = [], row_HeadwaySeconds = 0\<rparr>"

text \<open>\<open>if ts != nil { field = ts.AsTime().Unix() }\<close> on a field that is zero.\<close>

definition unix_or_zero :: "platform \<Rightarrow> Timestamp option \<Rightarrow> int64" where
  "unix_or_zero pf ts = (if ts \<noteq> None then time_unix_seconds (AsTime pf ts) else 0)"

definition toEventRow :: "platform \<Rightarrow> event \<Rightarrow> EventRow" where
  "toEventRow pf e =
     (let a = event_GetAttributes e;
          row = EventRow_zero
            \<lparr>row_EventType := strings_TrimPrefix (event_T e) ''*events.'',
             row_AgencyID := GetAgencyId a,
             row_VehicleID := GetVehicleId a,
             row_RouteID := GetRouteId a,
             row_StopID := GetStopId a,
             row_OriginStopID := GetOriginStopId a,
             row_DestinationStopID := GetDestinationStopId a,
             row_DirectionID := GetDirectionId a,
             row_Direction := GetDirection a,
             row_DirectionDestination := GetDirectionDestination a,
             row_ParentStation := GetParentStation a,
             row_StopSequence := GetStopSequence a,
             row_StopStatus := GetStopStatus a,
             row_TripID := GetTripId a,
             row_ServiceDate := GetServiceDate a,
             row_Timestamp := unix_or_zero pf (GetTimestamp a)\<rparr>
      in case e of
           Stop_event ev \<Rightarrow> row\<lparr>row_StopEventType := EventType_String (StopEvent_GetStopEventType ev)\<rparr>
         | Dwell_event ev \<Rightarrow>
             row\<lparr>row_ArrivalTime := unix_or_zero pf (DwellTimeEvent_GetArrivalTime ev),
                 row_DepartureTime := unix_or_zero pf (DwellTimeEvent_GetDepartureTime ev),
                 row_DwellTimeSeconds := DwellTimeEvent_GetDwellTimeSeconds ev\<rparr>
         | Travel_event ev \<Rightarrow>
             row\<lparr>row_StartTime := unix_or_zero pf (TravelTimeEvent_GetStartTime ev),
                 row_EndTime := unix_or_zero pf (TravelTimeEvent_GetEndTime ev),
                 row_TravelTimeSeconds := TravelTimeEvent_GetTravelTimeSeconds ev\<rparr>
         | Headway_event ev \<Rightarrow>
             row\<lparr>row_LeadingVehicleID := HeadwayTimeEvent_GetLeadingVehicleId ev,
                 row_FollowingVehicleID := HeadwayTimeEvent_GetFollowingVehicleId ev,
                 row_HeadwaySeconds := HeadwayTimeEvent_GetHeadwaySeconds ev\<rparr>
         | VehiclePosition_event ev \<Rightarrow> row)"

section \<open>The S3 client\<close>

text \<open>
  The options \<open>buildS3Client\<close> passes on: those of \<open>LoadDefaultConfig\<close>, and the one closure that
  changes the options of the client. Of \<open>aws.Config\<close> the model has the two fields the options set;
  a client is the pair of arguments of \<open>s3.NewFromConfig\<close>.
\<close>

datatype load_option =
    WithCredentialsProvider (lo_key: string) (lo_secret: string) (lo_session: string)
  | WithRegion (lo_region: string)

record aws_config =
  aws_Region :: string
  aws_StaticCredentials :: "(string \<times> string \<times> string) option"

record s3_Options =
  o_BaseEndpoint :: "string option"
  o_UsePathStyle :: bool

datatype s3_optFn = EndpointOpt (endpointURL: string)

primrec apply_optFn :: "s3_optFn \<Rightarrow> s3_Options \<Rightarrow> s3_Options" where
  "apply_optFn (EndpointOpt url) opts = opts\<lparr>o_BaseEndpoint := Some url, o_UsePathStyle := True\<rparr>"

record s3_client =
  cl_config :: aws_config
  cl_optFns :: "s3_optFn list"

type_synonym aws_loader = "load_option list \<Rightarrow> string + aws_config"

definition buildS3Client :: "aws_loader \<Rightarrow> ParquetSinkConfig \<Rightarrow> string + s3_client" where
  "buildS3Client LoadDefaultConfig pc =
     (let opts =
        (if pq_AWSAccessKey pc \<noteq> []
         then [WithCredentialsProvider (pq_AWSAccessKey pc) (pq_AWSSecretKey pc) []] else []) @
        (if pq_AWSRegion pc \<noteq> [] then [WithRegion (pq_AWSRegion pc)] else [])
      in case LoadDefaultConfig opts of
           Inl err \<Rightarrow> Inl err
         | Inr awsCfg \<Rightarrow>
             Inr \<lparr>cl_config = awsCfg,
                  cl_optFns =
                    (if pq_AWSEndpointURL pc \<noteq> [] then [EndpointOpt (pq_AWSEndpointURL pc)] else [])\<rparr>)"

section \<open>The sink\<close>

record ParquetSink =
  pqs_s3Client :: s3_client
  pqs_bucketName :: string
  pqs_prefix :: string
  pqs_eventType :: string
  pqs_maxBatchSize :: int
  pqs_flushInterval :: Duration

definition NewParquetSink :: "aws_loader \<Rightarrow> SinkConfig \<Rightarrow> string + ParquetSink" where
  "NewParquetSink LoadDefaultConfig cfg =
     (let pc = snk_Parquet cfg in
      if pq_BucketName pc = [] then Inl ''parquet sink: bucket_name is required''
      else (case buildS3Client LoadDefaultConfig pc of
         Inl err \<Rightarrow> Inl (''parquet sink: build s3 client: '' @ err)
       | Inr s3Client \<Rightarrow> Inr
           \<lparr>pqs_s3Client = s3Client,
            pqs_bucketName = pq_BucketName pc,
            pqs_prefix = strings_TrimRight1 (pq_Prefix pc) CHR ''/'',
            pqs_eventType = pq_EventType pc,
            pqs_maxBatchSize = (if snk_MaxBatchSize cfg \<le> 0 then 10000 else snk_MaxBatchSize cfg),
            pqs_flushInterval =
              (if sint (snk_FlushInterval cfg) \<le> 0 then time_Hour else snk_FlushInterval cfg)\<rparr>))"

definition objectKey :: "ParquetSink \<Rightarrow> Time \<Rightarrow> string" where
  "objectKey s t =
     (let name = format_stamp t @ ''.parquet'';
          c = civil_time t
      in strings_Join
          ((if pqs_prefix s \<noteq> [] then [pqs_prefix s] else []) @
           (if pqs_eventType s \<noteq> [] then [pqs_eventType s] else []) @
           [''year='' @ decimal_int (ct_Year c),
            ''month='' @ pad 2 (nat (ct_Month c)),
            ''day='' @ pad 2 (nat (ct_Day c)),
            name]) ''/'')"

record put_call =
  put_ctx :: go_ctx
  put_bucket :: string
  put_key :: string
  put_body :: bytes
  put_contentType :: string

text \<open>
  A fresh writer of the Parquet library over an empty buffer: \<open>pw_Write\<close> is the error of writing the
  rows, \<open>pw_Close\<close> what closing it after those rows gives, an error or the bytes in the buffer.
\<close>

record parquet_lib =
  pw_Write :: "EventRow list \<Rightarrow> string option"
  pw_Close :: "EventRow list \<Rightarrow> string + bytes"

definition serializeRows :: "parquet_lib \<Rightarrow> EventRow list \<Rightarrow> string + bytes" where
  "serializeRows lib rows =
     (case pw_Write lib rows of
        Some err \<Rightarrow> Inl err
      | None \<Rightarrow> (case pw_Close lib rows of Inl err \<Rightarrow> Inl err | Inr buf \<Rightarrow> Inr buf))"

definition parquet_flush ::
    "parquet_lib \<Rightarrow> ParquetSink \<Rightarrow> go_ctx \<Rightarrow> EventRow list \<Rightarrow>
     (Time \<Rightarrow> put_call) list" where
  "parquet_flush lib s ctx batch =
     (if length batch = 0 then []
      else (case serializeRows lib batch of
         Inl err \<Rightarrow> []
       | Inr buf \<Rightarrow>
           [\<lambda>now. \<lparr>put_ctx = ctx, put_bucket = pqs_bucketName s, put_key = objectKey s now,
                   put_body = buf,
                   put_contentType = ''application/vnd.apache.parquet''\<rparr>]))"

fun parquet_doSink ::
    "platform \<Rightarrow> parquet_lib \<Rightarrow> ParquetSink \<Rightarrow> EventRow list \<Rightarrow>
     sink_select list \<Rightarrow> (Time \<Rightarrow> put_call) list \<times> bool" where
  "parquet_doSink pf lib s batch [] = ([], False)"
| "parquet_doSink pf lib s batch (SinkDone # cs) =
     (if 0 < length batch then parquet_flush lib s Ctx_cancelled batch else [], True)"
| "parquet_doSink pf lib s batch (SinkTick # cs) =
     (if 0 < length batch
      then (let (calls, r) = parquet_doSink pf lib s [] cs
            in (parquet_flush lib s Ctx_sink batch @ calls, r))
      else parquet_doSink pf lib s batch cs)"
| "parquet_doSink pf lib s batch (SinkClosed # cs) = ([], True)"
| "parquet_doSink pf lib s batch (SinkRecv msg # cs) =
     (case as_Event msg of
        None \<Rightarrow> parquet_doSink pf lib s batch cs
      | Some event \<Rightarrow>
          let batch' = batch @ [toEventRow pf event]
          in if pqs_maxBatchSize s \<le> int (length batch')
             then (let (calls, r) = parquet_doSink pf lib s [] cs
                   in (parquet_flush lib s Ctx_sink batch' @ calls, r))
             else parquet_doSink pf lib s batch' cs)"

definition accept_row :: "platform \<Rightarrow> go_any \<Rightarrow> EventRow option" where
  "accept_row pf v = map_option (toEventRow pf) (as_Event v)"

text \<open>It keeps the contract of a batching sink, with the cancelled context for the last flush.\<close>

interpretation pq: batch_sink "parquet_doSink pf lib s" "pqs_maxBatchSize s" "accept_row pf"
    "parquet_flush lib s" Ctx_cancelled
  for pf lib s
  by unfold_locales (auto simp: accept_row_def Let_def split: prod.split)

section \<open>Properties\<close>

text \<open>
  The endpoint of the configuration, and only a configured one, replaces the endpoint of the SDK
  and turns path-style addressing on.
\<close>

lemma buildS3Client_endpoint:
  assumes "buildS3Client LoadDefaultConfig pc = Inr client"
  shows "fold apply_optFn (cl_optFns client) opts =
    (if pq_AWSEndpointURL pc = [] then opts
     else opts\<lparr>o_BaseEndpoint := Some (pq_AWSEndpointURL pc), o_UsePathStyle := True\<rparr>)"
  using assms by (auto simp: buildS3Client_def Let_def split: sum.splits)

lemma buildS3Client_credentials:
  assumes "buildS3Client LoadDefaultConfig pc = Inr client"
  shows "\<exists>opts. LoadDefaultConfig opts = Inr (cl_config client) \<and>
    (\<forall>k s t. WithCredentialsProvider k s t \<in> set opts \<longleftrightarrow>
       pq_AWSAccessKey pc \<noteq> [] \<and> k = pq_AWSAccessKey pc \<and> s = pq_AWSSecretKey pc \<and> t = [])"
  using assms by (auto simp: buildS3Client_def Let_def split: sum.splits if_splits)

lemma strings_Join_last: "\<exists>p. strings_Join (xs @ [x]) sep = p @ x"
proof (induction xs sep rule: strings_Join.induct)
  case (3 a b xs sep)
  then obtain p where "strings_Join ((b # xs) @ [x]) sep = p @ x" by blast
  then show ?case by (intro exI [of _ "a @ sep @ p"]) simp
qed auto

lemma objectKey_suffix: "\<exists>p. objectKey s t = p @ format_stamp t @ ''.parquet''"
proof -
  let ?dirs = "(if pqs_prefix s \<noteq> [] then [pqs_prefix s] else []) @
      (if pqs_eventType s \<noteq> [] then [pqs_eventType s] else []) @
      [''year='' @ decimal_int (ct_Year (civil_time t)), ''month='' @ pad 2 (nat (ct_Month (civil_time t))),
       ''day='' @ pad 2 (nat (ct_Day (civil_time t)))]"
  have "objectKey s t = strings_Join (?dirs @ [format_stamp t @ ''.parquet'']) ''/''"
    by (simp add: objectKey_def Let_def)
  then show ?thesis using strings_Join_last by metis
qed

text \<open>
  Object keys have the resolution of a second: two flushes of a sink use the same key,
  so that the second object replaces the first, exactly when they happen within the same
  second.
\<close>

lemma objectKey_collision:
  assumes "four_digit_year t" and "four_digit_year u"
  shows "objectKey s t = objectKey s u \<longleftrightarrow> t div Second_ns = u div Second_ns"
proof
  assume eq: "objectKey s t = objectKey s u"
  obtain p where p: "objectKey s t = p @ format_stamp t @ ''.parquet''"
    using objectKey_suffix by blast
  obtain q where q: "objectKey s u = q @ format_stamp u @ ''.parquet''"
    using objectKey_suffix by blast
  have "format_stamp t @ ''.parquet'' = format_stamp u @ ''.parquet''"
    using eq p q length_format_stamp [OF assms(1)] length_format_stamp [OF assms(2)]
    by (subst (asm) p, subst (asm) q) (simp add: append_eq_append_conv)
  then show "t div Second_ns = u div Second_ns"
    using format_stamp_inj [OF assms] by simp
next
  assume "t div Second_ns = u div Second_ns"
  then have "civil_time t = civil_time u" by (simp add: civil_time_def)
  then show "objectKey s t = objectKey s u" by (simp add: objectKey_def format_stamp_def)
qed

definition example_pq :: "int \<Rightarrow> ParquetSink" where
  "example_pq n = \<lparr>pqs_s3Client = \<lparr>cl_config = \<lparr>aws_Region = [], aws_StaticCredentials = None\<rparr>, cl_optFns = []\<rparr>,
     pqs_bucketName = ''b'', pqs_prefix = ''transit'', pqs_eventType = ''stop_events'',
     pqs_maxBatchSize = n, pqs_flushInterval = time_Hour\<rparr>"

definition example_writer :: parquet_lib where
  "example_writer = \<lparr>pw_Write = (\<lambda>rows. None), pw_Close = (\<lambda>rows. Inr [])\<rparr>"

lemma serializeRows_example [simp]: "serializeRows example_writer rows = Inr []"
  by (simp add: serializeRows_def example_writer_def)

lemma received_rows: "received (accept_row pf) rs = map (toEventRow pf) (received as_Event rs)"
  by (induction "as_Event :: go_any \<Rightarrow> event option" rs rule: received.induct)
    (auto simp: accept_row_def split: option.split)

text \<open>
  Property C38. Up to the moment of cancellation the sink neither loses, duplicates nor reorders
  rows: when the encoder succeeds, the bodies it puts are the encodings of consecutive batches
  of at most the batch limit, which together are the rows of all received events.
\<close>

theorem parquet_puts_every_row:
  assumes "list_all keeps_running rs" and "0 < pqs_maxBatchSize s" and "\<And>b. serializeRows lib b = Inr (enc b)"
  shows "\<exists>bs. concat bs = map (toEventRow pf) (received as_Event rs) \<and>
    list_all (\<lambda>b. b \<noteq> [] \<and> int (length b) \<le> pqs_maxBatchSize s) bs \<and>
    map (\<lambda>put. put_body (put now)) (fst (parquet_doSink pf lib s [] (rs @ SinkDone # cs))) = map enc bs"
proof -
  obtain fs where fs: "parquet_doSink pf lib s [] (rs @ SinkDone # cs) =
      (concat (map (\<lambda>(c, b). parquet_flush lib s c b) fs), True)"
      "concat (map snd fs) = received (accept_row pf) rs"
      "\<forall>f \<in> set fs. snd f \<noteq> [] \<and> int (length (snd f)) \<le> pqs_maxBatchSize s"
    using pq.until_cancelled [OF assms(1), of pf lib s cs] assms(2) by blast
  have "map (\<lambda>put. put_body (put now)) (concat (map (\<lambda>(c, b). parquet_flush lib s c b) fs)) =
      map enc (map snd fs)"
    using fs(3) by (induction fs) (auto simp: parquet_flush_def assms(3))
  then show ?thesis
    using fs by (intro exI [of _ "map snd fs"]) (auto simp: list_all_iff received_rows)
qed

theorem parquet_puts_every_row_witness:
  "\<exists>bs. concat bs = [toEventRow reference_platform (Stop_event None)] \<and>
    map (\<lambda>put. put_body (put 0)) (fst (parquet_doSink reference_platform example_writer (example_pq 2) []
      ([SinkRecv (Any_StopEvent None), SinkTick] @ SinkDone # []))) = map (\<lambda>b. []) bs"
  using parquet_puts_every_row [of "[SinkRecv (Any_StopEvent None), SinkTick]" "example_pq 2" example_writer
      "\<lambda>b. []" reference_platform 0 "[]"]
  by (auto simp: keeps_running_def as_Event_def example_pq_def)

text \<open>
  The last batch is put under the cancelled context: with fewer events than the batch
  limit pending, the only request made at shutdown runs under a context that is already done.
\<close>

lemma parquet_final_put_cancelled:
  assumes "vs \<noteq> []" and "int (length vs) < pqs_maxBatchSize s"
    and "serializeRows lib (map (toEventRow pf) vs) = Inr buf"
  shows "\<exists>put. parquet_doSink pf lib s []
      (map (\<lambda>e. SinkRecv (Any_event e)) vs @ SinkDone # cs) = ([put], True) \<and>
      put_ctx (put now) = Ctx_cancelled \<and> put_body (put now) = buf"
proof -
  have "parquet_doSink pf lib s batch (map (\<lambda>e. SinkRecv (Any_event e)) ws @ SinkDone # cs) =
      parquet_doSink pf lib s (batch @ map (toEventRow pf) ws) (SinkDone # cs)"
    if "int (length batch + length ws) < pqs_maxBatchSize s" for batch ws
    using that by (induction ws arbitrary: batch) (auto simp: as_Event_def Let_def)
  from this [of "[]" vs] show ?thesis
    using assms by (simp add: parquet_flush_def)
qed

end
