(* ===== verification/Sinks.thy ===== *)
theory Sinks
  imports Event_Server Db_Sink Parquet_Sink Streams State_Store
begin

text \<open>
  The remaining sinks of \<open>src/sinks\<close>: the log sink, the Redis sink, the SSE sink and the connector
  sink, and \<open>NewSink\<close>, which builds a sink from its configuration. A connector is a channel named
  by its id; \<open>None\<close> is a nil channel.
\<close>

section \<open>The log sink\<close>

type_synonym log_level = int

definition LevelInfo :: log_level where "LevelInfo = 0"
definition LevelWarn :: log_level where "LevelWarn = 4"
definition LevelError :: log_level where "LevelError = 8"

definition log_sink_level :: "ConsoleSinkConfig \<Rightarrow> log_level" where
  "log_sink_level cfg =
     (if con_Level cfg \<noteq> [] then
        (if con_Level cfg = ''info'' then LevelInfo
         else if con_Level cfg = ''warn'' then LevelWarn
         else if con_Level cfg = ''error'' then LevelError
         else LevelInfo)
      else LevelInfo)"

record LogSink =
  ls_level :: log_level

definition NewLogSink :: "ConsoleSinkConfig \<Rightarrow> LogSink" where
  "NewLogSink cfg = \<lparr>ls_level = log_sink_level cfg\<rparr>"

text \<open>What is logged: the level, the message and the attributes.\<close>

datatype log_record =
    Log_event log_level string "(string \<times> go_value) list"
  | Log_invalid go_any

text \<open>The entries of \<open>GetEventMap\<close>, in one of the orders in which the loop may visit them.\<close>

definition event_entries :: "platform \<Rightarrow> event \<Rightarrow> (string \<times> go_value) list" where
  "event_entries pf e = attributes_list pf e @ values_list pf e"

definition log_handle ::
    "(go_float \<Rightarrow> string) \<Rightarrow> platform \<Rightarrow> LogSink \<Rightarrow> unit \<Rightarrow> go_any \<Rightarrow> unit \<times> log_record list" where
  "log_handle fmt_float pf s st msg =
     (case as_Event msg of
        None \<Rightarrow> (st, [Log_invalid msg])
      | Some event \<Rightarrow>
          (st, [Log_event (ls_level s) (''Event: '' @ strings_TrimPrefix (event_T event) ''*events.'')
             (filter (\<lambda>(k, v). sprint_v fmt_float v \<noteq> []) (event_entries pf event))]))"

definition log_doSink ::
    "(go_float \<Rightarrow> string) \<Rightarrow> platform \<Rightarrow> LogSink \<Rightarrow> go_any select list \<Rightarrow> log_record list \<times> bool" where
  "log_doSink fmt_float pf s cs = snd (select_loop (log_handle fmt_float pf s) () cs)"

section \<open>The Redis sink\<close>

text \<open>The type assertion \<open>msg.(proto.Message)\<close>: the generated message types implement it.\<close>

definition is_proto :: "go_any \<Rightarrow> bool" where
  "is_proto v =
     (case v of Any_event e \<Rightarrow> True | Any_FeedMessageEvent e \<Rightarrow> True | Any_FeedMessage e \<Rightarrow> True | _ \<Rightarrow> False)"

record RedisSink =
  rsk_client :: redis_Options
  rsk_channel :: string

definition NewRedisSink :: "RedisSinkConfig \<Rightarrow> RedisSink" where
  "NewRedisSink cfg =
     \<lparr>rsk_client = \<lparr>ro_Addr = rsnk_Addr cfg, ro_Password = rsnk_Password cfg, ro_DB = rsnk_DB cfg\<rparr>,
      rsk_channel = rsnk_Channel cfg\<rparr>"

text \<open>The calls of \<open>Publish\<close>, a channel and a payload each; a failed call is only logged.\<close>

definition redis_sink_handle ::
    "proto_codec \<Rightarrow> RedisSink \<Rightarrow> unit \<Rightarrow> go_any \<Rightarrow> unit \<times> (string \<times> bytes) list" where
  "redis_sink_handle pc s st msg =
     (if \<not> is_proto msg then (st, [])
      else (case proto_Marshal pc msg of
         Inl err \<Rightarrow> (st, [])
       | Inr b \<Rightarrow> (st, [(rsk_channel s, b)])))"

definition redis_sink_doSink ::
    "proto_codec \<Rightarrow> RedisSink \<Rightarrow> go_any select list \<Rightarrow> (string \<times> bytes) list \<times> bool" where
  "redis_sink_doSink pc s cs = snd (select_loop (redis_sink_handle pc s) () cs)"

section \<open>The SSE sink\<close>

text \<open>
  How the goroutine of the sink ends: it is still waiting, it returned, or it panicked. The
  deferred \<open>close(sink.in)\<close> panics when it is the closed input channel that ended the loop.
\<close>

datatype goroutine = Waiting | Returned | Panicked

fun sse_doSink ::
    "(go_float \<Rightarrow> string) \<Rightarrow> platform \<Rightarrow> EventServer \<Rightarrow> go_any select list \<Rightarrow> EventServer \<times> goroutine" where
  "sse_doSink fmt_float pf es [] = (es, Waiting)"
| "sse_doSink fmt_float pf es (CtxDone # cs) = (es, Returned)"
| "sse_doSink fmt_float pf es (InClosed # cs) = (es, Panicked)"
| "sse_doSink fmt_float pf es (InRecv v # cs) =
     (case as_Event v of
        None \<Rightarrow> sse_doSink fmt_float pf es cs
      | Some event \<Rightarrow>
          (case Broadcast fmt_float pf event es of
             None \<Rightarrow> (es, Panicked)
           | Some es' \<Rightarrow> sse_doSink fmt_float pf es' cs))"

section \<open>Construction\<close>

type_synonym connectors = "ID \<rightharpoonup> ID"

datatype Sink =
    Log_sink LogSink
  | Connector_sink "ID option"
  | SSE_sink SSESinkConfig
  | Database_sink DatabaseSink
  | Parquet_sink ParquetSink
  | Redis_sink RedisSink

text \<open>What the construction of sinks needs from outside.\<close>

record sink_env =
  env_sql_Open :: "string \<Rightarrow> string \<Rightarrow> string option"
  env_ping :: "string \<Rightarrow> string option"
  env_LoadDefaultConfig :: aws_loader

definition NewConnectorSink :: "ConnectorConfig \<Rightarrow> connectors \<Rightarrow> Sink" where
  "NewConnectorSink cfg conns = Connector_sink (conns (conn_ID cfg))"

definition NewSink :: "sink_env \<Rightarrow> SinkConfig \<Rightarrow> connectors \<Rightarrow> string + Sink" where
  "NewSink env cfg conns =
     (if snk_Type cfg = SinkTypeConsole then Inr (Log_sink (NewLogSink (snk_Console cfg)))
      else if snk_Type cfg = SinkTypeConnector then Inr (NewConnectorSink (snk_Connector cfg) conns)
      else if snk_Type cfg = SinkTypeSSE then Inr (SSE_sink (snk_SSE cfg))
      else if snk_Type cfg = SinkTypeDatabase then
        map_sum id Database_sink (NewDatabaseSink (env_sql_Open env) (env_ping env) cfg)
      else if snk_Type cfg = SinkTypeParquet then
        map_sum id Parquet_sink (NewParquetSink (env_LoadDefaultConfig env) cfg)
      else if snk_Type cfg = SinkTypeRedis then Inr (Redis_sink (NewRedisSink (snk_Redis cfg)))
      else Inl (''unknown sink type: '' @ snk_Type cfg))"

section \<open>Properties\<close>

text \<open>
  The levels the configuration declares do not all reach the log: a sink configured for warnings, for
  debugging or for fatal errors logs at the level of information.
\<close>

lemma console_levels_at_info:
  "log_sink_level \<lparr>con_Level = ConsoleSinkLevelWarning\<rparr> = LevelInfo"
  "log_sink_level \<lparr>con_Level = ConsoleSinkLevelDebug\<rparr> = LevelInfo"
  "log_sink_level \<lparr>con_Level = ConsoleSinkLevelFatal\<rparr> = LevelInfo"
  "log_sink_level \<lparr>con_Level = ConsoleSinkLevelError\<rparr> = LevelError"
  "log_sink_level \<lparr>con_Level = ''warn''\<rparr> = LevelWarn"
  by (simp_all add: log_sink_level_def console_levels)

lemma event_entries_map: "map_of (event_entries pf e) = GetEventMap pf e"
proof
  fix k
  have "map_of (attributes_list pf e ) k = None \<or> map_of (values_list pf e) k = None"
    using event_map_disjoint [of pf e]
    by (auto simp: GetEventAttributesMap_def GetEventValuesMap_def dom_def)
  then show "map_of (event_entries pf e) k = GetEventMap pf e k"
    by (auto simp: event_entries_def GetEventMap_def GetEventAttributesMap_def GetEventValuesMap_def
        map_add_def split: option.split)
qed

text \<open>
  On a server in a consistent state the SSE sink survives whatever values it receives and
  keeps the server consistent until the context is cancelled, but its goroutine panics in its
  deferred close when its input channel has been closed by the flow in front of it.
\<close>

lemma sse_sink_panics_on_close:
  assumes "es_inv es"
  shows "snd (sse_doSink fmt_float pf es (map InRecv vs @ InClosed # cs)) = Panicked \<and>
    snd (sse_doSink fmt_float pf es (map InRecv vs @ CtxDone # cs)) = Returned \<and>
    es_inv (fst (sse_doSink fmt_float pf es (map InRecv vs @ CtxDone # cs)))"
  using assms
proof (induction vs arbitrary: es)
  case Nil
  then show ?case by simp
next
  case (Cons v vs)
  show ?case
  proof (cases "as_Event v")
    case None
    then show ?thesis using Cons by simp
  next
    case (Some e)
    obtain es' where b: "Broadcast fmt_float pf e es = Some es'"
      using Broadcast_effect [OF Cons.prems, of fmt_float pf e] by blast
    then show ?thesis
      using Some Cons.IH [OF es_inv_broadcast [OF Cons.prems b]] by simp
  qed
qed

text \<open>The log sink writes one record for every message it receives, valid or not.\<close>

lemma log_doSink_every_message:
  "length (fst (log_doSink fmt pf s (map InRecv vs))) = length vs"
proof -
  have one: "length (snd (log_handle fmt pf s st v)) = 1" for st v
    by (simp add: log_handle_def split: option.split)
  have "length (fst (snd (select_loop (log_handle fmt pf s) () (map InRecv vs)))) = length vs"
  proof (induction vs)
    case (Cons v vs)
    then show ?case using one [of "()" v] by (simp add: Let_def case_prod_beta)
  qed simp
  then show ?thesis by (simp add: log_doSink_def)
qed

end
