(* ===== verification/Graph.thy ===== *)
theory Graph
  imports Sources Sinks
begin

text \<open>
  How the program is put together: \<open>src/statestore/state_store.go\<close>, \<open>src/processors/processor.go\<close>,
  \<open>src/pipelines/pipeline.go\<close> and \<open>src/graphs/graph.go\<close>. The constructors turn a configuration into
  sources, sinks, state stores and pipelines; running them is the subject of \<open>Pipeline_Run\<close>.

  A state store is either configured, and then shared under its id and closed with the graph, or
  owned by the processor that created it as its default.
\<close>

section \<open>State stores\<close>

record RedisStateStore =
  rss_ttl :: Duration
  rss_client :: redis_Options

definition NewRedisStateStore :: "RedisStateStoreConfig \<Rightarrow> RedisStateStore" where
  "NewRedisStateStore cfg =
     \<lparr>rss_ttl = rssc_Expiry cfg,
      rss_client = \<lparr>ro_Addr = rssc_Addr cfg, ro_Password = rssc_Password cfg, ro_DB = rssc_DB cfg\<rparr>\<rparr>"

datatype Store = InMemory_store InMemoryStateStore | Redis_store RedisStateStore

definition NewStateStore :: "StateStoreConfig \<Rightarrow> Store" where
  "NewStateStore cfg =
     (if ssc_Type cfg = RedisStateStoreType then Redis_store (NewRedisStateStore (ssc_Redis cfg))
      else InMemory_store (NewInMemoryStateStore (imsc_Expiry (ssc_InMemory cfg))))"

datatype store_handle = Configured_store ID | Owned_store Store

text \<open>The default store of a processor that is given none.\<close>

definition default_store :: "Duration \<Rightarrow> Store" where
  "default_store expiry =
     NewStateStore \<lparr>ssc_ID = [], ssc_Type = InMemoryStateStoreType,
       ssc_InMemory = \<lparr>imsc_Expiry = expiry\<rparr>,
       ssc_Redis = \<lparr>rssc_Addr = [], rssc_Password = [], rssc_DB = 0, rssc_Expiry = 0\<rparr>\<rparr>"

definition store_or_default :: "Duration \<Rightarrow> store_handle option \<Rightarrow> store_handle" where
  "store_or_default expiry stateStore =
     (case stateStore of Some s \<Rightarrow> s | None \<Rightarrow> Owned_store (default_store expiry))"

section \<open>Processors\<close>

datatype Processor =
    FeedMessage_processor ID
  | VehiclePosition_processor
  | StopEvent_processor store_handle
  | DwellEvent_processor store_handle
  | HeadwayEvent_processor store_handle
  | TravelTime_processor store_handle

definition NewFeedMessageProcessor :: "ID \<Rightarrow> Processor" where
  "NewFeedMessageProcessor agencyID = FeedMessage_processor agencyID"
definition NewVehiclePositionEventProcessor :: Processor where
  "NewVehiclePositionEventProcessor = VehiclePosition_processor"
definition NewStopEventProcessor :: "store_handle option \<Rightarrow> Processor" where
  "NewStopEventProcessor s = StopEvent_processor (store_or_default (2 * time_Hour) s)"
definition NewDwellEventProcessor :: "store_handle option \<Rightarrow> Processor" where
  "NewDwellEventProcessor s = DwellEvent_processor (store_or_default time_Hour s)"
definition NewHeadwayEventProcessor :: "store_handle option \<Rightarrow> Processor" where
  "NewHeadwayEventProcessor s = HeadwayEvent_processor (store_or_default (2 * time_Hour) s)"
definition NewTravelTimeEventProcessor :: "store_handle option \<Rightarrow> Processor" where
  "NewTravelTimeEventProcessor s = TravelTime_processor (store_or_default (2 * time_Hour) s)"

definition NewProcessor :: "ID \<Rightarrow> PipelineType \<Rightarrow> store_handle option \<Rightarrow> Processor option" where
  "NewProcessor agencyID pipelineType stateStore =
     (if pipelineType = PipelineTypeFeedMessage then Some (NewFeedMessageProcessor agencyID)
      else if pipelineType = PipelineTypeVehiclePosition then Some NewVehiclePositionEventProcessor
      else if pipelineType = PipelineTypeStopEvent then Some (NewStopEventProcessor stateStore)
      else if pipelineType = PipelineTypeDwellEvent then Some (NewDwellEventProcessor stateStore)
      else if pipelineType = PipelineTypeHeadwayEvent then Some (NewHeadwayEventProcessor stateStore)
      else if pipelineType = PipelineTypeTravelTime then Some (NewTravelTimeEventProcessor stateStore)
      else None)"

section \<open>Pipelines\<close>

record Pipeline =
  pip_ID :: ID
  pip_agencyID :: ID
  pip_pipelineType :: PipelineType
  pip_sources :: "Source list"
  pip_stateStore :: "store_handle option"
  pip_sinks :: "Sink list"
  pip_processor :: "Processor option"

datatype pipeline_error = Source_not_found ID ID | Sink_not_found ID ID

text \<open>A loop that looks keys up and returns at the first that is missing.\<close>

fun collect :: "('k \<rightharpoonup> 'v) \<Rightarrow> ('k \<Rightarrow> 'e) \<Rightarrow> 'k list \<Rightarrow> 'e + 'v list" where
  "collect m missing [] = Inr []"
| "collect m missing (k # ks) =
     (case m k of
        None \<Rightarrow> Inl (missing k)
      | Some v \<Rightarrow> (case collect m missing ks of Inl e \<Rightarrow> Inl e | Inr vs \<Rightarrow> Inr (v # vs)))"

definition NewPipeline ::
    "PipelineConfig \<Rightarrow> (ID \<rightharpoonup> Source) \<Rightarrow> (ID \<rightharpoonup> Sink) \<Rightarrow> (ID \<rightharpoonup> Store) \<Rightarrow> pipeline_error + Pipeline" where
  "NewPipeline cfg sourcesByID sinksByID stateStoresByID =
     (case collect sourcesByID (Source_not_found (pl_ID cfg)) (pl_Sources cfg) of
        Inl e \<Rightarrow> Inl e
      | Inr pipelineSources \<Rightarrow>
          let stateStore = map_option (\<lambda>_. Configured_store (pl_StateStore cfg))
                (stateStoresByID (pl_StateStore cfg))
          in (case collect sinksByID (Sink_not_found (pl_ID cfg)) (pl_Sinks cfg) of
                Inl e \<Rightarrow> Inl e
              | Inr pipelineSinks \<Rightarrow> Inr
                  \<lparr>pip_ID = pl_ID cfg, pip_agencyID = pl_AgencyID cfg, pip_pipelineType = pl_Type cfg,
                   pip_sources = pipelineSources, pip_stateStore = stateStore,
                   pip_sinks = pipelineSinks,
                   pip_processor = NewProcessor (pl_AgencyID cfg) (pl_Type cfg) stateStore\<rparr>))"

section \<open>The graph\<close>

record Graph =
  gr_pipelines :: "Pipeline list"
  gr_stateStores :: "(ID \<times> Store) list"
  gr_outlet :: "ID option"

datatype graph_error = Source_error string | Sink_error ID string | Pipeline_error ID pipeline_error

text \<open>The result of a constructor that may return an error or panic.\<close>

datatype ('e, 'a) outcome = Built 'a | Fails 'e | Panics

type_synonym GraphOption = "Graph \<times> connectors \<times> GraphConfig \<Rightarrow> Graph \<times> connectors \<times> GraphConfig"

definition connector_source :: "ID \<Rightarrow> SourceConfig" where
  "connector_source cid = SourceConfig_zero\<lparr>src_Type := SourceTypeConnector, src_Connector := \<lparr>conn_ID = cid\<rparr>\<rparr>"

definition connector_sink :: "ID \<Rightarrow> SinkConfig" where
  "connector_sink cid = SinkConfig_zero\<lparr>snk_Type := SinkTypeConnector, snk_Connector := \<lparr>conn_ID = cid\<rparr>\<rparr>"

text \<open>
  The first loop: a channel, a source and a sink per connector. Writing to a nil map panics.
\<close>

fun set_up_connectors ::
    "ID list \<Rightarrow> connectors \<Rightarrow> GraphConfig \<Rightarrow> (connectors \<times> GraphConfig) option" where
  "set_up_connectors [] conns cfg = Some (conns, cfg)"
| "set_up_connectors (cid # cids) conns cfg =
     (case (gc_Sources cfg, gc_Sinks cfg) of
        (Some srcs, Some snks) \<Rightarrow>
          set_up_connectors cids (conns(cid \<mapsto> cid))
            (cfg\<lparr>gc_Sources := Some (AList.update cid (connector_source cid) srcs),
                 gc_Sinks := Some (AList.update cid (connector_sink cid) snks)\<rparr>)
      | _ \<Rightarrow> None)"

text \<open>A loop over a map that builds a value per entry and returns at the first error.\<close>

fun build_all :: "(ID \<Rightarrow> 'c \<Rightarrow> 'e + 'v) \<Rightarrow> (ID \<times> 'c) list \<Rightarrow> 'e + (ID \<times> 'v) list" where
  "build_all build [] = Inr []"
| "build_all build ((i, c) # cs) =
     (case build i c of
        Inl e \<Rightarrow> Inl e
      | Inr v \<Rightarrow> (case build_all build cs of Inl e \<Rightarrow> Inl e | Inr vs \<Rightarrow> Inr ((i, v) # vs)))"

definition NewGraph :: "sink_env \<Rightarrow> GraphConfig \<Rightarrow> GraphOption list \<Rightarrow> (graph_error, Graph) outcome" where
  "NewGraph env cfg0 opts =
     (case set_up_connectors (map_keys (gc_Connectors cfg0)) Map.empty cfg0 of
        None \<Rightarrow> Panics
      | Some (conns0, cfg1) \<Rightarrow>
          let (graph, conns, cfg) =
                foldl (\<lambda>s opt. opt s)
                  (\<lparr>gr_pipelines = [], gr_stateStores = [], gr_outlet = None\<rparr>, conns0, cfg1) opts
          in (case build_all (\<lambda>i c. map_sum Source_error id (NewSource c conns)) (entries (gc_Sources cfg)) of
                Inl e \<Rightarrow> Fails e
              | Inr srcs \<Rightarrow>
                  (case build_all (\<lambda>i c. map_sum (Sink_error i) id (NewSink env c conns)) (entries (gc_Sinks cfg)) of
                     Inl e \<Rightarrow> Fails e
                   | Inr snks \<Rightarrow>
                       let stores = map (\<lambda>(i, c). (i, NewStateStore c)) (entries (gc_StateStores cfg))
                       in (case build_all (\<lambda>i c. map_sum (Pipeline_error (pl_ID c)) id
                                   (NewPipeline c (map_of srcs) (map_of snks) (map_of stores)))
                                 (entries (gc_Pipelines cfg)) of
                             Inl e \<Rightarrow> Fails e
                           | Inr ps \<Rightarrow> Built (graph
                               \<lparr>gr_stateStores := gr_stateStores graph @ stores,
                                gr_pipelines := gr_pipelines graph @ map snd ps\<rparr>)))))"

definition Store_Close :: "Store \<Rightarrow> Store option" where
  "Store_Close s =
     (case s of
        InMemory_store st \<Rightarrow> map_option InMemory_store (InMemory_Close st)
      | Redis_store c \<Rightarrow> Some (Redis_store c))"

text \<open>\<open>Close\<close>; \<open>None\<close> is the panic of a store that is already closed.\<close>

fun close_stores :: "(ID \<times> Store) list \<Rightarrow> (ID \<times> Store) list option" where
  "close_stores [] = Some []"
| "close_stores ((i, s) # ss) =
     (case Store_Close s of
        None \<Rightarrow> None
      | Some s' \<Rightarrow> map_option (\<lambda>ss'. (i, s') # ss') (close_stores ss))"

definition Graph_Close :: "Graph \<Rightarrow> Graph option" where
  "Graph_Close g = map_option (\<lambda>ss. g\<lparr>gr_stateStores := ss\<rparr>) (close_stores (gr_stateStores g))"

section \<open>Properties\<close>

lemma collect_known:
  "list_all (\<lambda>k. k \<in> dom m) ks \<Longrightarrow> collect m missing ks = Inr (map (the \<circ> m) ks)"
  by (induction ks) auto

lemma build_all_ok:
  "list_all (\<lambda>(i, c). \<exists>v. build i c = Inr v) cs \<Longrightarrow>
   \<exists>vs. build_all build cs = Inr vs \<and> map fst vs = map fst cs \<and>
     list_all2 (\<lambda>(i, c) (j, v). build i c = Inr v) cs vs"
  by (induction build cs rule: build_all.induct) auto

lemma NewProcessor_valid: "NewProcessor agency ty s \<noteq> None \<longleftrightarrow> validPipelineTypes ty"
  by (auto simp: NewProcessor_def validPipelineTypes_def)

lemma update_set: "x \<in> set (AList.update k v al) \<Longrightarrow> x = (k, v) \<or> x \<in> set al"
  by (induction al) (auto split: if_splits)

text \<open>A map after an entry has been written for each connector.\<close>

definition with_connectors :: "(ID \<Rightarrow> 'c) \<Rightarrow> ID list \<Rightarrow> (ID \<times> 'c) list \<Rightarrow> (ID \<times> 'c) list" where
  "with_connectors mk cids al = fold (\<lambda>cid. AList.update cid (mk cid)) cids al"

lemma with_connectors_keys: "fst ` set (with_connectors mk cids al) = fst ` set al \<union> set cids"
  unfolding with_connectors_def by (induction cids arbitrary: al) (auto simp: dom_update)

lemma with_connectors_set:
  "x \<in> set (with_connectors mk cids al) \<Longrightarrow> x \<in> set al \<or> snd x = mk (fst x)"
  unfolding with_connectors_def
proof (induction cids arbitrary: al)
  case (Cons cid cids)
  then show ?case using update_set [of x cid "mk cid" al] by auto
qed simp

lemma set_up_connectors_ok:
  "gc_Sources cfg = Some srcs \<Longrightarrow> gc_Sinks cfg = Some snks \<Longrightarrow>
   \<exists>conns'. set_up_connectors cids conns cfg = Some (conns',
     cfg\<lparr>gc_Sources := Some (with_connectors connector_source cids srcs),
         gc_Sinks := Some (with_connectors connector_sink cids snks)\<rparr>)"
proof (induction cids arbitrary: conns cfg srcs snks)
  case Nil
  then show ?case by (simp add: with_connectors_def)
next
  case (Cons cid cids)
  let ?cfg = "cfg\<lparr>gc_Sources := Some (AList.update cid (connector_source cid) srcs),
    gc_Sinks := Some (AList.update cid (connector_sink cid) snks)\<rparr>"
  show ?case
    using Cons.prems Cons.IH [of ?cfg "AList.update cid (connector_source cid) srcs"
      "AList.update cid (connector_sink cid) snks" "conns(cid \<mapsto> cid)"]
    by (simp add: with_connectors_def del: fun_upd_apply)
qed

definition source_type_known :: "SourceConfig \<Rightarrow> bool" where
  "source_type_known c \<longleftrightarrow> src_Type c \<in> {SourceTypeHTTP, SourceTypeConnector, SourceTypeRedis}"

lemma NewSource_ok: "source_type_known c \<Longrightarrow> polls_well c \<Longrightarrow> \<exists>s. NewSource c conns = Inr s"
  by (auto simp: source_type_known_def polls_well_def NewSource_def NewHTTPSource_def)

lemma connector_ok:
  "\<exists>s. NewSource (connector_source cid) conns = Inr s"
  "\<exists>s. NewSink env (connector_sink cid) conns = Inr s"
  by (auto simp: connector_source_def connector_sink_def SourceConfig_zero_def SinkConfig_zero_def
      NewSource_def NewSink_def SourceType_defs SinkType_defs)

text \<open>The configuration after the first loop: the same pipelines, with the connectors added.\<close>

lemma set_up_connectors_validated:
  assumes "map_keys (gc_Connectors cfg) = [] \<or> gc_Sources cfg \<noteq> None \<and> gc_Sinks cfg \<noteq> None"
  obtains conns cfg' where
    "set_up_connectors (map_keys (gc_Connectors cfg)) Map.empty cfg = Some (conns, cfg')"
    "gc_Pipelines cfg' = gc_Pipelines cfg" "gc_StateStores cfg' = gc_StateStores cfg"
    "entries (gc_Sources cfg') =
       with_connectors connector_source (map_keys (gc_Connectors cfg)) (entries (gc_Sources cfg))"
    "entries (gc_Sinks cfg') =
       with_connectors connector_sink (map_keys (gc_Connectors cfg)) (entries (gc_Sinks cfg))"
proof (cases "map_keys (gc_Connectors cfg) = []")
  case True
  then show ?thesis
    by (intro that [of Map.empty cfg]) (simp_all add: with_connectors_def)
next
  case False
  then obtain srcs snks where s: "gc_Sources cfg = Some srcs" "gc_Sinks cfg = Some snks"
    using assms by auto
  then obtain conns where "set_up_connectors (map_keys (gc_Connectors cfg)) Map.empty cfg = Some (conns,
     cfg\<lparr>gc_Sources := Some (with_connectors connector_source (map_keys (gc_Connectors cfg)) srcs),
         gc_Sinks := Some (with_connectors connector_sink (map_keys (gc_Connectors cfg)) snks)\<rparr>)"
    using set_up_connectors_ok by blast
  then show ?thesis by (rule that) (simp_all add: s)
qed

lemma NewPipeline_wired:
  assumes "wired cfg p"
    and "\<And>i. known_source cfg i \<Longrightarrow> i \<in> dom srcs" and "\<And>i. known_sink cfg i \<Longrightarrow> i \<in> dom snks"
  shows "\<exists>q. NewPipeline p srcs snks stores = Inr q \<and> pip_ID q = pl_ID p \<and> pip_processor q \<noteq> None \<and>
    pip_sources q \<noteq> [] \<and> pip_sinks q \<noteq> []"
proof -
  have "collect srcs (Source_not_found (pl_ID p)) (pl_Sources p) = Inr (map (the \<circ> srcs) (pl_Sources p))"
    "collect snks (Sink_not_found (pl_ID p)) (pl_Sinks p) = Inr (map (the \<circ> snks) (pl_Sinks p))"
    using assms by (auto intro!: collect_known simp: wired_def list_all_iff)
  then show ?thesis
    using assms(1) NewProcessor_valid by (simp add: NewPipeline_def wired_def Let_def)
qed

lemma build_all_dom:
  assumes "list_all (\<lambda>(i, c). \<exists>v. build i c = Inr v) cs"
  shows "\<exists>vs. build_all build cs = Inr vs \<and> dom (map_of vs) = fst ` set cs"
proof -
  obtain vs where "build_all build cs = Inr vs" "map fst vs = map fst cs"
    using build_all_ok [OF assms] by blast
  then show ?thesis by (metis dom_map_of_conv_image_fst set_map)
qed

lemma build_sources:
  assumes "list_all (\<lambda>(i, c). polls_well c \<and> source_type_known c) srcs"
  shows "\<exists>vs. build_all (\<lambda>i c. map_sum Source_error id (NewSource c conns))
      (with_connectors connector_source cids srcs) = Inr vs \<and> dom (map_of vs) = fst ` set srcs \<union> set cids"
proof -
  have "\<exists>v. map_sum Source_error id (NewSource (snd x) conns) = Inr v"
    if "x \<in> set (with_connectors connector_source cids srcs)" for x
  proof -
    have "\<exists>v. NewSource (snd x) conns = Inr v"
      using with_connectors_set [OF that] connector_ok(1) [of "fst x" conns] assms
        NewSource_ok [of "snd x" conns] by (fastforce simp: list_all_iff)
    then show ?thesis by auto
  qed
  then have "list_all (\<lambda>(i, c). \<exists>v. map_sum Source_error id (NewSource c conns) = Inr v)
      (with_connectors connector_source cids srcs)"
    by (fastforce simp: list_all_iff)
  from build_all_dom [OF this] show ?thesis by (simp add: with_connectors_keys)
qed

lemma build_sinks:
  assumes "list_all (\<lambda>(i, c). \<forall>conns. \<exists>s. NewSink env c conns = Inr s) snks"
  shows "\<exists>vs. build_all (\<lambda>i c. map_sum (Sink_error i) id (NewSink env c conns))
      (with_connectors connector_sink cids snks) = Inr vs \<and> dom (map_of vs) = fst ` set snks \<union> set cids"
proof -
  have "\<exists>v. map_sum (Sink_error (fst x)) id (NewSink env (snd x) conns) = Inr v"
    if "x \<in> set (with_connectors connector_sink cids snks)" for x
  proof -
    have "\<exists>v. NewSink env (snd x) conns = Inr v"
      using with_connectors_set [OF that] connector_ok(2) [of env "fst x" conns] assms
      by (fastforce simp: list_all_iff)
    then show ?thesis by auto
  qed
  then have "list_all (\<lambda>(i, c). \<exists>v. map_sum (Sink_error i) id (NewSink env c conns) = Inr v)
      (with_connectors connector_sink cids snks)"
    by (fastforce simp: list_all_iff)
  from build_all_dom [OF this] show ?thesis by (simp add: with_connectors_keys)
qed

lemma build_pipelines:
  assumes "list_all (\<lambda>(i, p). wired cfg p) ps"
    and "\<And>i. known_source cfg i \<Longrightarrow> i \<in> dom srcs" and "\<And>i. known_sink cfg i \<Longrightarrow> i \<in> dom snks"
  shows "\<exists>qs. build_all (\<lambda>i c. map_sum (Pipeline_error (pl_ID c)) id (NewPipeline c srcs snks stores)) ps = Inr qs \<and>
    map (pip_ID \<circ> snd) qs = map (pl_ID \<circ> snd) ps \<and>
    list_all (\<lambda>q. pip_processor (snd q) \<noteq> None \<and> pip_sources (snd q) \<noteq> [] \<and> pip_sinks (snd q) \<noteq> []) qs"
  using assms(1)
proof (induction ps)
  case (Cons x ps)
  obtain i p where x: "x = (i, p)" by fastforce
  then obtain q where "NewPipeline p srcs snks stores = Inr q" "pip_ID q = pl_ID p" "pip_processor q \<noteq> None"
      "pip_sources q \<noteq> []" "pip_sinks q \<noteq> []"
    using NewPipeline_wired [of cfg p srcs snks stores] Cons.prems assms(2,3) by auto
  then show ?case using Cons x by auto
qed simp

text \<open>
  Property C10. A validated configuration starts: when every source has a type that can be built, the
  sinks can be built, and the maps the connectors are written to exist, \<open>NewGraph\<close> returns a
  graph with one pipeline per configured pipeline, in their order, each with a processor, at least one source and at
  least one sink.
\<close>

theorem NewGraph_validated:
  assumes "Validate cfg = None"
    and "map_keys (gc_Connectors cfg) = [] \<or> gc_Sources cfg \<noteq> None \<and> gc_Sinks cfg \<noteq> None"
    and "list_all (\<lambda>(i, c). source_type_known c) (entries (gc_Sources cfg))"
    and "list_all (\<lambda>(i, c). \<forall>conns. \<exists>s. NewSink env c conns = Inr s) (entries (gc_Sinks cfg))"
  shows "\<exists>g. NewGraph env cfg [] = Built g \<and>
    map pip_ID (gr_pipelines g) = map (\<lambda>(i, p). pl_ID p) (entries (gc_Pipelines cfg)) \<and>
    list_all (\<lambda>p. pip_processor p \<noteq> None \<and> pip_sources p \<noteq> [] \<and> pip_sinks p \<noteq> []) (gr_pipelines g)"
proof -
  have v: "list_all (\<lambda>(i, c). polls_well c \<and> source_type_known c) (entries (gc_Sources cfg))"
    "list_all (\<lambda>(i, p). wired cfg p) (entries (gc_Pipelines cfg))"
    using assms(1,3) unfolding Validate_None by (auto simp: list_all_iff)
  obtain conns cfg' where c:
    "set_up_connectors (map_keys (gc_Connectors cfg)) Map.empty cfg = Some (conns, cfg')"
    "gc_Pipelines cfg' = gc_Pipelines cfg" "gc_StateStores cfg' = gc_StateStores cfg"
    "entries (gc_Sources cfg') =
       with_connectors connector_source (map_keys (gc_Connectors cfg)) (entries (gc_Sources cfg))"
    "entries (gc_Sinks cfg') =
       with_connectors connector_sink (map_keys (gc_Connectors cfg)) (entries (gc_Sinks cfg))"
    by (rule set_up_connectors_validated [OF assms(2)])
  obtain srcs where srcs: "build_all (\<lambda>i c. map_sum Source_error id (NewSource c conns)) (entries (gc_Sources cfg')) = Inr srcs"
      "dom (map_of srcs) = fst ` set (entries (gc_Sources cfg)) \<union> set (map_keys (gc_Connectors cfg))"
    using build_sources [OF v(1)] unfolding c(4) by blast
  obtain snks where snks: "build_all (\<lambda>i c. map_sum (Sink_error i) id (NewSink env c conns)) (entries (gc_Sinks cfg')) = Inr snks"
      "dom (map_of snks) = fst ` set (entries (gc_Sinks cfg)) \<union> set (map_keys (gc_Connectors cfg))"
    using build_sinks [OF assms(4)] unfolding c(5) by blast
  let ?stores = "map_of (map (\<lambda>(i, c). (i, NewStateStore c)) (entries (gc_StateStores cfg')))"
  obtain qs where qs: "build_all (\<lambda>i c. map_sum (Pipeline_error (pl_ID c)) id
      (NewPipeline c (map_of srcs) (map_of snks) ?stores)) (entries (gc_Pipelines cfg')) = Inr qs"
      "map (pip_ID \<circ> snd) qs = map (pl_ID \<circ> snd) (entries (gc_Pipelines cfg'))"
      "list_all (\<lambda>q. pip_processor (snd q) \<noteq> None \<and> pip_sources (snd q) \<noteq> [] \<and> pip_sinks (snd q) \<noteq> []) qs"
    using build_pipelines [of cfg "entries (gc_Pipelines cfg')" "map_of srcs" "map_of snks" ?stores]
      v(2) c(2) srcs(2) snks(2) by (auto simp: known_source_def known_sink_def simp del: entries_def)
  have "NewGraph env cfg [] = Built \<lparr>gr_pipelines = map snd qs,
      gr_stateStores = map (\<lambda>(i, c). (i, NewStateStore c)) (entries (gc_StateStores cfg')), gr_outlet = None\<rparr>"
    unfolding NewGraph_def c(1)
    by (simp add: srcs(1) snks(1) qs(1) Let_def del: entries_def)
  then show ?thesis
    using qs(2,3) c(2) by (simp add: list_all_iff case_prod_beta o_def del: entries_def)
qed

text \<open>A configuration with one connector that feeds a pipeline back into itself.\<close>

definition example_graph :: "(ID, SourceConfig) go_map \<Rightarrow> (ID, SinkConfig) go_map \<Rightarrow> GraphConfig" where
  "example_graph srcs snks =
     \<lparr>gc_Sources = srcs, gc_StateStores = None, gc_Connectors = Some [(''c'', ())], gc_Sinks = snks,
      gc_Pipelines = Some [(''p'', \<lparr>pl_ID = ''p'', pl_AgencyID = [], pl_Type = PipelineTypeStopEvent,
        pl_Sources = [''c''], pl_StateStore = [], pl_Sinks = [''c'']\<rparr>)],
      gc_Outlet = None\<rparr>"

lemma example_graph_valid: "Validate (example_graph srcs snks) = None \<longleftrightarrow>
    list_all (\<lambda>(i, src). polls_well src) (entries srcs)"
  by (simp add: Validate_None example_graph_def wired_def validPipelineTypes_def known_source_def
      known_sink_def)

definition example_env :: sink_env where
  "example_env = \<lparr>env_sql_Open = (\<lambda>d u. None), env_ping = (\<lambda>u. None), 
     env_LoadDefaultConfig = (\<lambda>opts. Inr \<lparr>aws_Region = ''us-east-1'', aws_StaticCredentials = None\<rparr>)\<rparr>"

theorem NewGraph_validated_witness:
  "\<exists>g. NewGraph example_env (example_graph (Some []) (Some [])) [] = Built g \<and>
     map pip_ID (gr_pipelines g) = [''p'']"
  using NewGraph_validated [of "example_graph (Some []) (Some [])" example_env]
  by (auto simp: example_graph_valid) (auto simp: example_graph_def)

text \<open>
  Every configuration with a connector but without a section for sources, or without one
  for sinks, makes the program panic: \<open>NewGraph\<close> writes to the nil map. Validation does not
  prevent it, as the configuration of the witness shows.
\<close>

lemma NewGraph_nil_map_panics:
  assumes "map_keys (gc_Connectors cfg) \<noteq> []" and "gc_Sources cfg = None \<or> gc_Sinks cfg = None"
  shows "NewGraph env cfg opts = Panics"
  using assms by (cases "map_keys (gc_Connectors cfg)") (auto simp: NewGraph_def split: option.split)

lemma NewGraph_stores:
  assumes "NewGraph env cfg [] = Built g"
  shows "\<exists>cs. gr_stateStores g = map (\<lambda>(i, c). (i, NewStateStore c)) cs"
  using assms unfolding NewGraph_def
  by (auto simp: Let_def simp del: entries_def split: option.splits sum.splits prod.splits)

definition store_closed :: "Store \<Rightarrow> bool" where
  "store_closed s = (case s of InMemory_store st \<Rightarrow> ims_done st | Redis_store c \<Rightarrow> True)"

lemma close_new_stores:
  "\<exists>ss. close_stores (map (\<lambda>(i, c). (i, NewStateStore c)) cs) = Some ss \<and>
     map fst ss = map fst cs \<and> list_all (\<lambda>(i, s). store_closed s) ss"
  by (induction cs)
    (auto simp: Store_Close_def NewStateStore_def NewInMemoryStateStore_def InMemory_Close_def
      store_closed_def)

text \<open>
  Shutting down a new graph closes every configured state store exactly once, so
  no store panics and every background sweep is told to stop.
\<close>

lemma Graph_Close_closes_every_store:
  assumes "NewGraph env cfg [] = Built g"
  shows "\<exists>g'. Graph_Close g = Some g' \<and> map fst (gr_stateStores g') = map fst (gr_stateStores g) \<and>
    list_all (\<lambda>(i, s). store_closed s) (gr_stateStores g')"
proof -
  obtain cs where cs: "gr_stateStores g = map (\<lambda>(i, c). (i, NewStateStore c)) cs"
    using NewGraph_stores [OF assms] by blast
  obtain ss where "close_stores (gr_stateStores g) = Some ss" "map fst ss = map fst cs"
      "list_all (\<lambda>(i, s). store_closed s) ss"
    unfolding cs using close_new_stores by blast
  then show ?thesis by (simp add: Graph_Close_def cs case_prod_beta o_def)
qed

end
