(* ===== verification/Transit_Chain.thy ===== *)
theory Transit_Chain
  imports Feed_Message Vehicle_Position Stop_Event Dwell_Event Headway_Event Travel_Time Graph
begin

text \<open>
  Properties of the processors connected as the configured pipelines connect them: the output
  channel of one is the input channel of the next.
\<close>

section \<open>From the feed to the stop events\<close>

text \<open>A position that names its stop, and a store that holds such positions only.\<close>

definition names_stop :: "VehiclePositionEvent option \<Rightarrow> bool" where
  "names_stop e \<longleftrightarrow> GetStopId (VehiclePositionEvent_GetAttributes e) \<noteq> []"

lemma vehicle_entity_names_stop: "vehicle_entity pf agency entity = Some e \<Longrightarrow> names_stop (Some e)"
  by (auto simp: vehicle_entity_def names_stop_def EventAttributes_zero_def Let_def split: if_splits)

lemma vehicle_handle_names_stop: "e \<in> set (snd (vehicle_handle pf st x)) \<Longrightarrow> names_stop (Some e)"
  using vehicle_entity_names_stop
  by (auto simp: vehicle_handle_def List.map_filter_def Let_def split: go_any.splits if_splits)

lemma vehicle_doStream_names_stop: "e \<in> set (fst (vehicle_doStream pf cs)) \<Longrightarrow> names_stop (Some e)"
  unfolding vehicle_doStream_def
  by (rule select_loop_outputs_all [where h = "vehicle_handle pf"]) (rule vehicle_handle_names_stop)

definition stops_stored :: "InMemoryStateStore \<Rightarrow> bool" where
  "stops_stored st \<longleftrightarrow>
     (\<forall>k t. case InMemory_lookup st t k vp_proto of
        Some (Any_event (VehiclePosition_event pv)) \<Rightarrow> names_stop pv
      | Some _ \<Rightarrow> False
      | None \<Rightarrow> True)"

lemma stops_stored_new: "stops_stored (NewInMemoryStateStore d)"
  by (simp add: stops_stored_def)

lemma makeStopEvent_not_nil:
  "GetVehicleId (VehiclePositionEvent_GetAttributes e) \<noteq> [] \<Longrightarrow> s \<noteq> [] \<Longrightarrow> makeStopEvent e s ty \<noteq> None"
  by (cases e) (auto simp: makeStopEvent_def Let_def)

lemma stop_emit_stop:
  assumes "x \<in> set (stop_emit (Some (Any_VehiclePositionEvent pv)) e)"
  shows "\<exists>s ty. x = makeStopEvent e s ty \<and>
    s \<in> {GetStopId (VehiclePositionEvent_GetAttributes pv), GetStopId (VehiclePositionEvent_GetAttributes e)}"
  using assms
  by (cases pv) (auto simp: stop_emit_def stop_switch_def Let_def split: if_splits)

lemma stop_emit_not_nil:
  assumes "names_stop e" and "GetVehicleId (VehiclePositionEvent_GetAttributes e) \<noteq> []"
    and "names_stop pv"
  shows "None \<notin> set (stop_emit (Some (Any_VehiclePositionEvent pv)) e)"
proof
  assume "None \<in> set (stop_emit (Some (Any_VehiclePositionEvent pv)) e)"
  then obtain s ty where "None = makeStopEvent e s ty"
      "s \<in> {GetStopId (VehiclePositionEvent_GetAttributes pv), GetStopId (VehiclePositionEvent_GetAttributes e)}"
    by (blast dest: stop_emit_stop)
  moreover from this have "s \<noteq> []" using assms(1,3) unfolding names_stop_def by (metis insertE singletonD)
  ultimately show False using makeStopEvent_not_nil [OF assms(2), of s ty] by simp
qed

lemma stop_step_not_nil:
  assumes "stops_stored st" and "names_stop (snd (snd i))"
  shows "stops_stored (fst (stop_step InMemory_ops st i)) \<and> None \<notin> set (snd (stop_step InMemory_ops st i))"
proof (cases "vp_key i = []")
  case True
  then show ?thesis using assms by (simp add: in_memory.stop_step_skip)
next
  case False
  let ?l = "InMemory_lookup st (fst i) (vp_key i) vp_proto"
  have l: "case ?l of Some (Any_event (VehiclePosition_event pv)) \<Rightarrow> names_stop pv
      | Some _ \<Rightarrow> False | None \<Rightarrow> True"
    using assms(1) by (simp add: stops_stored_def)
  have "stops_stored (fst (InMemory_Set ts st k (Any_VehiclePositionEvent (snd (snd i))) time_Hour))" for ts k
    using assms by (auto simp: stops_stored_def InMemory_lookup_set)
  moreover have "None \<notin> set (stop_emit ?l (snd (snd i)))"
    using l stop_emit_not_nil [OF assms(2)] False
    by (auto simp: vp_key_def stop_emit_def simp del: GetVehicleId_def VehiclePositionEvent_GetAttributes_def split: option.splits go_any.splits event.splits)
  ultimately show ?thesis
    using False assms(1) by (auto simp: in_memory.stop_step_eq split: option.split go_any.split)
qed

lemma stop_run_not_nil:
  "stops_stored st \<Longrightarrow> list_all (\<lambda>i. names_stop (snd (snd i))) is \<Longrightarrow>
   None \<notin> set (outputs (stop_step InMemory_ops) st is)"
proof (induction "is" arbitrary: st)
  case Nil
  then show ?case by simp
next
  case (Cons i "is")
  then have i: "stops_stored (fst (stop_step InMemory_ops st i))"
      "None \<notin> set (snd (stop_step InMemory_ops st i))"
    using stop_step_not_nil [of st i] by simp_all
  have "None \<notin> set (outputs (stop_step InMemory_ops) (fst (stop_step InMemory_ops st i)) is)"
    using Cons.prems by (intro Cons.IH i) simp
  with i(2) show ?case unfolding outputs_Cons by simp
qed

text \<open>
  Property C34. The vehicle processor protects the stop processor: on positions that
  come from the vehicle processor, whatever feeds it received, in whatever order and at whatever
  times they reach a stop processor with a fresh store, no nil stop event is sent downstream.
\<close>

theorem feed_to_stop_no_nil:
  assumes "set (map (\<lambda>i. snd (snd i)) is) \<subseteq> Some ` set (fst (vehicle_doStream pf cs))"
  shows "None \<notin> set (outputs (stop_step InMemory_ops) (NewInMemoryStateStore d) is)"
proof (rule stop_run_not_nil [OF stops_stored_new])
  show "list_all (\<lambda>i. names_stop (snd (snd i))) is"
    using assms vehicle_doStream_names_stop [of _ pf cs] by (fastforce simp: list_all_iff)
qed

theorem feed_to_stop_no_nil_witness:
  "\<exists>e. fst (vehicle_doStream reference_platform [InRecv (feed_event (''MBTA'', None,
         [Some \<lparr>gtfs_entity_vehicle = Some (example_vehicle (Some ''A'') ''bus'' 100)\<rparr>])), InClosed]) = [e] \<and>
     None \<notin> set (outputs (stop_step InMemory_ops) (NewInMemoryStateStore 0) [(0, 1, Some e), (2, 3, Some e)])"
proof -
  let ?cs = "[InRecv (feed_event (''MBTA'', None,
         [Some \<lparr>gtfs_entity_vehicle = Some (example_vehicle (Some ''A'') ''bus'' 100)\<rparr>])), InClosed]"
  obtain e where e: "fst (vehicle_doStream reference_platform ?cs) = [e]"
    by (simp add: vehicle_doStream_def vehicle_handle_feed reported_def example_vehicle_def)
  then show ?thesis
    using feed_to_stop_no_nil [of "[(0, 1, Some e), (2, 3, Some e)]" reference_platform ?cs 0] by simp
qed

section \<open>Positions over Redis\<close>

text \<open>
  In the distributed deployment the positions travel through a Redis sink, a channel of the
  server and a Redis source. \<open>over_redis\<close> is what arrives at the stop processor when the
  server relays every payload to the subscriptions of its channel.
\<close>

definition over_redis :: "proto_codec \<Rightarrow> RedisSink \<Rightarrow> RedisSource \<Rightarrow> go_any list \<Rightarrow> go_any list" where
  "over_redis pc sk sc vs =
     fst (redis_source_init (map (\<lambda>(c, b). InRecv b)
       (filter (\<lambda>(c, b). c = rsc_pubsub sc) (fst (redis_sink_doSink pc sk (map InRecv vs))))))"

definition position_inputs :: "(Time \<times> Time) list \<Rightarrow> go_any list \<Rightarrow> (Time \<times> Time \<times> go_any) list" where
  "position_inputs clocks vs = map (\<lambda>((t_get, t_set), v). (t_get, t_set, v)) (zip clocks vs)"

lemma over_redis_eq:
  "over_redis pc sk sc vs = map (\<lambda>(c, b). Any_bytes b)
     (filter (\<lambda>(c, b). c = rsc_pubsub sc) (fst (redis_sink_doSink pc sk (map InRecv vs))))"
proof -
  have "fst (snd (select_loop redis_source_handle () (map (\<lambda>(c, b). InRecv b) cbs))) =
      map (\<lambda>(c, b). Any_bytes b) cbs" for cbs :: "(string \<times> bytes) list"
    by (induction cbs) (simp_all add: redis_source_handle_def Let_def case_prod_beta)
  then show ?thesis by (simp add: over_redis_def redis_source_init_def)
qed

lemma over_redis_Cons: "over_redis pc sk sc (v # vs) = over_redis pc sk sc [v] @ over_redis pc sk sc vs"
  by (simp add: over_redis_eq redis_sink_doSink_def Let_def case_prod_beta)

lemma over_redis_position:
  assumes "proto_Marshal pc (Any_VehiclePositionEvent (Some v)) = Inr b"
    and "rsk_channel sk = rsc_pubsub sc"
  shows "over_redis pc sk sc [Any_VehiclePositionEvent (Some v)] = [Any_bytes b]"
  using assms
  by (simp add: over_redis_def redis_sink_doSink_def redis_source_init_def redis_sink_handle_def
      redis_source_handle_def is_proto_def)

text \<open>The codec reads the position back that it wrote.\<close>

definition survives_codec :: "proto_codec \<Rightarrow> platform \<Rightarrow> VehiclePositionEvent \<Rightarrow> bool" where
  "survives_codec pc pf v =
     (case proto_Marshal pc (Any_VehiclePositionEvent (Some v)) of
        Inl e \<Rightarrow> False
      | Inr b \<Rightarrow> Unmarshal_VehiclePositionEvent pf b = Some v)"

text \<open>
  Property C35. Distribution is transparent: for positions the protobuf codec reads back as it wrote
  them, the stop processor behaves the same, in what it emits and in what it stores, whether it
  receives the position events themselves or the payloads that a Redis sink published and a
  Redis source on the same channel relayed.
\<close>

theorem distribution_transparent:
  assumes "list_all (survives_codec pc pf) vs" and "rsk_channel sk = rsc_pubsub sc"
  shows "stop_doStream pf p st (map InRecv (position_inputs clocks
      (over_redis pc sk sc (map (\<lambda>v. Any_VehiclePositionEvent (Some v)) vs))) @ InClosed # cs) =
    stop_doStream pf p st (map InRecv (position_inputs clocks
      (map (\<lambda>v. Any_VehiclePositionEvent (Some v)) vs)) @ InClosed # cs)"
  using assms(1)
proof (induction vs arbitrary: clocks st)
  case Nil
  have "over_redis pc sk sc [] = []" by (simp add: over_redis_def redis_sink_doSink_def redis_source_init_def)
  then show ?case by simp
next
  case (Cons v vs)
  obtain b where b: "proto_Marshal pc (Any_VehiclePositionEvent (Some v)) = Inr b"
      "Unmarshal_VehiclePositionEvent pf b = Some v"
    using Cons.prems by (auto simp: survives_codec_def split: sum.splits)
  show ?case
  proof (cases clocks)
    case Nil
    then show ?thesis by (simp add: position_inputs_def)
  next
    case (Cons t ts)
    obtain t_get t_set where t: "t = (t_get, t_set)" by fastforce
    have "stop_handle pf p st (t_get, t_set, Any_bytes b) =
        stop_handle pf p st (t_get, t_set, Any_VehiclePositionEvent (Some v))"
      by (simp add: stop_handle_def b(2))
    then show ?thesis
      using Cons.IH [where clocks = ts] Cons.prems
      by (simp add: Cons t stop_doStream_def position_inputs_def over_redis_Cons [of pc sk sc _ "map _ vs"]
          over_redis_position [OF b(1) assms(2)])
  qed
qed

definition example_redis_sink :: RedisSink where
  "example_redis_sink =
     NewRedisSink \<lparr>rsnk_Addr = ''redis:6379'', rsnk_Password = [], rsnk_DB = 0, rsnk_Channel = ''positions''\<rparr>"

definition example_redis_source :: RedisSource where
  "example_redis_source =
     NewRedisSource \<lparr>rsrc_Addr = ''redis:6379'', rsrc_Password = [], rsrc_DB = 0, rsrc_Channel = ''positions''\<rparr>"

lemmas example_redis_def =
  example_redis_sink_def example_redis_source_def NewRedisSink_def NewRedisSource_def

theorem distribution_transparent_witness:
  "stop_doStream reference_platform (stop_proc InMemory_ops) (NewInMemoryStateStore 0)
     (map InRecv (position_inputs [(0, 1)] (over_redis const_codec example_redis_sink example_redis_source
        (map (\<lambda>v. Any_VehiclePositionEvent (Some v)) [VehiclePositionEvent_zero]))) @ InClosed # []) =
   stop_doStream reference_platform (stop_proc InMemory_ops) (NewInMemoryStateStore 0)
     (map InRecv (position_inputs [(0, 1)]
        (map (\<lambda>v. Any_VehiclePositionEvent (Some v)) [VehiclePositionEvent_zero])) @ InClosed # [])"
  by (rule distribution_transparent) (simp_all add: survives_codec_def const_codec_def reference_platform_def example_redis_def)

end
