(* ===== verification/Pipeline_Run.thy ===== *)
theory Pipeline_Run
  imports Transit_Chain
begin

text \<open>
  Running a pipeline, \<open>src/pipelines/pipeline.go\<close>: the outputs of the sources are merged, go through
  the processor, and every sink receives what the processor emits.

  \<^item> \<open>processor_handle\<close> is the call of the processor behind the interface \<open>Processor\<close>, whichever it is.
  \<^item> The library go-streams is outside the repository. Its three flows that \<open>Run\<close> uses are
    fields of the record \<open>go_streams\<close>, and \<open>go_streams_spec\<close> is their documented behaviour: passing
    through changes nothing, merging interleaves, and fanning out copies.
  \<^item> \<open>Pipeline_Run\<close> is \<open>Run\<close>: what each sink of a pipeline receives, given what its sources emit.
\<close>

section \<open>The processor of a pipeline\<close>

definition processor_handle ::
    "platform \<Rightarrow> 's StateStore \<Rightarrow> Processor \<Rightarrow> 's \<Rightarrow> Time \<times> Time \<times> go_any \<Rightarrow> 's \<times> go_any list" where
  "processor_handle pf ss p st inp =
     (case p of
        FeedMessage_processor agencyID \<Rightarrow> (st, snd (feed_handle pf agencyID () (snd (snd inp))))
      | VehiclePosition_processor \<Rightarrow>
          (st, map (\<lambda>e. Any_VehiclePositionEvent (Some e)) (snd (vehicle_handle pf () (snd (snd inp)))))
      | StopEvent_processor s \<Rightarrow> stop_handle pf (stop_proc ss) st inp
      | DwellEvent_processor s \<Rightarrow> dwell_handle pf ss st inp
      | HeadwayEvent_processor s \<Rightarrow> headway_handle pf ss st inp
      | TravelTime_processor s \<Rightarrow> travel_handle pf ss st inp)"

definition processor_doStream ::
    "platform \<Rightarrow> 's StateStore \<Rightarrow> Processor \<Rightarrow> 's \<Rightarrow> (Time \<times> Time \<times> go_any) select list \<Rightarrow>
     's \<times> go_any list \<times> bool" where
  "processor_doStream pf ss p st cs = select_loop (processor_handle pf ss p) st cs"

interpretation processor_flow: flow_processor "processor_handle pf ss p"
    "\<lambda>st cs. snd (processor_doStream pf ss p st cs)" for pf ss p
  by unfold_locales (simp add: processor_doStream_def)

lemma processor_handle_stateful:
  "processor_handle pf ss (StopEvent_processor s) = stop_handle pf (stop_proc ss)"
  "processor_handle pf ss (DwellEvent_processor s) = dwell_handle pf ss"
  "processor_handle pf ss (HeadwayEvent_processor s) = headway_handle pf ss"
  "processor_handle pf ss (TravelTime_processor s) = travel_handle pf ss"
  by (simp_all add: fun_eq_iff processor_handle_def)

text \<open>The dynamic type of a value, as \<open>%T\<close> prints it.\<close>

definition go_typeof :: "go_any \<Rightarrow> string" where
  "go_typeof v =
     (case v of
        Any_nil \<Rightarrow> ''<nil>''
      | Any_event e \<Rightarrow> event_T e
      | Any_FeedMessageEvent e \<Rightarrow> ''*events.FeedMessageEvent''
      | Any_FeedMessage m \<Rightarrow> ''*gtfs.FeedMessage''
      | Any_bytes b \<Rightarrow> ''[]uint8''
      | Any_other s \<Rightarrow> s)"

text \<open>The types a processor acts on, and the type of what it emits.\<close>

definition in_types :: "Processor \<Rightarrow> string set" where
  "in_types p =
     (case p of
        FeedMessage_processor a \<Rightarrow> {''[]uint8'', ''*gtfs.FeedMessage''}
      | VehiclePosition_processor \<Rightarrow> {''*events.FeedMessageEvent''}
      | StopEvent_processor s \<Rightarrow> {''*events.VehiclePositionEvent'', ''[]uint8''}
      | _ \<Rightarrow> {''*events.StopEvent''})"

definition out_type :: "Processor \<Rightarrow> string" where
  "out_type p =
     (case p of
        FeedMessage_processor a \<Rightarrow> ''*events.FeedMessageEvent''
      | VehiclePosition_processor \<Rightarrow> ''*events.VehiclePositionEvent''
      | StopEvent_processor s \<Rightarrow> ''*events.StopEvent''
      | DwellEvent_processor s \<Rightarrow> ''*events.DwellTimeEvent''
      | HeadwayEvent_processor s \<Rightarrow> ''*events.HeadwayTimeEvent''
      | TravelTime_processor s \<Rightarrow> ''*events.TravelTimeEvent'')"

lemma feed_handle_typed: "v \<in> set (snd (feed_handle pf a st x)) \<Longrightarrow> go_typeof v = ''*events.FeedMessageEvent''"
  by (auto simp: feed_handle_def go_typeof_def split: go_any.splits option.splits)

lemma vehicle_typed: "go_typeof (Any_VehiclePositionEvent e) = ''*events.VehiclePositionEvent''"
  by (simp add: go_typeof_def event_T_def)

lemma stop_handle_typed: "v \<in> set (snd (stop_handle pf p st i)) \<Longrightarrow> go_typeof v = ''*events.StopEvent''"
  by (auto simp: stop_handle_def go_typeof_def event_T_def case_prod_beta Let_def
      split: go_any.splits event.splits option.splits)

lemma metric_handle_typed:
  "v \<in> set (snd (dwell_handle pf ss st i)) \<Longrightarrow> go_typeof v = ''*events.DwellTimeEvent''"
  "v \<in> set (snd (headway_handle pf ss st i)) \<Longrightarrow> go_typeof v = ''*events.HeadwayTimeEvent''"
  "v \<in> set (snd (travel_handle pf ss st i)) \<Longrightarrow> go_typeof v = ''*events.TravelTimeEvent''"
  by (auto simp: dwell_handle_def headway_handle_def travel_handle_def go_typeof_def event_T_def
      case_prod_beta Let_def split: option.splits if_splits)

lemma handle_ignores:
  "go_typeof v \<notin> {''[]uint8'', ''*gtfs.FeedMessage''} \<Longrightarrow> snd (feed_handle pf a () v) = []"
  "go_typeof v \<noteq> ''*events.FeedMessageEvent'' \<Longrightarrow> snd (vehicle_handle pf () v) = []"
  "go_typeof v \<notin> {''*events.VehiclePositionEvent'', ''[]uint8''} \<Longrightarrow> stop_handle pf p st (t, u, v) = (st, [])"
  "go_typeof v \<noteq> ''*events.StopEvent'' \<Longrightarrow> dwell_handle pf ss st (t, u, v) = (st, [])"
  "go_typeof v \<noteq> ''*events.StopEvent'' \<Longrightarrow> headway_handle pf ss st (t, u, v) = (st, [])"
  "go_typeof v \<noteq> ''*events.StopEvent'' \<Longrightarrow> travel_handle pf ss st (t, u, v) = (st, [])"
  by (auto simp: go_typeof_def event_T_def feed_handle_def vehicle_handle_def stop_handle_def dwell_handle_def
      headway_handle_def travel_handle_def as_StopEvent_def split: go_any.splits event.splits)

text \<open>
  Processors are type-safe on channels of type \<open>any\<close>: whatever arrives, everything a processor
  emits has its output type, and a value of a type it does not expect is ignored without
  touching its state; and along the configured chain the output type of each processor is one that the
  next one expects.
\<close>

lemma processor_type_safe:
  "(\<forall>p v. v \<in> set (snd (processor_handle pf ss p st inp)) \<longrightarrow> go_typeof v = out_type p) \<and>
   (\<forall>p. go_typeof (snd (snd inp)) \<notin> in_types p \<longrightarrow> processor_handle pf ss p st inp = (st, [])) \<and>
   out_type (FeedMessage_processor a) \<in> in_types VehiclePosition_processor \<and>
   out_type VehiclePosition_processor \<in> in_types (StopEvent_processor s) \<and>
   (\<forall>p \<in> {DwellEvent_processor s', HeadwayEvent_processor s', TravelTime_processor s'}.
      out_type (StopEvent_processor s) \<in> in_types p)"
proof (intro conjI allI impI)
  fix p v
  assume v: "v \<in> set (snd (processor_handle pf ss p st inp))"
  show "go_typeof v = out_type p"
    using v
    by (cases p) (auto simp: processor_handle_def out_type_def feed_handle_typed stop_handle_typed
        metric_handle_typed vehicle_typed)
next
  fix p
  assume "go_typeof (snd (snd inp)) \<notin> in_types p"
  then show "processor_handle pf ss p st inp = (st, [])"
    using handle_ignores by (cases inp; cases p) (simp_all add: processor_handle_def in_types_def)
qed (auto simp: out_type_def in_types_def)

section \<open>Merging\<close>

text \<open>\<open>ys\<close> is an interleaving of the lists \<open>xss\<close>.\<close>

inductive merged :: "'a list \<Rightarrow> 'a list list \<Rightarrow> bool" where
  merged_done: "list_all (\<lambda>xs. xs = []) xss \<Longrightarrow> merged [] xss"
| merged_take: "i < length xss \<Longrightarrow> xss ! i = y # xs \<Longrightarrow> merged ys (xss[i := xs]) \<Longrightarrow> merged (y # ys) xss"

text \<open>What is in one of the lists only comes through the merge in its order.\<close>

lemma merged_filter:
  assumes "merged ys xss" and "i < length xss"
    and "\<And>j. j < length xss \<Longrightarrow> j \<noteq> i \<Longrightarrow> filter P (xss ! j) = []"
  shows "filter P ys = filter P (xss ! i)"
  using assms
proof (induction rule: merged.induct)
  case (merged_done xss)
  then show ?case by (auto simp: list_all_length)
next
  case (merged_take k xss y xs ys)
  have "filter P ys = filter P (xss[k := xs] ! i)"
  proof (rule merged_take.IH)
    show "filter P (xss[k := xs] ! j) = []" if "j < length (xss[k := xs])" "j \<noteq> i" for j
      using merged_take.prems(2) [of j] that merged_take.hyps(1,2)
      by (cases "j = k") (auto split: if_splits)
  qed (use merged_take.prems in simp)
  moreover have "\<not> P y" if "k \<noteq> i"
    using merged_take.prems(2) [of k] merged_take.hyps(1,2) that by (auto split: if_splits)
  ultimately show ?case using merged_take.hyps(1,2) by (cases "k = i") auto
qed

text \<open>An interleaving that empties the lists one after the other.\<close>

lemma merged_Nil_Cons: "merged ys xss \<Longrightarrow> merged ys ([] # xss)"
proof (induction rule: merged.induct)
  case (merged_take i xss y xs ys)
  then show ?case using merged.merged_take [of "Suc i" "[] # xss" y xs ys] by simp
qed (simp add: merged_done)

lemma merged_concat: "merged (concat xss) xss"
proof (induction xss)
  case Nil
  then show ?case by (simp add: merged_done)
next
  case (Cons xs xss)
  have "merged (xs @ concat xss) (xs # xss)"
  proof (induction xs)
    case Nil
    then show ?case using merged_Nil_Cons [OF Cons.IH] by simp
  next
    case (Cons x xs)
    then show ?case using merged_take [of 0 "(x # xs) # xss" x xs "xs @ concat xss"] by simp
  qed
  then show ?case by simp
qed

section \<open>Run\<close>

record go_streams =
  gs_PassThrough :: "go_any list \<Rightarrow> go_any list"
  gs_Merge :: "go_any list list \<Rightarrow> go_any list"
  gs_FanOut :: "go_any list \<Rightarrow> nat \<Rightarrow> go_any list list"

definition go_streams_spec :: "go_streams \<Rightarrow> bool" where
  "go_streams_spec gs \<longleftrightarrow>
     (\<forall>vs. gs_PassThrough gs vs = vs) \<and> (\<forall>vss. merged (gs_Merge gs vss) vss) \<and>
     (\<forall>vs n. gs_FanOut gs vs n = replicate n vs)"

text \<open>
  \<open>Run\<close>, with the stream of every source and the stream function of the processor. The
  constructor leaves no pipeline without a processor when the configuration is validated; for such
  a pipeline there is no result.
\<close>

definition Pipeline_Run ::
    "go_streams \<Rightarrow> (Processor \<Rightarrow> go_any list \<Rightarrow> go_any list) \<Rightarrow> Pipeline \<Rightarrow> (nat \<Rightarrow> go_any list) \<Rightarrow>
     (Sink \<times> go_any list) list option" where
  "Pipeline_Run gs run p out =
     (let sourceFlows = map (\<lambda>i. gs_PassThrough gs (out i)) [0..<length (pip_sources p)]
      in (case pip_processor p of
            None \<Rightarrow> None
          | Some processor \<Rightarrow>
              let mergeFlow = run processor (gs_Merge gs sourceFlows);
                  sinkLen = length (pip_sinks p);
                  sinkFlows = gs_FanOut gs mergeFlow sinkLen
              in Some (zip (pip_sinks p) sinkFlows)))"

text \<open>
  \<open>Graph.Run\<close> starts the pipelines, each in a goroutine of its own: \<open>out i\<close> is what the pipeline at
  position \<open>i\<close> takes from its sources. A source that two pipelines name is one channel, so its
  elements are divided between them and not copied.
\<close>

definition Graph_Run ::
    "go_streams \<Rightarrow> (nat \<Rightarrow> Processor \<Rightarrow> go_any list \<Rightarrow> go_any list) \<Rightarrow> Graph \<Rightarrow>
     (nat \<Rightarrow> nat \<Rightarrow> go_any list) \<Rightarrow> (Sink \<times> go_any list) list option list" where
  "Graph_Run gs run g out = map (\<lambda>(i, p). Pipeline_Run gs (run i) p (out i)) (enumerate 0 (gr_pipelines g))"

text \<open>The clock readings of the processor, two per element it receives.\<close>

definition stamp :: "(nat \<Rightarrow> Time \<times> Time) \<Rightarrow> go_any list \<Rightarrow> (Time \<times> Time \<times> go_any) list" where
  "stamp clocks vs = map (\<lambda>(n, v). (fst (clocks n), snd (clocks n), v)) (enumerate 0 vs)"

text \<open>A processor with a fresh in-memory store, run until its input is closed.\<close>

definition run_fresh ::
    "platform \<Rightarrow> Duration \<Rightarrow> (nat \<Rightarrow> Time \<times> Time) \<Rightarrow> Processor \<Rightarrow> go_any list \<Rightarrow> go_any list" where
  "run_fresh pf d clocks p vs =
     fst (snd (processor_doStream pf InMemory_ops p (NewInMemoryStateStore d)
       (map InRecv (stamp clocks vs) @ [InClosed])))"

lemma stamp_values: "map (\<lambda>i. snd (snd i)) (stamp clocks vs) = vs"
  by (simp add: stamp_def comp_def case_prod_beta)

text \<open>The positions of vehicle \<open>v\<close> in a stream, as the stop processor decodes it.\<close>

definition vp_value :: "platform \<Rightarrow> go_any \<Rightarrow> VehiclePositionEvent option option" where
  "vp_value pf v = map_option (\<lambda>i. snd (snd i)) (stop_decode pf (0, 0, v))"

definition positions :: "platform \<Rightarrow> string \<Rightarrow> go_any list \<Rightarrow> VehiclePositionEvent option list" where
  "positions pf v vs =
     filter (\<lambda>e. GetVehicleId (VehiclePositionEvent_GetAttributes e) = v) (List.map_filter (vp_value pf) vs)"

definition observe_vp :: "VehiclePositionEvent option \<Rightarrow> observation" where
  "observe_vp e = observe (0, 0, e)"

lemma stop_decode_value: "map_option (\<lambda>i. snd (snd i)) (stop_decode pf i) = vp_value pf (snd (snd i))"
  by (cases i) (auto simp: vp_value_def stop_decode_def option.map_comp comp_def
      split: go_any.split event.split)

lemma positions_decoded:
  "map (\<lambda>i. snd (snd i)) (filter (\<lambda>i. vp_key i = v) (List.map_filter (stop_decode pf) xs)) =
   positions pf v (map (\<lambda>i. snd (snd i)) xs)"
proof (induction xs)
  case (Cons x xs)
  have "vp_value pf (snd (snd x)) = map_option (\<lambda>i. snd (snd i)) (stop_decode pf x)"
    by (rule stop_decode_value [symmetric])
  with Cons show ?case
    by (cases "stop_decode pf x") (simp_all add: positions_def List.map_filter_simps vp_key_def)
qed (simp add: positions_def List.map_filter_simps)

definition reports :: "platform \<Rightarrow> string \<Rightarrow> go_any \<Rightarrow> bool" where
  "reports pf v x \<longleftrightarrow> positions pf v [x] \<noteq> []"

lemma positions_filter:
  "positions pf v vs =
   List.map_filter (vp_value pf) (filter (reports pf v) vs)"
  by (induction vs) (auto simp: reports_def positions_def List.map_filter_simps split: option.splits)

lemma positions_Nil_filter: "positions pf v vs = [] \<longleftrightarrow> filter (reports pf v) vs = []"
  by (induction vs) (auto simp: reports_def positions_def List.map_filter_simps split: option.splits)

lemma positions_merged:
  assumes "merged ys xss" and "i < length xss"
    and "\<And>j. j < length xss \<Longrightarrow> j \<noteq> i \<Longrightarrow> positions pf v (xss ! j) = []"
  shows "positions pf v ys = positions pf v (xss ! i)"
proof -
  have "filter (reports pf v) (xss ! j) = []" if "j < length xss" "j \<noteq> i" for j
    using assms(3) [OF that] unfolding positions_Nil_filter .
  then have "filter (reports pf v) ys = filter (reports pf v) (xss ! i)"
    by (rule merged_filter [OF assms(1,2)])
  then show ?thesis by (metis positions_filter)
qed

text \<open>The stop events of a vehicle in a stream.\<close>

definition stop_events_of :: "string \<Rightarrow> go_any list \<Rightarrow> StopEvent option list" where
  "stop_events_of v vs =
     filter (\<lambda>e. GetVehicleId (StopEvent_GetAttributes e) = v) (List.map_filter as_StopEvent vs)"

lemma stop_step_vehicle:
  assumes "v \<noteq> []" and "y \<in> set (snd (stop_step InMemory_ops st i))"
  shows "GetVehicleId (StopEvent_GetAttributes y) = v \<longleftrightarrow> vp_key i = v \<and> y \<noteq> None"
proof -
  have "vp_key i \<noteq> []" using assms(2) by (metis in_memory.stop_step_skip snd_conv list.set(1) empty_iff)
  then have "y \<in> set (stop_emit (InMemory_lookup st (fst i) (vp_key i) vp_proto) (snd (snd i)))"
    using assms(2) by (simp add: in_memory.stop_step_out)
  then obtain s ty where "y = makeStopEvent (snd (snd i)) s ty" by (rule stop_emit_makes)
  then show ?thesis
    using assms(1) by (auto simp: makeStopEvent_def vp_key_def Let_def split: if_splits)
qed

lemma spec_run_known: "(ty, x) \<in> set (spec_run prev cs) \<Longrightarrow> ty \<noteq> StopEvent_UNKNOWN"
proof (induction prev cs rule: spec_run.induct)
  case (3 p c cs)
  then show ?case by (auto simp: stop_transition_def split: prod.splits if_splits)
qed simp_all

text \<open>The stop processor on a stream: the events of a vehicle are those of the table.\<close>

lemma run_fresh_stop_events:
  assumes "v \<noteq> []" and "list_all (\<lambda>e. snd (observe_vp e) \<noteq> []) (positions pf v vs)"
    and "within_ttl (filter (\<lambda>j. vp_key j = v) (List.map_filter (stop_decode pf) (stamp clocks vs)))"
  shows "map signature (stop_events_of v (run_fresh pf d clocks (StopEvent_processor h) vs)) =
    spec_run None (map observe_vp (positions pf v vs))"
proof -
  let ?js = "List.map_filter (stop_decode pf) (stamp clocks vs)" and ?st = "NewInMemoryStateStore d"
  let ?em = "emitted_for ?st v ?js"
  have pos: "map (\<lambda>i. snd (snd i)) (filter (\<lambda>i. vp_key i = v) ?js) = positions pf v vs"
    by (simp only: positions_decoded stamp_values)
  have obs: "map observe (filter (\<lambda>i. vp_key i = v) ?js) = map observe_vp (positions pf v vs)"
    by (simp add: pos [symmetric] observe_vp_def observe_def)
  have "list_all (position_of v) (filter (\<lambda>i. vp_key i = v) ?js)"
    using assms(2) unfolding pos [symmetric] list_all_iff
    by (auto simp: position_of_def observe_vp_def observe_def Let_def)
  then have table: "map signature ?em = spec_run None (map observe_vp (positions pf v vs))"
    unfolding in_memory.stop_keyed.isolation obs [symmetric] by (rule stop_run_refines [OF assms(1) _ assms(3)])
  have "None \<notin> set ?em"
  proof
    assume "None \<in> set ?em"
    then have "signature None \<in> set (map signature ?em)" unfolding set_map by (rule imageI)
    then show False
      unfolding table using spec_run_known by (auto simp: signature_def)
  qed
  then have "filter (\<lambda>e. e \<noteq> None) ?em = ?em" unfolding filter_id_conv by metis
  moreover have "run_fresh pf d clocks (StopEvent_processor h) vs =
      map Any_StopEvent (outputs (stop_step InMemory_ops) ?st ?js)"
    using stop_doStream_decodes [of pf InMemory_ops ?st "stamp clocks vs" "[]"]
    by (simp add: run_fresh_def processor_doStream_def processor_handle_stateful stop_doStream_def)
  moreover have "List.map_filter as_StopEvent (map Any_StopEvent es) = es" for es
    by (induction es) (simp_all add: List.map_filter_simps)
  ultimately show ?thesis
    using filter_outputs [where step = "stop_step InMemory_ops" and key = vp_key and k = v
        and Q = "\<lambda>e. e \<noteq> None", OF stop_step_vehicle [OF assms(1)]] table
    by (simp add: stop_events_of_def)
qed


text \<open>A library whose merge drains the sources one after the other.\<close>

definition sequential_streams :: go_streams where
  "sequential_streams = \<lparr>gs_PassThrough = id, gs_Merge = concat, gs_FanOut = (\<lambda>vs n. replicate n vs)\<rparr>"

lemma sequential_streams_spec: "go_streams_spec sequential_streams"
  by (simp add: go_streams_spec_def sequential_streams_def merged_concat)

definition example_pipeline :: Pipeline where
  "example_pipeline =
     \<lparr>pip_ID = ''p'', pip_agencyID = ''MBTA'', pip_pipelineType = PipelineTypeStopEvent,
      pip_sources = [Connector_source (Some ''a''), Connector_source (Some ''b'')], pip_stateStore = None,
      pip_sinks = [Log_sink \<lparr>ls_level = LevelInfo\<rparr>, Connector_sink (Some ''c'')],
      pip_processor = Some (NewStopEventProcessor None)\<rparr>"

definition example_sources :: "nat \<Rightarrow> go_any list" where
  "example_sources i =
     (if i = 0 then [Any_VehiclePositionEvent (example_vp ''bus'' StopStatus_IN_TRANSIT_TO ''A'' 100),
        Any_VehiclePositionEvent (example_vp ''bus'' StopStatus_STOPPED_AT ''A'' 110)]
      else [Any_nil, Any_VehiclePositionEvent (example_vp ''tram'' StopStatus_STOPPED_AT ''X'' 105)])"


end
