(* ===== verification/Graph_Network.thy ===== *)
theory Graph_Network
  imports Pipeline_Run
begin

text \<open>
  A running graph: all its pipelines at the same time, connected by the connectors. \<open>Pipeline_Run\<close> says
  what one pipeline does with what its sources emit; here the sources of a pipeline may be connectors
  that other pipelines feed, and the pipelines take turns in any order.

  \<^item> The flows of go-streams are those of the record \<open>go_streams\<close>, with \<open>go_streams_spec\<close> as their documented
    behaviour. Every sink of a pipeline is fed from its own flow of the \<open>FanOut\<close>, at its own pace. A connector sink and a connector source of the same id are one Go channel, so what is
    sent into the one is received from the other, by one of the pipelines that name it.
  \<^item> A pipeline takes the next element of any of its sources (\<open>Merge\<close> interleaves), lets its processor
    handle it and appends what that emits to its output. Its state store is its own; stores
    that pipelines share are the subject of \<open>Shared_Store\<close>.
  \<^item> How much the flows of go-streams can hold between two pipelines is left open: the
    relation allows every amount, so it has every schedule of the program.
\<close>

section \<open>Channels\<close>

text \<open>
  \<open>Ext j l\<close> is the stream that the pipeline at position \<open>j\<close> takes from its source at position \<open>l\<close>, when that is not
  a connector. \<open>Edge i k\<close> leads from the pipeline at position \<open>i\<close> to its sink at position \<open>k\<close>.
\<close>

datatype channel = Ext nat nat | Edge nat nat

record pipeline_state =
  ps_store :: InMemoryStateStore
  ps_in :: "(Time \<times> Time \<times> go_any) list"
  ps_out :: "go_any list"

record network =
  nw_pipelines :: "nat \<Rightarrow> pipeline_state"
  nw_taken :: "channel \<Rightarrow> nat"

definition pipeline_at :: "Graph \<Rightarrow> nat \<Rightarrow> Pipeline" where
  "pipeline_at g i = gr_pipelines g ! i"

text \<open>What has been put on a channel so far.\<close>

definition sent ::
    "go_streams \<Rightarrow> Graph \<Rightarrow> (nat \<Rightarrow> nat \<Rightarrow> go_any list) \<Rightarrow> network \<Rightarrow> channel \<Rightarrow> go_any list" where
  "sent gs g ext st ch =
     (case ch of
        Ext j l \<Rightarrow> gs_PassThrough gs (ext j l)
      | Edge i k \<Rightarrow>
          let sinkLen = length (pip_sinks (pipeline_at g i))
          in if k < sinkLen then gs_FanOut gs (ps_out (nw_pipelines st i)) sinkLen ! k else [])"

lemma sent_simps:
  assumes "go_streams_spec gs"
  shows "sent gs g ext st (Ext j l) = ext j l"
    and "sent gs g ext st (Edge i k) =
      (if k < length (pip_sinks (pipeline_at g i)) then ps_out (nw_pipelines st i) else [])"
  using assms by (simp_all add: sent_def go_streams_spec_def)

definition feeds :: "Source \<Rightarrow> Sink \<Rightarrow> bool" where
  "feeds src snk = (case (src, snk) of
     (Connector_source (Some c), Connector_sink (Some c')) \<Rightarrow> c = c' | _ \<Rightarrow> False)"

definition is_connector_source :: "Source \<Rightarrow> bool" where
  "is_connector_source src = (case src of Connector_source c \<Rightarrow> True | _ \<Rightarrow> False)"

definition is_connector_sink :: "Sink \<Rightarrow> bool" where
  "is_connector_sink snk = (case snk of Connector_sink c \<Rightarrow> True | _ \<Rightarrow> False)"

text \<open>The channels a pipeline takes elements from.\<close>

definition reads_from :: "Graph \<Rightarrow> nat \<Rightarrow> channel \<Rightarrow> bool" where
  "reads_from g j ch \<longleftrightarrow>
     j < length (gr_pipelines g) \<and>
     (case ch of
        Ext j' l \<Rightarrow> j' = j \<and> l < length (pip_sources (pipeline_at g j)) \<and>
          \<not> is_connector_source (pip_sources (pipeline_at g j) ! l)
      | Edge i k \<Rightarrow> i < length (gr_pipelines g) \<and> k < length (pip_sinks (pipeline_at g i)) \<and>
          list_ex (\<lambda>src. feeds src (pip_sinks (pipeline_at g i) ! k)) (pip_sources (pipeline_at g j)))"

section \<open>Steps\<close>

definition new_network :: "Duration \<Rightarrow> network" where
  "new_network d =
     \<lparr>nw_pipelines = (\<lambda>i. \<lparr>ps_store = NewInMemoryStateStore d, ps_in = [], ps_out = []\<rparr>), nw_taken = (\<lambda>ch. 0)\<rparr>"

definition take_next :: "network \<Rightarrow> channel \<Rightarrow> network" where
  "take_next st ch = st\<lparr>nw_taken := (nw_taken st)(ch := Suc (nw_taken st ch))\<rparr>"

text \<open>The processor handles an element, at the instants of its \<open>Get\<close> and its \<open>Set\<close>.\<close>

definition process_next :: "platform \<Rightarrow> Processor \<Rightarrow> pipeline_state \<Rightarrow> Time \<times> Time \<times> go_any \<Rightarrow> pipeline_state" where
  "process_next pf p ps i =
     (let (store, out) = processor_handle pf InMemory_ops p (ps_store ps) i
      in \<lparr>ps_store = store, ps_in = ps_in ps @ [i], ps_out = ps_out ps @ out\<rparr>)"

inductive network_step ::
    "platform \<Rightarrow> go_streams \<Rightarrow> Graph \<Rightarrow> (nat \<Rightarrow> nat \<Rightarrow> go_any list) \<Rightarrow> network \<Rightarrow> network \<Rightarrow> bool" for pf gs g ext where
  process: "reads_from g j ch \<Longrightarrow> pip_processor (pipeline_at g j) = Some p \<Longrightarrow>
    nw_taken st ch < length (sent gs g ext st ch) \<Longrightarrow>
    network_step pf gs g ext st
      (take_next st ch\<lparr>nw_pipelines := (nw_pipelines st)(j :=
         process_next pf p (nw_pipelines st j) (t, u, sent gs g ext st ch ! nw_taken st ch))\<rparr>)"
| deliver: "i < length (gr_pipelines g) \<Longrightarrow> k < length (pip_sinks (pipeline_at g i)) \<Longrightarrow>
    \<not> is_connector_sink (pip_sinks (pipeline_at g i) ! k) \<Longrightarrow>
    nw_taken st (Edge i k) < length (sent gs g ext st (Edge i k)) \<Longrightarrow>
    network_step pf gs g ext st (take_next st (Edge i k))"

inductive_cases network_stepE: "network_step pf gs g ext st st'"

abbreviation network_run ::
    "platform \<Rightarrow> go_streams \<Rightarrow> Graph \<Rightarrow> (nat \<Rightarrow> nat \<Rightarrow> go_any list) \<Rightarrow> network \<Rightarrow> network \<Rightarrow> bool" where
  "network_run pf gs g ext \<equiv> (network_step pf gs g ext)\<^sup>*\<^sup>*"

text \<open>What has been taken from a channel: by a pipeline, or by a sink at its end.\<close>

definition taken ::
    "go_streams \<Rightarrow> Graph \<Rightarrow> (nat \<Rightarrow> nat \<Rightarrow> go_any list) \<Rightarrow> network \<Rightarrow> channel \<Rightarrow> go_any list" where
  "taken gs g ext st ch = take (nw_taken st ch) (sent gs g ext st ch)"

section \<open>Invariants\<close>

text \<open>
  A pipeline has emitted what its processor emits on what it has taken, and no channel has given
  more than was put on it.
\<close>

definition network_inv ::
    "platform \<Rightarrow> go_streams \<Rightarrow> Graph \<Rightarrow> Duration \<Rightarrow> (nat \<Rightarrow> nat \<Rightarrow> go_any list) \<Rightarrow> network \<Rightarrow> bool" where
  "network_inv pf gs g d ext st \<longleftrightarrow>
     (\<forall>ch. nw_taken st ch \<le> length (sent gs g ext st ch)) \<and>
     (\<forall>j p. pip_processor (pipeline_at g j) = Some p \<longrightarrow>
        ps_store (nw_pipelines st j) =
          final_state (processor_handle pf InMemory_ops p) (NewInMemoryStateStore d) (ps_in (nw_pipelines st j)) \<and>
        ps_out (nw_pipelines st j) =
          outputs (processor_handle pf InMemory_ops p) (NewInMemoryStateStore d) (ps_in (nw_pipelines st j)))"

lemma network_inv_new: "network_inv pf gs g d ext (new_network d)"
  by (simp add: network_inv_def new_network_def)

lemma process_next_simps:
  "ps_in (process_next pf p ps i) = ps_in ps @ [i]"
  "ps_out (process_next pf p ps i) = ps_out ps @ snd (processor_handle pf InMemory_ops p (ps_store ps) i)"
  "ps_store (process_next pf p ps i) = fst (processor_handle pf InMemory_ops p (ps_store ps) i)"
  by (simp_all add: process_next_def case_prod_beta Let_def)

text \<open>Nothing that was put on a channel is ever withdrawn or changed.\<close>

lemma sent_grows:
  assumes "go_streams_spec gs" and "network_step pf gs g ext st st'"
  shows "\<exists>vs. sent gs g ext st' ch = sent gs g ext st ch @ vs"
  using assms(2)
  by (cases ch; elim network_stepE) (auto simp: sent_simps [OF assms(1)] take_next_def process_next_simps)

lemma network_inv_step:
  assumes "go_streams_spec gs" and "network_inv pf gs g d ext st" and "network_step pf gs g ext st st'"
  shows "network_inv pf gs g d ext st'"
proof -
  have grows: "length (sent gs g ext st ch) \<le> length (sent gs g ext st' ch)" for ch
    using sent_grows [OF assms(1,3), of ch] by auto
  have le: "nw_taken st ch \<le> length (sent gs g ext st ch)" for ch using assms(2) by (simp add: network_inv_def)
  from assms(3) show ?thesis
  proof (cases rule: network_step.cases)
    case (process j ch p t u)
    have "nw_taken st' c \<le> length (sent gs g ext st' c)" for c
      using grows [of c] le [of c] process(1,4) by (auto simp: take_next_def)
    then show ?thesis
      using assms(2) process(1,3)
      by (auto simp: network_inv_def take_next_def process_next_simps final_state_append outputs_append outputs_Cons
          final_state_Cons case_prod_beta)
  next
    case (deliver i k)
    have "nw_taken st' c \<le> length (sent gs g ext st' c)" for c
      using grows [of c] le [of c] deliver(1,5) by (auto simp: take_next_def)
    then show ?thesis using assms(2) deliver(1) by (auto simp: network_inv_def take_next_def)
  qed
qed

lemma network_run_inv:
  assumes "go_streams_spec gs" and "network_run pf gs g ext (new_network d) st"
  shows "network_inv pf gs g d ext st"
  using assms(2) by (induction rule: rtranclp_induct) (auto intro: network_inv_new network_inv_step [OF assms(1)])

text \<open>
  A private channel: the only one its reader takes from, and taken from by that reader only. What a
  pipeline has taken is then what its writer has sent, up to what is on the way.
\<close>

definition private_channel :: "Graph \<Rightarrow> nat \<Rightarrow> channel \<Rightarrow> bool" where
  "private_channel g j ch \<longleftrightarrow> (\<forall>ch'. reads_from g j ch' \<longleftrightarrow> ch' = ch) \<and> (\<forall>j'. reads_from g j' ch \<longrightarrow> j' = j)"

lemma private_reads: "private_channel g j ch \<Longrightarrow> reads_from g j ch"
  by (simp add: private_channel_def)

lemma private_taken_step:
  assumes "private_channel g j ch" and "go_streams_spec gs" and "network_inv pf gs g d ext st" and "network_step pf gs g ext st st'"
    and "map (\<lambda>i. snd (snd i)) (ps_in (nw_pipelines st j)) = taken gs g ext st ch"
  shows "map (\<lambda>i. snd (snd i)) (ps_in (nw_pipelines st' j)) = taken gs g ext st' ch"
proof -
  obtain vs where vs: "sent gs g ext st' ch = sent gs g ext st ch @ vs" using sent_grows [OF assms(2,4)] by blast
  have le: "nw_taken st ch \<le> length (sent gs g ext st ch)" using assms(3) by (simp add: network_inv_def)
  from assms(4) show ?thesis
  proof (cases rule: network_step.cases)
    case (process j' ch' p t u)
    then have "j' = j \<longleftrightarrow> ch' = ch" using assms(1) unfolding private_channel_def by blast
    then show ?thesis
      using process(1,4) assms(5) le unfolding taken_def vs
      by (cases "j' = j") (auto simp: take_next_def process_next_simps take_Suc_conv_app_nth)
  next
    case (deliver i k)
    have "ch \<noteq> Edge i k"
    proof
      assume "ch = Edge i k"
      moreover have "reads_from g j ch" using assms(1) by (simp add: private_channel_def)
      ultimately obtain src where "feeds src (pip_sinks (pipeline_at g i) ! k)"
        by (auto simp: reads_from_def list_ex_iff)
      then show False using deliver(4)
        by (auto simp: feeds_def is_connector_sink_def split: Source.splits Sink.splits option.splits)
    qed
    then show ?thesis using deliver(1) assms(5) le unfolding taken_def vs by (simp add: take_next_def)
  qed
qed

lemma private_taken:
  assumes "private_channel g j ch" and "go_streams_spec gs" and "network_run pf gs g ext (new_network d) st"
  shows "map (\<lambda>i. snd (snd i)) (ps_in (nw_pipelines st j)) = taken gs g ext st ch"
  using assms(3)
proof (induction rule: rtranclp_induct)
  case base
  then show ?case by (simp add: new_network_def taken_def)
next
  case (step st st')
  then show ?case using private_taken_step [OF assms(1,2) network_run_inv [OF assms(2)]] by blast
qed

lemma taken_prefix: "prefix (taken gs g ext st ch) (sent gs g ext st ch)"
  by (simp add: taken_def take_is_prefix)


text \<open>Two pipelines, the second of which reads a connector the first writes, and a run of two steps.\<close>

definition example_network :: Graph where
  "example_network =
     \<lparr>gr_pipelines =
        [\<lparr>pip_ID = ''feed'', pip_agencyID = ''MBTA'', pip_pipelineType = PipelineTypeFeedMessage,
          pip_sources = [Redis_source (NewRedisSource \<lparr>rsrc_Addr = [], rsrc_Password = [], rsrc_DB = 0, rsrc_Channel = []\<rparr>)],
          pip_stateStore = None, pip_sinks = [Connector_sink (Some ''c'')],
          pip_processor = Some (FeedMessage_processor ''MBTA'')\<rparr>,
         \<lparr>pip_ID = ''vp'', pip_agencyID = [], pip_pipelineType = PipelineTypeVehiclePosition,
          pip_sources = [Connector_source (Some ''c'')], pip_stateStore = None,
          pip_sinks = [Log_sink (NewLogSink \<lparr>con_Level = []\<rparr>)], pip_processor = Some VehiclePosition_processor\<rparr>],
      gr_stateStores = [], gr_outlet = None\<rparr>"

definition example_ext :: "nat \<Rightarrow> nat \<Rightarrow> go_any list" where
  "example_ext a l = [Any_FeedMessage None]"

lemma example_network_reads:
  "reads_from example_network j ch \<longleftrightarrow> j = 0 \<and> ch = Ext 0 0 \<or> j = 1 \<and> ch = Edge 0 0"
  by (cases ch)
    (auto simp: reads_from_def example_network_def pipeline_at_def is_connector_source_def feeds_def less_Suc_eq)

lemma example_network_sinks: "length (pip_sinks (pipeline_at example_network 0)) = 1"
  by (simp add: example_network_def pipeline_at_def)

lemma example_network_processors:
  "pip_processor (pipeline_at example_network 0) = Some (FeedMessage_processor ''MBTA'')"
  "pip_processor (pipeline_at example_network 1) = Some VehiclePosition_processor"
  by (simp_all add: example_network_def pipeline_at_def)

lemma example_network_run:
  "\<exists>st. network_run reference_platform sequential_streams example_network example_ext (new_network 0) st \<and>
     ps_in (nw_pipelines st 1) = [(2, 3, Any_FeedMessageEvent (Some \<lparr>fme_AgencyId = ''MBTA'', fme_FeedMessage = None\<rparr>))]"
proof -
  let ?st0 = "new_network 0"
  let ?st1 = "take_next ?st0 (Ext 0 0)\<lparr>nw_pipelines := (nw_pipelines ?st0)(0 := process_next reference_platform
      (FeedMessage_processor ''MBTA'') (nw_pipelines ?st0 0) (0, 1, sent sequential_streams example_network example_ext ?st0 (Ext 0 0) ! nw_taken ?st0 (Ext 0 0)))\<rparr>"
  let ?st2 = "take_next ?st1 (Edge 0 0)\<lparr>nw_pipelines := (nw_pipelines ?st1)(1 := process_next reference_platform
      VehiclePosition_processor (nw_pipelines ?st1 1) (2, 3, sent sequential_streams example_network example_ext ?st1 (Edge 0 0) ! nw_taken ?st1 (Edge 0 0)))\<rparr>"
  have out: "ps_out (nw_pipelines ?st1 0) = [Any_FeedMessageEvent (Some \<lparr>fme_AgencyId = ''MBTA'', fme_FeedMessage = None\<rparr>)]"
    by (simp add: process_next_def new_network_def sent_simps [OF sequential_streams_spec] example_network_sinks example_ext_def processor_handle_def feed_handle_def)
  have "network_step reference_platform sequential_streams example_network example_ext ?st0 ?st1"
    by (rule network_step.process [OF _ example_network_processors(1)])
      (simp_all add: example_network_reads new_network_def sent_simps [OF sequential_streams_spec] example_network_sinks example_ext_def)
  moreover have "network_step reference_platform sequential_streams example_network example_ext ?st1 ?st2"
    by (rule network_step.process [OF _ example_network_processors(2)])
      (simp add: example_network_reads, use out in \<open>simp add: sent_simps [OF sequential_streams_spec] example_network_sinks take_next_def new_network_def\<close>)
  ultimately have "network_run reference_platform sequential_streams example_network example_ext ?st0 ?st2" by auto
  moreover have "ps_in (nw_pipelines ?st2 1) =
      [(2, 3, Any_FeedMessageEvent (Some \<lparr>fme_AgencyId = ''MBTA'', fme_FeedMessage = None\<rparr>))]"
    using out by (simp add: process_next_simps sent_simps [OF sequential_streams_spec] example_network_sinks take_next_def new_network_def)
  ultimately show ?thesis by blast
qed


section \<open>Types on connectors\<close>

text \<open>
  A graph is well typed when every pipeline has a processor, and the processor expects the type of
  what arrives: the output type of every pipeline that feeds it, and the types of the values of
  its other sources.
\<close>

definition well_typed :: "Graph \<Rightarrow> (nat \<Rightarrow> nat \<Rightarrow> go_any list) \<Rightarrow> bool" where
  "well_typed g ext \<longleftrightarrow>
     (\<forall>j ch. reads_from g j ch \<longrightarrow>
        (\<exists>p. pip_processor (pipeline_at g j) = Some p \<and>
          (case ch of
             Ext a l \<Rightarrow> list_all (\<lambda>v. go_typeof v \<in> in_types p) (ext a l)
           | Edge i k \<Rightarrow> (\<exists>q. pip_processor (pipeline_at g i) = Some q \<and> out_type q \<in> in_types p))))"

lemma processor_out_typed:
  "v \<in> set (snd (processor_handle pf ss p st inp)) \<Longrightarrow> go_typeof v = out_type p"
  by (cases p) (auto simp: processor_handle_def out_type_def feed_handle_typed stop_handle_typed
      metric_handle_typed vehicle_typed)

lemma outputs_typed: "v \<in> set (outputs (processor_handle pf ss p) st is) \<Longrightarrow> go_typeof v = out_type p"
  by (rule outputs_all [where h = "processor_handle pf ss p"]) (rule processor_out_typed)

definition inputs_typed :: "Graph \<Rightarrow> network \<Rightarrow> bool" where
  "inputs_typed g st \<longleftrightarrow>
     (\<forall>j p. pip_processor (pipeline_at g j) = Some p \<longrightarrow>
        list_all (\<lambda>i. go_typeof (snd (snd i)) \<in> in_types p) (ps_in (nw_pipelines st j)))"

lemma sent_typed:
  assumes "well_typed g ext" and "go_streams_spec gs" and "network_inv pf gs g d ext st" and "reads_from g j ch"
    and "pip_processor (pipeline_at g j) = Some p" and "v \<in> set (sent gs g ext st ch)"
  shows "go_typeof v \<in> in_types p"
proof (cases ch)
  case (Ext a l)
  then show ?thesis using assms(1,4-6) by (fastforce simp: well_typed_def sent_simps [OF assms(2)] list_all_iff)
next
  case (Edge i k)
  obtain q where q: "pip_processor (pipeline_at g i) = Some q" "out_type q \<in> in_types p"
    using assms(1,4,5) Edge unfolding well_typed_def by fastforce
  then have "v \<in> set (outputs (processor_handle pf InMemory_ops q) (NewInMemoryStateStore d)
      (ps_in (nw_pipelines st i)))"
    using assms(3,6) Edge by (simp add: network_inv_def sent_simps [OF assms(2)] split: if_splits)
  then show ?thesis using outputs_typed q(2) by metis
qed

lemma inputs_typed_step:
  assumes "well_typed g ext" and "go_streams_spec gs" and "network_inv pf gs g d ext st" and "network_step pf gs g ext st st'"
    and "inputs_typed g st"
  shows "inputs_typed g st'"
  using assms(4)
proof (cases rule: network_step.cases)
  case (process j ch p t u)
  then have "go_typeof (sent gs g ext st ch ! nw_taken st ch) \<in> in_types p"
    by (intro sent_typed [OF assms(1-3)]) auto
  then show ?thesis
    using process(1,3) assms(5) by (auto simp: inputs_typed_def take_next_def process_next_simps)
next
  case (deliver i k)
  then show ?thesis using assms(5) by (simp add: inputs_typed_def take_next_def)
qed

lemma example_network_typed: "well_typed example_network example_ext"
  by (auto simp: well_typed_def example_network_reads example_network_processors [unfolded One_nat_def] example_ext_def
      go_typeof_def in_types_def out_type_def)



end
