(* ===== verification/Journey.thy ===== *)
theory Journey
  imports Transit_Chain
begin

text \<open>
  From positions to measurements. The stop processor turns the positions of a vehicle into arrivals
  and departures, and the dwell and travel time processors turn these into durations. The
  theorems here compose the three: they state the durations in terms of what the vehicle
  reported, a status, a stop and a second at a time.
\<close>

section \<open>What a vehicle reports on a trip\<close>

text \<open>The identity of a trip: what all positions of a vehicle on it have in common.\<close>

record service =
  sv_agency :: string
  sv_route :: string
  sv_direction :: string
  sv_trip :: string
  sv_vehicle :: string

definition position_second :: "vp_input \<Rightarrow> int" where
  "position_second i = sint (ptr_get Seconds 0 (GetTimestamp (VehiclePositionEvent_GetAttributes (snd (snd i)))))"

text \<open>A position on the trip: it names its stop and has a timestamp of a whole second.\<close>

definition on_trip :: "service \<Rightarrow> vp_input \<Rightarrow> bool" where
  "on_trip sv i \<longleftrightarrow>
     (let a = VehiclePositionEvent_GetAttributes (snd (snd i)) in
      GetAgencyId a = sv_agency sv \<and> GetRouteId a = sv_route sv \<and> GetDirectionId a = sv_direction sv \<and>
      GetTripId a = sv_trip sv \<and> GetVehicleId a = sv_vehicle sv \<and> GetStopId a \<noteq> [] \<and>
      (case GetTimestamp a of
         None \<Rightarrow> False
       | Some ts \<Rightarrow> Nanos ts = 0 \<and> 0 \<le> sint (Seconds ts) \<and> sint (Seconds ts) < 2 ^ 31))"

text \<open>
  The visits of the vehicle: the arrivals and departures of the transition table, each at the second
  of the position that shows it.
\<close>

type_synonym visit = "EventType \<times> string \<times> int"

fun visits :: "(observation \<times> int) option \<Rightarrow> (observation \<times> int) list \<Rightarrow> visit list" where
  "visits prev [] = []"
| "visits None (c # cs) = visits (Some c) cs"
| "visits (Some p) (c # cs) =
     map (\<lambda>(ty, s). (ty, s, snd c)) (stop_transition (fst p) (fst c)) @ visits (Some c) cs"

definition report :: "vp_input \<Rightarrow> observation \<times> int" where
  "report i = (observe i, position_second i)"

definition times_at :: "string \<Rightarrow> visit list \<Rightarrow> (EventType \<times> int) list" where
  "times_at s vs = map (\<lambda>(ty, _, t). (ty, t)) (filter (\<lambda>(_, s', _). s' = s) vs)"

definition arrivals_in :: "visit list \<Rightarrow> (string \<times> int) list" where
  "arrivals_in vs = map (\<lambda>(_, s, t). (s, t)) (filter (\<lambda>(ty, _, _). ty = StopEvent_ARRIVAL) vs)"

section \<open>The stop events of a trip\<close>

definition visit_of :: "StopEvent option \<Rightarrow> visit" where
  "visit_of e =
     (StopEvent_GetStopEventType e, GetStopId (StopEvent_GetAttributes e),
      sint (ptr_get Seconds 0 (GetTimestamp (StopEvent_GetAttributes e))))"

text \<open>A stop event of the trip that the dwell and travel time processors accept.\<close>

definition event_on_trip :: "service \<Rightarrow> StopEvent option \<Rightarrow> bool" where
  "event_on_trip sv e \<longleftrightarrow>
     (let a = StopEvent_GetAttributes e in
      GetAgencyId a = sv_agency sv \<and> GetRouteId a = sv_route sv \<and> GetDirectionId a = sv_direction sv \<and>
      GetTripId a = sv_trip sv \<and> GetVehicleId a = sv_vehicle sv \<and> whole_second (0, 0, e))"

lemma made_for_on_trip:
  assumes "sv_vehicle sv \<noteq> []" and "on_trip sv j" and "s \<noteq> []"
  shows "event_on_trip sv (made_for j (ty, s)) \<and> visit_of (made_for j (ty, s)) = (ty, s, position_second j)"
proof -
  obtain vp a where vp: "snd (snd j) = Some vp" "vpe_Attributes vp = Some a"
    using assms(1,2) by (cases "snd (snd j)"; cases "vpe_Attributes (the (snd (snd j)))") (auto simp: on_trip_def Let_def)
  show ?thesis
    using assms
    by (auto simp: vp on_trip_def made_for_def makeStopEvent_def event_on_trip_def visit_of_def whole_second_def
        position_second_def Let_def split: option.splits)
qed

lemma spec_events_on_trip:
  assumes "sv_vehicle sv \<noteq> []" and "list_all (on_trip sv) (case prev of None \<Rightarrow> is | Some i \<Rightarrow> i # is)"
  shows "list_all (event_on_trip sv) (spec_events prev is) \<and>
    map visit_of (spec_events prev is) = visits (map_option report prev) (map report is)"
  using assms(2)
proof (induction prev "is" rule: spec_events.induct)
  case (3 i j js)
  then have j: "on_trip sv j" and stops: "snd (observe i) \<noteq> []" "snd (observe j) \<noteq> []"
    by (simp_all add: on_trip_def observe_def Let_def)
  have each: "event_on_trip sv (made_for j e) \<and> visit_of (made_for j e) = (fst e, snd e, position_second j)"
    if "e \<in> set (stop_transition (observe i) (observe j))" for e
  proof -
    obtain ty s where e: "e = (ty, s)" by fastforce
    then have "s \<noteq> []" using that stops transition_stops [of ty s "observe i" "observe j"] by auto
    then show ?thesis using made_for_on_trip [OF assms(1) j] by (simp add: e)
  qed
  then show ?case using 3 by (auto simp: list_all_iff report_def)
qed simp_all

lemma stop_run_on_trip:
  assumes "sv_vehicle sv \<noteq> []" and "list_all (on_trip sv) is" and "within_ttl is"
    and "map (\<lambda>j. snd (snd j)) js = outputs (stop_step InMemory_ops) (NewInMemoryStateStore d) is"
  shows "list_all (\<lambda>j. event_on_trip sv (snd (snd j))) js \<and>
    map (\<lambda>j. visit_of (snd (snd j))) js = visits None (map report is)"
proof -
  have "list_all (\<lambda>i. vp_key i = sv_vehicle sv) is"
    using assms(2) by (simp add: list_all_iff on_trip_def vp_key_def Let_def)
  then have js: "map (\<lambda>j. snd (snd j)) js = spec_events None is"
    using stop_run_exact [OF assms(1) _ assms(3)] assms(4) by simp
  have "map (\<lambda>j. visit_of (snd (snd j))) js = map visit_of (map (\<lambda>j. snd (snd j)) js)" by simp
  moreover have "list_all (\<lambda>j. event_on_trip sv (snd (snd j))) js =
      list_all (event_on_trip sv) (map (\<lambda>j. snd (snd j)) js)"
    by (simp add: list_all_iff)
  ultimately show ?thesis
    using spec_events_on_trip [OF assms(1), where prev = None] assms(2) unfolding js by simp
qed

section \<open>Dwell times\<close>

definition dwell_key_at :: "service \<Rightarrow> string \<Rightarrow> string" where
  "dwell_key_at sv s = DwellStopKey_String
     \<lparr>dk_agencyID = sv_agency sv, dk_routeID = sv_route sv, dk_stopID = s,
      dk_directionID = sv_direction sv, dk_vehicleID = sv_vehicle sv\<rparr>"

lemma dwell_key_on_trip:
  "event_on_trip sv (snd (snd j)) \<Longrightarrow>
   dwell_key j = dwell_key_at sv s \<longleftrightarrow> fst (snd (visit_of (snd (snd j)))) = s"
  by (auto simp: event_on_trip_def visit_of_def dwell_key_def dwell_key_at_def NewDwellStopKey_def
      DwellStopKey_String_def Let_def)

lemma dwell_obs_on_trip:
  assumes "list_all (\<lambda>j. event_on_trip sv (snd (snd j))) js"
  shows "map dwell_obs (filter (\<lambda>j. dwell_key j = dwell_key_at sv s) js) =
    times_at s (map (\<lambda>j. visit_of (snd (snd j))) js)"
  using assms
proof (induction js)
  case (Cons j js)
  have "dwell_obs j = (fst (visit_of (snd (snd j))), snd (snd (visit_of (snd (snd j)))))"
    by (simp add: dwell_obs_def visit_of_def input_second_def)
  then show ?case
    using Cons dwell_key_on_trip [of sv j s] by (auto simp: times_at_def case_prod_beta)
qed (simp add: times_at_def)


text \<open>A bus that stands at \<open>A\<close> from second 110 to 140 and at \<open>B\<close> from 200 to 230.\<close>

definition example_service :: service where
  "example_service = \<lparr>sv_agency = [], sv_route = [], sv_direction = [], sv_trip = [], sv_vehicle = ''bus''\<rparr>"

definition example_trip :: "vp_input list" where
  "example_trip =
     [(0, 1, example_vp ''bus'' StopStatus_IN_TRANSIT_TO ''A'' 100),
      (2, 3, example_vp ''bus'' StopStatus_STOPPED_AT ''A'' 110),
      (4, 5, example_vp ''bus'' StopStatus_STOPPED_AT ''A'' 120),
      (6, 7, example_vp ''bus'' StopStatus_IN_TRANSIT_TO ''B'' 140),
      (8, 9, example_vp ''bus'' StopStatus_STOPPED_AT ''B'' 200),
      (10, 11, example_vp ''bus'' StopStatus_IN_TRANSIT_TO ''C'' 230)]"

definition received_at :: "StopEvent option list \<Rightarrow> se_input list" where
  "received_at es = map (\<lambda>e. (20, 21, e)) es"

lemma received_at_values: "map (\<lambda>j. snd (snd j)) (received_at es) = es"
  by (simp add: received_at_def comp_def)

lemma received_at_live: "live_run (filter P (received_at es))"
  by (auto simp: live_run_def received_at_def time_Add_def sorted_wrt_map filter_map intro!: sorted_wrt_filter)

lemmas example_trip_simps =
  example_trip_def example_service_def example_vp_def EventAttributes_zero_def on_trip_def time_Add_def
  report_def observe_def position_second_def stop_transition_def times_at_def arrivals_in_def


section \<open>Travel times\<close>

definition trip_key :: "service \<Rightarrow> string" where
  "trip_key sv = tripKey_String
     \<lparr>tk_routeID = sv_route sv, tk_directionID = sv_direction sv, tk_vehicleID = sv_vehicle sv,
      tk_tripID = sv_trip sv\<rparr>"

lemma travel_key_on_trip: "event_on_trip sv (snd (snd j)) \<Longrightarrow> travel_key j = trip_key sv"
  by (simp add: event_on_trip_def travel_key_def trip_key_def Let_def)

lemma arrivals_on_trip:
  assumes "list_all (\<lambda>j. event_on_trip sv (snd (snd j))) js"
  shows "arrivals_of (trip_key sv) js = arrivals_in (map (\<lambda>j. visit_of (snd (snd j))) js)"
  using assms
  by (induction js) (auto simp: travel_key_on_trip arrivals_in_def visit_of_def travel_obs_def input_second_def)



end
