(* ===== verification/Fleet.thy ===== *)
theory Fleet
  imports Journey
begin

text \<open>
  All vehicles at once. The transition table of \<open>Stop_Event\<close> describes one vehicle; here the whole
  stream of stop events of a fleet is determined, in order and without any assumption about what the
  positions contain, and from it the headways at the stops of a line.
\<close>

section \<open>The stop processor, completely\<close>

text \<open>
  The processor remembers the last position of every vehicle, for an hour after it stored it. A
  position is compared with the one remembered; the first one, or one that comes later than that,
  only starts to be remembered.
\<close>

definition remembered :: "(string \<rightharpoonup> vp_input) \<Rightarrow> vp_input \<Rightarrow> vp_input option" where
  "remembered prev i =
     (case prev (vp_key i) of
        None \<Rightarrow> None
      | Some p \<Rightarrow> if time_Add (fst (snd p)) time_Hour < fst i then None else Some p)"

fun fleet_events :: "(string \<rightharpoonup> vp_input) \<Rightarrow> vp_input list \<Rightarrow> StopEvent option list" where
  "fleet_events prev [] = []"
| "fleet_events prev (i # is) =
     (if vp_key i = [] then fleet_events prev is
      else (case remembered prev i of
              None \<Rightarrow> []
            | Some p \<Rightarrow> map (made_for i) (stop_transition (observe p) (observe i))) @
           fleet_events (prev(vp_key i \<mapsto> i)) is)"

definition shows_fleet :: "InMemoryStateStore \<Rightarrow> (string \<rightharpoonup> vp_input) \<Rightarrow> bool" where
  "shows_fleet st prev \<longleftrightarrow>
     (\<forall>v. v \<noteq> [] \<longrightarrow> pred_option (\<lambda>p. vp_key p = v) (prev v) \<and>
       (\<forall>t. InMemory_lookup st t v vp_proto =
          (case prev v of
             None \<Rightarrow> None
           | Some p \<Rightarrow> if time_Add (fst (snd p)) time_Hour < t then None
                      else Some (Any_VehiclePositionEvent (snd (snd p))))))"

lemma fleet_step_out:
  assumes "shows_fleet st prev" and "vp_key i \<noteq> []"
  shows "snd (stop_step InMemory_ops st i) =
    (case remembered prev i of
       None \<Rightarrow> [] | Some p \<Rightarrow> map (made_for i) (stop_transition (observe p) (observe i)))"
proof (cases "remembered prev i")
  case None
  then have "InMemory_lookup st (fst i) (vp_key i) vp_proto = None"
    using assms by (auto simp: remembered_def shows_fleet_def split: option.splits if_splits)
  then show ?thesis using in_memory.stop_step_out [OF assms(2), of st] None by (simp add: stop_emit_def)
next
  case (Some p)
  then have p: "vp_key p = vp_key i"
      "InMemory_lookup st (fst i) (vp_key i) vp_proto = Some (Any_VehiclePositionEvent (snd (snd p)))"
    using assms by (auto simp: remembered_def shows_fleet_def split: option.splits if_splits)
  then show ?thesis
    using in_memory.stop_step_out [OF assms(2), of st] stop_emit_made [of p i] assms(2) Some by simp
qed

lemma fleet_step_shows:
  assumes "shows_fleet st prev" and "vp_key i \<noteq> []"
  shows "shows_fleet (fst (stop_step InMemory_ops st i)) (prev(vp_key i \<mapsto> i))"
proof -
  have "InMemory_lookup st (fst i) (vp_key i) vp_proto \<noteq> Some Any_nil"
    using assms by (auto simp: shows_fleet_def split: option.split)
  then have "fst (stop_step InMemory_ops st i) =
      fst (InMemory_Set (fst (snd i)) st (vp_key i) (Any_VehiclePositionEvent (snd (snd i))) time_Hour)"
    using assms(2) by (simp add: in_memory.stop_step_eq split: option.split go_any.split)
  then show ?thesis
    using assms by (auto simp: shows_fleet_def InMemory_lookup_set)
qed

lemma fleet_run:
  assumes "shows_fleet st prev"
  shows "outputs (stop_step InMemory_ops) st is = fleet_events prev is"
  using assms
proof (induction "is" arbitrary: st prev)
  case (Cons i "is")
  show ?case
  proof (cases "vp_key i = []")
    case True
    then have "stop_step InMemory_ops st i = (st, [])" by (rule in_memory.stop_step_skip)
    then show ?thesis unfolding outputs_Cons using Cons True by simp
  next
    case False
    then show ?thesis
      unfolding outputs_Cons
      by (simp only: fleet_events.simps Cons.IH [OF fleet_step_shows [OF Cons.prems False]]
          fleet_step_out [OF Cons.prems False] False if_False)
  qed
qed simp

lemma shows_fleet_new: "shows_fleet (NewInMemoryStateStore d) Map.empty"
  by (simp add: shows_fleet_def)


section \<open>Headways on a line\<close>

text \<open>A position of a vehicle on a line: it names its stop and has a timestamp of a whole second.\<close>

definition on_line :: "string \<Rightarrow> string \<Rightarrow> vp_input \<Rightarrow> bool" where
  "on_line r d i \<longleftrightarrow>
     (let a = VehiclePositionEvent_GetAttributes (snd (snd i)) in
      GetRouteId a = r \<and> GetDirectionId a = d \<and> GetVehicleId a \<noteq> [] \<and> GetStopId a \<noteq> [] \<and>
      (case GetTimestamp a of
         None \<Rightarrow> False
       | Some ts \<Rightarrow> Nanos ts = 0 \<and> 0 \<le> sint (Seconds ts) \<and> sint (Seconds ts) < 2 ^ 31))"

text \<open>The visits of all vehicles, each with its vehicle.\<close>

fun fleet_visits :: "(string \<rightharpoonup> vp_input) \<Rightarrow> vp_input list \<Rightarrow> (string \<times> visit) list" where
  "fleet_visits prev [] = []"
| "fleet_visits prev (i # is) =
     (case remembered prev i of
        None \<Rightarrow> []
      | Some p \<Rightarrow> map (\<lambda>(ty, s). (vp_key i, ty, s, position_second i)) (stop_transition (observe p) (observe i))) @
     fleet_visits (prev(vp_key i \<mapsto> i)) is"

definition departures_from :: "string \<Rightarrow> (string \<times> visit) list \<Rightarrow> (string \<times> int) list" where
  "departures_from s vs =
     map (\<lambda>(v, _, _, t). (v, t)) (filter (\<lambda>(_, ty, s', _). ty = StopEvent_DEPARTURE \<and> s' = s) vs)"

definition fleet_visit_of :: "StopEvent option \<Rightarrow> string \<times> visit" where
  "fleet_visit_of e = (GetVehicleId (StopEvent_GetAttributes e), visit_of e)"

definition event_on_line :: "string \<Rightarrow> string \<Rightarrow> StopEvent option \<Rightarrow> bool" where
  "event_on_line r d e \<longleftrightarrow>
     (let a = StopEvent_GetAttributes e in
      GetRouteId a = r \<and> GetDirectionId a = d \<and> whole_second (0, 0, e))"

lemma made_for_on_line:
  assumes "on_line r d j" and "s \<noteq> []"
  shows "event_on_line r d (made_for j (ty, s)) \<and>
    fleet_visit_of (made_for j (ty, s)) = (vp_key j, ty, s, position_second j)"
proof -
  obtain vp a where vp: "snd (snd j) = Some vp" "vpe_Attributes vp = Some a"
    using assms(1) by (cases "snd (snd j)"; cases "vpe_Attributes (the (snd (snd j)))") (auto simp: on_line_def Let_def)
  show ?thesis
    using assms
    by (auto simp: vp on_line_def made_for_def makeStopEvent_def event_on_line_def fleet_visit_of_def visit_of_def
        whole_second_def position_second_def vp_key_def Let_def split: option.splits)
qed

lemma fleet_events_on_line:
  assumes "list_all (on_line r d) is" and "\<And>v p. prev v = Some p \<Longrightarrow> on_line r d p"
  shows "list_all (event_on_line r d) (fleet_events prev is) \<and>
    map fleet_visit_of (fleet_events prev is) = fleet_visits prev is"
  using assms
proof (induction "is" arbitrary: prev)
  case (Cons i "is")
  have i: "on_line r d i" "vp_key i \<noteq> []" using Cons.prems(1) by (simp_all add: on_line_def vp_key_def Let_def)
  have each: "event_on_line r d (made_for i e) \<and> fleet_visit_of (made_for i e) = (vp_key i, fst e, snd e, position_second i)"
    if "remembered prev i = Some p" and "e \<in> set (stop_transition (observe p) (observe i))" for p e
  proof -
    obtain ty s where e: "e = (ty, s)" by fastforce
    have "on_line r d p" using that(1) Cons.prems(2) by (auto simp: remembered_def split: option.splits if_splits)
    then have "s \<noteq> []"
      using that(2) e i(1) transition_stops [of ty s "observe p" "observe i"]
      by (auto simp: on_line_def observe_def Let_def)
    then show ?thesis using made_for_on_line [OF i(1)] by (simp add: e)
  qed
  have "list_all (event_on_line r d) (fleet_events (prev(vp_key i \<mapsto> i)) is) \<and>
      map fleet_visit_of (fleet_events (prev(vp_key i \<mapsto> i)) is) = fleet_visits (prev(vp_key i \<mapsto> i)) is"
    using Cons.prems i(1) by (intro Cons.IH) (auto split: if_splits)
  then show ?case using each i(2) by (cases "remembered prev i") (auto simp: list_all_iff)
qed simp

definition headway_key_at :: "string \<Rightarrow> string \<Rightarrow> string \<Rightarrow> string" where
  "headway_key_at r d s = headwayStopKey_String \<lparr>hk_routeID = r, hk_stopID = s, hk_directionID = d\<rparr>"

lemma departures_on_line:
  assumes "list_all (\<lambda>j. event_on_line r d (snd (snd j))) js"
  shows "departures_of (headway_key_at r d s) js = departures_from s (map (\<lambda>j. fleet_visit_of (snd (snd j))) js)"
  using assms
proof (induction js)
  case (Cons j js)
  have "headway_key j = headway_key_at r d s \<longleftrightarrow> GetStopId (input_attrs j) = s"
    using Cons.prems
    by (simp add: event_on_line_def headway_key_def headway_key_at_def headwayStopKey_String_def Let_def)
  then show ?case
    using Cons by (auto simp: departures_from_def fleet_visit_of_def visit_of_def headway_obs_def input_second_def)
qed (simp add: departures_from_def)

text \<open>
  Headways on a line: those emitted for a stop are the ones between consecutive departures of
  different vehicles from it, for stop events on the line, and for those that the stop processor makes
  from positions on the line.
\<close>

lemma headway_of_events:
  assumes "timestamppb_spec pf" and "list_all (event_on_line r d) (map (\<lambda>j. snd (snd j)) js)"
    and "live_run (filter (\<lambda>j. headway_key j = headway_key_at r d s) js)"
  shows "map headway_sig (headway_emitted_for pf (NewInMemoryStateStore ttl) (headway_key_at r d s) js) =
    headway_spec None (departures_from s (map fleet_visit_of (map (\<lambda>j. snd (snd j)) js)))"
proof -
  have on: "list_all (\<lambda>j. event_on_line r d (snd (snd j))) js" using assms(2) by (simp add: list_all_iff)
  then have "list_all whole_second (filter (\<lambda>j. headway_key j = headway_key_at r d s) js)"
    by (auto simp: list_all_iff event_on_line_def whole_second_def Let_def)
  then show ?thesis
    using headway_stream_refines [OF assms(1) _ assms(3)] departures_on_line [OF on] by (simp add: comp_def)
qed

lemma headway_of_line:
  assumes "timestamppb_spec pf" and "list_all (on_line r d) is"
    and "map (\<lambda>j. snd (snd j)) js = outputs (stop_step InMemory_ops) (NewInMemoryStateStore ttl) is"
    and "live_run (filter (\<lambda>j. headway_key j = headway_key_at r d s) js)"
  shows "map headway_sig (headway_emitted_for pf (NewInMemoryStateStore ttl') (headway_key_at r d s) js) =
    headway_spec None (departures_from s (fleet_visits Map.empty is))"
proof -
  have js: "map (\<lambda>j. snd (snd j)) js = fleet_events Map.empty is"
    using assms(3) fleet_run [OF shows_fleet_new] by simp
  have line: "list_all (event_on_line r d) (fleet_events Map.empty is)"
      "map fleet_visit_of (fleet_events Map.empty is) = fleet_visits Map.empty is"
    using fleet_events_on_line [OF assms(2), of Map.empty] by simp_all
  show ?thesis
    using headway_of_events [OF assms(1) _ assms(4)] line unfolding js by simp
qed

end
