(* ===== verification/Feed_Journey.thy ===== *)
theory Feed_Journey
  imports Fleet Sources
begin

text \<open>
  From the polled feed to the measurements. The HTTP source, the feed processor, the vehicle processor,
  the stop processor and the headway processor are connected as the configured pipelines connect
  them, and the headways at the end are stated in terms of the vehicles in the bodies that the
  transit agency's server returned.
\<close>

section \<open>The vehicles of a polled feed\<close>

text \<open>The feeds in a sequence of responses: the successful ones whose body can be decoded.\<close>

definition polled_feeds :: "platform \<Rightarrow> http_response list \<Rightarrow> gtfs_FeedMessage list" where
  "polled_feeds pf rs = List.map_filter (\<lambda>r. Option.bind (success_body r) (Unmarshal_FeedMessage pf)) rs"

definition feed_vehicles :: "gtfs_FeedMessage \<Rightarrow> gtfs_VehiclePosition list" where
  "feed_vehicles m = map (\<lambda>e. the (gtfs_GetVehicle e)) (filter reported (gtfs_entity m))"

definition polled_vehicles :: "platform \<Rightarrow> http_response list \<Rightarrow> gtfs_VehiclePosition list" where
  "polled_vehicles pf rs = concat (map feed_vehicles (polled_feeds pf rs))"

text \<open>The position that is made from a vehicle.\<close>

definition position_for :: "platform \<Rightarrow> string \<Rightarrow> gtfs_VehiclePosition \<Rightarrow> VehiclePositionEvent" where
  "position_for pf agency v = the (vehicle_entity pf agency (Some \<lparr>gtfs_entity_vehicle = Some v\<rparr>))"

lemma vehicle_entity_position:
  "reported e \<Longrightarrow> the (vehicle_entity pf agency e) = position_for pf agency (the (gtfs_GetVehicle e))"
  by (cases e) (auto simp: reported_def position_for_def vehicle_entity_def Let_def)

lemma feed_outputs_decodes:
  "fst (feed_doStream pf agency (map InRecv xs)) =
     map (\<lambda>m. Any_FeedMessageEvent (Some \<lparr>fme_AgencyId = agency, fme_FeedMessage = m\<rparr>))
       (List.map_filter (feed_decode pf) xs)"
  using feed_doStream_decodes [of pf agency xs "[]"] select_loop_recv [of "feed_handle pf agency" "()" xs "[]"]
    select_loop_closed [of "feed_handle pf agency" "()" xs "[]"]
  by (simp add: feed_doStream_def)

lemma decoded_bodies:
  "List.map_filter (feed_decode pf) (map Any_bytes (List.map_filter success_body rs)) = map Some (polled_feeds pf rs)"
  by (induction rs)
    (auto simp: polled_feeds_def List.map_filter_simps feed_decode_def split: option.split)

lemma feed_events_of:
  "map (\<lambda>m. Any_FeedMessageEvent (Some \<lparr>fme_AgencyId = agency, fme_FeedMessage = m\<rparr>)) (map Some ms) =
     map feed_event (map (\<lambda>m. (agency, gtfs_header m, gtfs_entity m)) ms)"
  by (simp add: feed_event_def)

text \<open>The positions that leave the vehicle processor, from the responses the source polls.\<close>

lemma polled_positions:
  assumes "0 < sint (hs_interval src)" and "http_init src (map InRecv rs) = Some (polled, c)"
  shows "fst (vehicle_doStream pf (map InRecv (fst (feed_doStream pf agency (map InRecv polled))))) =
    map (position_for pf agency) (polled_vehicles pf rs)"
proof -
  have polled: "polled = map Any_bytes (List.map_filter success_body rs)"
    using http_source_relays_successes [OF assms(1), of rs] assms(2) by simp
  have feeds: "fst (feed_doStream pf agency (map InRecv polled)) =
      map feed_event (map (\<lambda>m. (agency, gtfs_header m, gtfs_entity m)) (polled_feeds pf rs))"
    unfolding polled feed_outputs_decodes decoded_bodies feed_events_of ..
  have "outputs (vehicle_handle pf) () (map feed_event (map (\<lambda>m. (agency, gtfs_header m, gtfs_entity m)) ms)) =
      map (position_for pf agency) (concat (map feed_vehicles ms))" for ms
    unfolding vehicle_outputs
    by (induction ms) (simp_all add: feed_vehicles_def vehicle_entity_position del: gtfs_GetVehicle_def)
  then show ?thesis
    unfolding feeds polled_vehicles_def vehicle_doStream_def
    using select_loop_recv [of "vehicle_handle pf" "()" _ "[]"] by (simp only: append_Nil2) simp
qed

section \<open>What the vehicles report\<close>

text \<open>The id a vehicle is followed by: its own, or the id of its trip.\<close>

definition vehicle_name :: "gtfs_VehiclePosition \<Rightarrow> string" where
  "vehicle_name v =
     (if gtfs_GetId (gtfs_vehicle v) = [] then gtfs_GetTripId (gtfs_trip v) else gtfs_GetId (gtfs_vehicle v))"

text \<open>
  A vehicle in service on a line: it has a name, and its timestamp is a positive 32-bit
  number of seconds.
\<close>

definition serves :: "string \<Rightarrow> nat \<Rightarrow> gtfs_VehiclePosition \<Rightarrow> bool" where
  "serves r d v \<longleftrightarrow> gtfs_GetRouteId (gtfs_trip v) = r \<and> unat (gtfs_GetDirectionId (gtfs_trip v)) = d \<and>
     vehicle_name v \<noteq> [] \<and> uint (gtfs_GetTimestamp (Some v)) < 2 ^ 31"

definition vehicle_report :: "gtfs_VehiclePosition \<Rightarrow> observation \<times> int" where
  "vehicle_report v =
     ((vehicle_status (gtfs_GetCurrentStatus (Some v)), gtfs_GetStopId (Some v)),
      uint (gtfs_GetTimestamp (Some v)))"

text \<open>
  A vehicle with the instants at which the stop processor looks up its last position and stores the
  new one, and the arrivals and departures that follow from the reports of all vehicles.
\<close>

type_synonym sighting = "Time \<times> Time \<times> gtfs_VehiclePosition"

definition last_sighting :: "(string \<rightharpoonup> sighting) \<Rightarrow> sighting \<Rightarrow> gtfs_VehiclePosition option" where
  "last_sighting prev x =
     (case prev (vehicle_name (snd (snd x))) of
        None \<Rightarrow> None
      | Some p \<Rightarrow> if time_Add (fst (snd p)) time_Hour < fst x then None else Some (snd (snd p)))"

fun sighted_visits :: "(string \<rightharpoonup> sighting) \<Rightarrow> sighting list \<Rightarrow> (string \<times> visit) list" where
  "sighted_visits prev [] = []"
| "sighted_visits prev (x # xs) =
     (let v = snd (snd x) in
      (case last_sighting prev x of
         None \<Rightarrow> []
       | Some p \<Rightarrow> map (\<lambda>(ty, s). (vehicle_name v, ty, s, snd (vehicle_report v)))
                     (stop_transition (fst (vehicle_report p)) (fst (vehicle_report v)))) @
      sighted_visits (prev(vehicle_name v \<mapsto> x)) xs)"

definition as_input :: "platform \<Rightarrow> string \<Rightarrow> sighting \<Rightarrow> vp_input" where
  "as_input pf agency x = (fst x, fst (snd x), Some (position_for pf agency (snd (snd x))))"

lemma sint_small_uint64: "uint (w :: uint64) < 2 ^ 31 \<Longrightarrow> sint w = uint w"
  using sint_word64_of_int [of "uint w"] uint_ge_0 [of w] by simp

lemma position_attributes:
  assumes "timestamppb_spec pf" and "gtfs_GetStopId (Some v) \<noteq> []"
  shows "VehiclePositionEvent_GetAttributes (Some (position_for pf agency v)) = Some (EventAttributes_zero
    \<lparr>AgencyId := agency, VehicleId := vehicle_name v, RouteId := gtfs_GetRouteId (gtfs_trip v),
     StopId := gtfs_GetStopId (Some v), TripId := gtfs_GetTripId (gtfs_trip v),
     ServiceDate := gtfs_GetStartDate (gtfs_trip v),
     DirectionId := decimal (unat (gtfs_GetDirectionId (gtfs_trip v))),
     StopSequence := gtfs_GetCurrentStopSequence (Some v),
     StopStatus := vehicle_status (gtfs_GetCurrentStatus (Some v)),
     Timestamp := unix_ts (gtfs_GetTimestamp (Some v))\<rparr>)"
  using assms(2)
  by (simp add: position_for_def vehicle_entity_def vehicle_name_def Let_def timestamppb_New_Unix [OF assms(1)])

lemma as_input_reads:
  assumes "timestamppb_spec pf" and "gtfs_GetStopId (Some (snd (snd x))) \<noteq> []"
    and "serves r d (snd (snd x))"
  shows "vp_key (as_input pf agency x) = vehicle_name (snd (snd x))"
    and "observe (as_input pf agency x) = fst (vehicle_report (snd (snd x)))"
    and "position_second (as_input pf agency x) = snd (vehicle_report (snd (snd x)))"
    and "on_line r (decimal d) (as_input pf agency x)"
  using position_attributes [OF assms(1,2), of agency] assms(2,3)
    sint_small_uint64 [of "gtfs_GetTimestamp (Some (snd (snd x)))"]
  by (auto simp: as_input_def vp_key_def observe_def position_second_def on_line_def serves_def vehicle_report_def
      Let_def simp del: gtfs_GetStopId_def gtfs_GetTimestamp_def VehiclePositionEvent_GetAttributes_def)

text \<open>A sighting that the theorems below speak about.\<close>

definition in_service :: "string \<Rightarrow> nat \<Rightarrow> sighting \<Rightarrow> bool" where
  "in_service r d x \<longleftrightarrow> gtfs_GetStopId (Some (snd (snd x))) \<noteq> [] \<and> serves r d (snd (snd x))"

lemma sighted_fleet_visits:
  assumes "timestamppb_spec pf" and "list_all (in_service r d) xs"
    and "\<And>n p. prev n = Some p \<Longrightarrow> in_service r d p"
  shows "fleet_visits (map_option (as_input pf agency) \<circ> prev) (map (as_input pf agency) xs) = sighted_visits prev xs"
  using assms(2,3)
proof (induction xs arbitrary: prev)
  case (Cons x xs)
  have x: "vp_key (as_input pf agency x) = vehicle_name (snd (snd x))"
      "observe (as_input pf agency x) = fst (vehicle_report (snd (snd x)))"
      "position_second (as_input pf agency x) = snd (vehicle_report (snd (snd x)))"
    using as_input_reads [OF assms(1), of x r d agency] Cons.prems(1) by (simp_all add: in_service_def)
  have p: "observe (as_input pf agency p) = fst (vehicle_report (snd (snd p)))" if "prev n = Some p" for n p
    using as_input_reads(2) [OF assms(1), of p r d agency] Cons.prems(2) [OF that] by (simp add: in_service_def)
  have IH: "fleet_visits (map_option (as_input pf agency) \<circ> prev(vehicle_name (snd (snd x)) \<mapsto> x))
      (map (as_input pf agency) xs) = sighted_visits (prev(vehicle_name (snd (snd x)) \<mapsto> x)) xs"
    using Cons.prems by (intro Cons.IH) (auto split: if_splits)
  have "(map_option (as_input pf agency) \<circ> prev)(n \<mapsto> as_input pf agency x) =
      map_option (as_input pf agency) \<circ> prev(n \<mapsto> x)" for n
    by auto
  note tail = IH [folded this]
  have same: "fst (as_input pf agency y) = fst y" "fst (snd (as_input pf agency y)) = fst (snd y)" for y
    by (simp_all add: as_input_def)
  have rem: "map_option observe (remembered (map_option (as_input pf agency) \<circ> prev) (as_input pf agency x)) =
      map_option (\<lambda>v. fst (vehicle_report v)) (last_sighting prev x)"
    by (cases "prev (vehicle_name (snd (snd x)))") (simp_all add: remembered_def last_sighting_def x(1) same p)
  show ?case
    unfolding list.map fleet_visits.simps sighted_visits.simps Let_def x tail
    using rem by (auto split: option.splits)
qed simp

lemma polled_in_service:
  assumes "list_all (serves r d) (polled_vehicles pf rs)"
  shows "list_all (in_service r d)
    (map2 (\<lambda>i v. (fst i, fst (snd i), v)) (is :: (Time \<times> Time \<times> 'a) list) (take n (polled_vehicles pf rs)))"
proof -
  have "gtfs_GetStopId (Some v) \<noteq> []" if "v \<in> set (polled_vehicles pf rs)" for v
    using that by (auto simp: polled_vehicles_def feed_vehicles_def reported_def simp del: gtfs_GetStopId_def)
  then show ?thesis
    using assms by (auto simp: list_all_iff in_service_def dest!: set_zip_rightD in_set_takeD)
qed

lemma sighted_on_line:
  assumes "timestamppb_spec pf" and "list_all (in_service r d) xs"
  shows "list_all (on_line r (decimal d)) (map (as_input pf agency) xs)"
    and "list_all (event_on_line r (decimal d)) (fleet_events Map.empty (map (as_input pf agency) xs))"
    and "map fleet_visit_of (fleet_events Map.empty (map (as_input pf agency) xs)) = sighted_visits Map.empty xs"
proof -
  show on: "list_all (on_line r (decimal d)) (map (as_input pf agency) xs)"
    using assms as_input_reads(4) [OF assms(1)] by (auto simp: list_all_iff in_service_def)
  then show "list_all (event_on_line r (decimal d)) (fleet_events Map.empty (map (as_input pf agency) xs))"
    "map fleet_visit_of (fleet_events Map.empty (map (as_input pf agency) xs)) = sighted_visits Map.empty xs"
    using fleet_events_on_line [OF on, of Map.empty] sighted_fleet_visits [OF assms, of Map.empty agency]
    by (simp_all add: comp_def)
qed

section \<open>Headways from a polled feed\<close>

text \<open>
  From the agency's server to the headways: when the HTTP source polls any responses, the
  feed processor decodes their bodies, the vehicle processor reports the vehicles in them, the
  stop processor makes arrivals and departures of these and the headway processor receives
  them, then the headways emitted for a stop are those between consecutive departures of
  different vehicles, with the seconds between the timestamps in the feed at which the vehicles were
  first not at the stop any more. Failed requests and undecodable bodies leave no trace. The
  vehicles are in service on one line, and the headway store still holds what is needed.
\<close>

lemma headway_of_polled_feed:
  assumes "timestamppb_spec pf" and "0 < sint (hs_interval src)"
    and "http_init src (map InRecv rs) = Some (polled, c)"
    and "map (\<lambda>i. snd (snd i)) is =
      map Some (fst (vehicle_doStream pf (map InRecv (fst (feed_doStream pf agency (map InRecv polled))))))"
    and "map (\<lambda>j. snd (snd j)) js = outputs (stop_step InMemory_ops) (NewInMemoryStateStore ttl) is"
    and "list_all (serves r d) (polled_vehicles pf rs)"
    and "live_run (filter (\<lambda>j. headway_key j = headway_key_at r (decimal d) s) js)"
  shows "map headway_sig (headway_emitted_for pf (NewInMemoryStateStore ttl') (headway_key_at r (decimal d) s) js) =
    headway_spec None (departures_from s (sighted_visits Map.empty
      (map2 (\<lambda>i v. (fst i, fst (snd i), v)) is (polled_vehicles pf rs))))"
proof -
  let ?xs = "map2 (\<lambda>i v. (fst i, fst (snd i), v)) is (polled_vehicles pf rs)"
  have vals: "map (\<lambda>i. snd (snd i)) is = map (Some \<circ> position_for pf agency) (polled_vehicles pf rs)"
    using assms(4) polled_positions [OF assms(2,3)] by simp
  have "map (as_input pf agency) (map2 (\<lambda>i v. (fst i, fst (snd i), v)) is' vs) = is'"
    if "map (\<lambda>i. snd (snd i)) is' = map (Some \<circ> position_for pf agency) vs" for is' vs
    using that by (induction is' arbitrary: vs) (auto simp: as_input_def)
  then have inputs: "map (as_input pf agency) ?xs = is" using vals by blast
  have service: "list_all (in_service r d) ?xs"
    using polled_in_service [OF assms(6), of "is" "length (polled_vehicles pf rs)"] by simp
  have "list_all (on_line r (decimal d)) is"
    using sighted_on_line(1) [OF assms(1) service, of agency] by (simp only: inputs)
  from headway_of_line [OF assms(1) this assms(5,7)]
    sighted_fleet_visits [OF assms(1) service, of Map.empty agency]
  show ?thesis unfolding inputs by simp
qed

text \<open>
  Two trains of the same line in three successive feeds; a request in between fails, and a body
  cannot be decoded.
\<close>

definition example_train :: "string \<Rightarrow> int32 \<Rightarrow> string \<Rightarrow> uint64 \<Rightarrow> gtfs_FeedEntity option" where
  "example_train n st s sec =
     Some \<lparr>gtfs_entity_vehicle = Some ((example_vehicle (Some s) n sec)\<lparr>gtfs_current_status := Some st\<rparr>)\<rparr>"

definition example_feed :: "bytes \<Rightarrow> gtfs_FeedMessage option" where
  "example_feed b =
     map_option (\<lambda>es. \<lparr>gtfs_header = None, gtfs_entity = es\<rparr>)
       (if b = [0] then Some [example_train ''n1'' gtfs_STOPPED_AT ''A'' 100]
        else if b = [1] then Some [example_train ''n1'' gtfs_IN_TRANSIT_TO ''B'' 140, None,
                                   example_train ''n2'' gtfs_STOPPED_AT ''A'' 150]
        else if b = [2] then Some [example_train ''n2'' gtfs_IN_TRANSIT_TO ''B'' 500]
        else None)"

definition decoding_platform :: platform where
  "decoding_platform = reference_platform\<lparr>Unmarshal_FeedMessage := example_feed\<rparr>"

lemma decoding_platform_spec: "timestamppb_spec decoding_platform"
  using reference_platform_spec by (simp add: timestamppb_spec_def decoding_platform_def)

definition example_responses :: "http_response list" where
  "example_responses =
     [Response 200 (Some [0]), Request_error, Response 200 (Some [1]), Response 503 (Some [2]),
      Response 200 (Some [9]), Response 200 (Some [2])]"

definition example_source :: HTTPSource where
  "example_source = \<lparr>hs_cfg = \<lparr>http_URL = ''url'', http_Interval = ''1s''\<rparr>, hs_interval = 1000000000\<rparr>"

definition example_positions_in :: "vp_input list" where
  "example_positions_in =
     map (\<lambda>p. (0, 1, Some p)) (map (position_for decoding_platform ''MBTA'')
       (polled_vehicles decoding_platform example_responses))"

lemma example_polled:
  "polled_vehicles decoding_platform example_responses =
     map (\<lambda>e. the (gtfs_GetVehicle e))
       [example_train ''n1'' gtfs_STOPPED_AT ''A'' 100, example_train ''n1'' gtfs_IN_TRANSIT_TO ''B'' 140,
        example_train ''n2'' gtfs_STOPPED_AT ''A'' 150, example_train ''n2'' gtfs_IN_TRANSIT_TO ''B'' 500]"
  by (simp add: polled_vehicles_def polled_feeds_def example_responses_def success_body_def List.map_filter_simps
      decoding_platform_def example_feed_def feed_vehicles_def reported_def example_train_def example_vehicle_def)

end
