(* ===== verification/Graph_Completion.thy ===== *)
theory Graph_Completion
  imports Graph_Network
begin

text \<open>
  What becomes of a running graph when its sources have nothing more to give. The types on the connectors order
  the processors in stages, so every schedule of a well-typed graph ends; and when it has ended, nothing is
  left on a connector, and every sink has received all that its pipeline emitted. For the
  pipelines from the feed to the headways this makes the statement of \<open>Live_System\<close> one about
  all vehicles of the polled responses.
\<close>

section \<open>Every schedule ends\<close>

text \<open>The stage of a processor: it takes what processors of lower stages emit.\<close>

definition stage :: "Processor \<Rightarrow> nat" where
  "stage p =
     (case p of
        FeedMessage_processor a \<Rightarrow> 0
      | VehiclePosition_processor \<Rightarrow> 1
      | StopEvent_processor s \<Rightarrow> 2
      | _ \<Rightarrow> 3)"

lemma stage_less: "out_type q \<in> in_types p \<Longrightarrow> stage q < stage p"
  by (cases q; cases p) (simp_all add: out_type_def in_types_def stage_def)

lemma stage_less_4: "stage p < 4"
  by (cases p) (simp_all add: stage_def)

definition channel_height :: "Graph \<Rightarrow> channel \<Rightarrow> nat" where
  "channel_height g ch =
     (case ch of
        Ext j l \<Rightarrow> 0
      | Edge i k \<Rightarrow> (case pip_processor (pipeline_at g i) of None \<Rightarrow> 0 | Some p \<Rightarrow> Suc (stage p)))"

definition channel_set :: "Graph \<Rightarrow> channel set" where
  "channel_set g =
     (\<lambda>(j, l). Ext j l) ` (SIGMA j:{..<length (gr_pipelines g)}. {..<length (pip_sources (pipeline_at g j))}) \<union>
     (\<lambda>(i, k). Edge i k) ` (SIGMA i:{..<length (gr_pipelines g)}. {..<length (pip_sinks (pipeline_at g i))})"

text \<open>How many elements are waiting on the channels of a height.\<close>

definition backlog ::
    "go_streams \<Rightarrow> Graph \<Rightarrow> (nat \<Rightarrow> nat \<Rightarrow> go_any list) \<Rightarrow> nat \<Rightarrow> network \<Rightarrow> nat" where
  "backlog gs g ext m st =
     (\<Sum>ch \<in> {ch \<in> channel_set g. channel_height g ch = m}. length (sent gs g ext st ch) - nw_taken st ch)"

definition network_order ::
    "go_streams \<Rightarrow> Graph \<Rightarrow> (nat \<Rightarrow> nat \<Rightarrow> go_any list) \<Rightarrow> (network \<times> network) set" where
  "network_order gs g ext = measures (map (backlog gs g ext) [0..<5])"

lemma finite_channel_set [simp]: "finite (channel_set g)"
  by (simp add: channel_set_def)

lemma reads_channel_set: "reads_from g j ch \<Longrightarrow> ch \<in> channel_set g"
  by (cases ch) (auto simp: reads_from_def channel_set_def)

lemma height_less: "channel_height g ch < 5"
  using stage_less_4 by (auto simp: channel_height_def split: channel.split option.split)

lemma measures_upt:
  "f m x < (f m y :: nat) \<Longrightarrow> \<forall>i < m. f i x \<le> f i y \<Longrightarrow> k \<le> m \<Longrightarrow> m < n \<Longrightarrow> (x, y) \<in> measures (map f [k..<n])"
proof (induction "m - k" arbitrary: k)
  case 0
  then show ?case by (simp add: upt_conv_Cons measures_less)
next
  case (Suc d)
  then have "(x, y) \<in> measures (map f [Suc k..<n])" "k < m" by (auto intro: Suc.hyps(1))
  moreover from this have "f k x < f k y \<or> f k x = f k y" using Suc.prems(2) by (auto simp: le_less)
  ultimately show ?case using Suc.prems(4) by (auto simp: upt_conv_Cons)
qed

text \<open>Taking an element lowers the order when only channels of greater height receive anything.\<close>

lemma taking_decreases:
  assumes "ch \<in> channel_set g" and "nw_taken st ch < length (sent gs g ext st ch)"
    and "nw_taken st' = (nw_taken st)(ch := Suc (nw_taken st ch))"
    and "\<And>c. channel_height g c \<le> channel_height g ch \<Longrightarrow> sent gs g ext st' c = sent gs g ext st c"
  shows "(st', st) \<in> network_order gs g ext"
proof -
  let ?h = "channel_height g ch"
  let ?left = "\<lambda>st c. length (sent gs g ext st c) - nw_taken st c"
  have le: "?left st' c \<le> ?left st c" if "channel_height g c \<le> ?h" for c
    using assms(3,4) that by auto
  have "?left st' ch < ?left st ch" using assms(2-4) by auto
  then have "backlog gs g ext ?h st' < backlog gs g ext ?h st"
    unfolding backlog_def using assms(1) le by (intro sum_strict_mono_ex1) auto
  moreover have "backlog gs g ext m st' \<le> backlog gs g ext m st" if "m < ?h" for m
    unfolding backlog_def using le that by (intro sum_mono) auto
  ultimately show ?thesis
    unfolding network_order_def using height_less by (intro measures_upt) auto
qed

lemma reader_height:
  assumes "well_typed g ext" and "reads_from g j ch" and "pip_processor (pipeline_at g j) = Some p"
  shows "channel_height g ch < channel_height g (Edge j k)"
proof (cases ch)
  case (Edge i l)
  have "\<exists>p. pip_processor (pipeline_at g j) = Some p \<and>
      (case ch of
         Ext a l \<Rightarrow> list_all (\<lambda>v. go_typeof v \<in> in_types p) (ext a l)
       | Edge i k \<Rightarrow> (\<exists>q. pip_processor (pipeline_at g i) = Some q \<and> out_type q \<in> in_types p))"
    using assms(1,2) unfolding well_typed_def by blast
  then obtain q where "pip_processor (pipeline_at g i) = Some q" "out_type q \<in> in_types p"
    using assms(3) Edge by auto
  then show ?thesis using stage_less assms(3) Edge by (simp add: channel_height_def)
qed (simp add: channel_height_def assms(3))

lemma network_step_decreases:
  assumes "well_typed g ext" and "go_streams_spec gs" and "network_step pf gs g ext st st'"
  shows "(st', st) \<in> network_order gs g ext"
  using assms(3)
proof (cases rule: network_step.cases)
  case (process j ch p t u)
  show ?thesis
  proof (rule taking_decreases [OF reads_channel_set [OF process(2)] process(4)])
    show "nw_taken st' = (nw_taken st)(ch := Suc (nw_taken st ch))" by (simp add: process(1) take_next_def)
    show "sent gs g ext st' c = sent gs g ext st c" if "channel_height g c \<le> channel_height g ch" for c
      using reader_height [OF assms(1) process(2,3)] that
      by (cases c) (auto simp: process(1) take_next_def sent_simps [OF assms(2)] not_less [symmetric])
  qed
next
  case (deliver i k)
  have "sent gs g ext st' c = sent gs g ext st c" for c
    by (cases c) (simp_all add: deliver(1) take_next_def sent_simps [OF assms(2)])
  then show ?thesis
    using deliver(1-3) by (intro taking_decreases [OF _ deliver(5)]) (auto simp: channel_set_def take_next_def)
qed

lemma network_schedules_end:
  assumes "well_typed g ext" and "go_streams_spec gs"
  shows "wfp (\<lambda>st' st. network_step pf gs g ext st st')"
proof -
  have "wf (network_order gs g ext)" unfolding network_order_def by (rule wf_measures)
  then show ?thesis unfolding wfp_def
    by (rule wf_subset) (use network_step_decreases [OF assms] in auto)
qed

section \<open>When a schedule has ended\<close>

definition settled :: "platform \<Rightarrow> go_streams \<Rightarrow> Graph \<Rightarrow> (nat \<Rightarrow> nat \<Rightarrow> go_any list) \<Rightarrow> network \<Rightarrow> bool" where
  "settled pf gs g ext st \<longleftrightarrow> (\<nexists>st'. network_step pf gs g ext st st')"

lemma all_taken: "network_inv pf gs g d ext st \<Longrightarrow> length (sent gs g ext st ch) \<le> nw_taken st ch \<Longrightarrow>
    taken gs g ext st ch = sent gs g ext st ch"
  by (simp add: taken_def)

lemma settled_read:
  assumes "settled pf gs g ext st" and "network_inv pf gs g d ext st" and "reads_from g j ch"
    and "pip_processor (pipeline_at g j) = Some p"
  shows "taken gs g ext st ch = sent gs g ext st ch"
proof (rule all_taken [OF assms(2)])
  show "length (sent gs g ext st ch) \<le> nw_taken st ch"
    using assms(1) network_step.process [OF assms(3,4)] unfolding settled_def not_le [symmetric] by blast
qed

lemma settled_sink:
  assumes "settled pf gs g ext st" and "network_inv pf gs g d ext st" and "go_streams_spec gs"
    and "i < length (gr_pipelines g)" and "k < length (pip_sinks (pipeline_at g i))"
    and "\<not> is_connector_sink (pip_sinks (pipeline_at g i) ! k)"
  shows "taken gs g ext st (Edge i k) = ps_out (nw_pipelines st i)"
proof -
  have "length (sent gs g ext st (Edge i k)) \<le> nw_taken st (Edge i k)"
    using assms(1) network_step.deliver [OF assms(4-6)] unfolding settled_def not_le [symmetric] by blast
  from all_taken [OF assms(2) this] show ?thesis using assms(5) by (simp add: sent_simps [OF assms(3)])
qed

lemma settled_private:
  assumes "settled pf gs g ext st" and "go_streams_spec gs" and "network_run pf gs g ext (new_network d) st"
    and "private_channel g j ch" and "pip_processor (pipeline_at g j) = Some p"
  shows "map (\<lambda>i. snd (snd i)) (ps_in (nw_pipelines st j)) = (case ch of Ext a l \<Rightarrow> ext a l | Edge i k \<Rightarrow> ps_out (nw_pipelines st i))"
  using settled_read [OF assms(1) network_run_inv [OF assms(2,3)] private_reads [OF assms(4)] assms(5)]
    private_taken [OF assms(4,2,3)] private_reads [OF assms(4)]
  by (cases ch) (auto simp: sent_simps [OF assms(2)] reads_from_def)

text \<open>
  From every state the graph comes to rest, whatever the schedule; it can do so with all clocks
  standing at the instants \<open>t\<close> and \<open>u\<close>.
\<close>

lemma network_settles:
  assumes "well_typed g ext" and "go_streams_spec gs"
  shows "\<exists>st'. network_run pf gs g ext st st' \<and> settled pf gs g ext st' \<and>
    (\<forall>j. \<exists>vs. ps_in (nw_pipelines st' j) = ps_in (nw_pipelines st j) @ map (\<lambda>v. (t, u, v)) vs)"
  using network_schedules_end [OF assms, of pf]
proof (induction st rule: wfp_induct_rule)
  case (less st)
  show ?case
  proof (cases "settled pf gs g ext st")
    case True
    then show ?thesis by (intro exI [of _ st]) auto
  next
    case False
    then obtain st0 where "network_step pf gs g ext st st0" by (auto simp: settled_def)
    then have "\<exists>st1. network_step pf gs g ext st st1 \<and>
        (\<forall>j. \<exists>vs. ps_in (nw_pipelines st1 j) = ps_in (nw_pipelines st j) @ map (\<lambda>v. (t, u, v)) vs)"
    proof (cases rule: network_step.cases)
      case (process j ch p t' u')
      let ?v = "sent gs g ext st ch ! nw_taken st ch"
      let ?st1 = "take_next st ch\<lparr>nw_pipelines := (nw_pipelines st)(j := process_next pf p (nw_pipelines st j) (t, u, ?v))\<rparr>"
      have "\<exists>vs. ps_in (nw_pipelines ?st1 i) = ps_in (nw_pipelines st i) @ map (\<lambda>v. (t, u, v)) vs" for i
        by (rule exI [of _ "if i = j then [?v] else []"]) (simp add: take_next_def process_next_simps)
      then show ?thesis using network_step.process [OF process(2-4)] by blast
    next
      case (deliver i k)
      then have "network_step pf gs g ext st (take_next st (Edge i k))" by (intro network_step.deliver)
      moreover have "ps_in (nw_pipelines (take_next st (Edge i k)) j) = ps_in (nw_pipelines st j) @ map (\<lambda>v. (t, u, v)) []"
        for j by (simp add: take_next_def)
      ultimately show ?thesis by blast
    qed
    then obtain st1 where step: "network_step pf gs g ext st st1"
      and new1: "\<forall>j. \<exists>vs. ps_in (nw_pipelines st1 j) = ps_in (nw_pipelines st j) @ map (\<lambda>v. (t, u, v)) vs" by blast
    obtain st' where run: "network_run pf gs g ext st1 st'" "settled pf gs g ext st'"
      and new2: "\<forall>j. \<exists>vs. ps_in (nw_pipelines st' j) = ps_in (nw_pipelines st1 j) @ map (\<lambda>v. (t, u, v)) vs"
      using less.IH [OF step] by blast
    have "\<exists>vs. ps_in (nw_pipelines st' j) = ps_in (nw_pipelines st j) @ map (\<lambda>v. (t, u, v)) vs" for j
    proof -
      obtain vs1 vs2 where "ps_in (nw_pipelines st1 j) = ps_in (nw_pipelines st j) @ map (\<lambda>v. (t, u, v)) vs1"
        "ps_in (nw_pipelines st' j) = ps_in (nw_pipelines st1 j) @ map (\<lambda>v. (t, u, v)) vs2" using new1 new2 by blast
      then show ?thesis by (intro exI [of _ "vs1 @ vs2"]) simp
    qed
    moreover have "network_run pf gs g ext st st'" using step run(1) by (rule converse_rtranclp_into_rtranclp)
    ultimately show ?thesis using run(2) by blast
  qed
qed



end
