(* ===== verification/Live_System.thy ===== *)
theory Live_System
  imports Deployment Graph_Completion
begin

text \<open>
  The whole system while it runs: pipelines connected as in the configurations, in any schedule, fed by
  the responses of the agency's server. At any moment, what the headway pipeline has emitted is
  determined by the vehicles in these responses and by how far the pipelines have got.
\<close>

section \<open>The processors of the chain\<close>

lemma prefix_outputs: "prefix xs ys \<Longrightarrow> prefix (outputs h s xs) (outputs h s ys)"
  by (auto simp: prefix_def outputs_append simp del: concat_append)

lemma feed_outputs:
  "outputs (processor_handle pf ss (FeedMessage_processor a)) st is =
     outputs (feed_handle pf a) () (map (\<lambda>i. snd (snd i)) is)"
proof (induction "is")
  case (Cons i "is")
  have "fst (processor_handle pf ss (FeedMessage_processor a) st i) = st"
    "snd (processor_handle pf ss (FeedMessage_processor a) st i) = snd (feed_handle pf a () (snd (snd i)))"
    by (simp_all add: processor_handle_def)
  then show ?case unfolding list.map outputs_Cons using Cons by simp
qed simp

lemma vehicle_processor_outputs:
  "outputs (processor_handle pf ss VehiclePosition_processor) st is =
     map (\<lambda>e. Any_VehiclePositionEvent (Some e)) (outputs (vehicle_handle pf) () (map (\<lambda>i. snd (snd i)) is))"
proof (induction "is")
  case (Cons i "is")
  have "fst (processor_handle pf ss VehiclePosition_processor st i) = st"
    "snd (processor_handle pf ss VehiclePosition_processor st i) =
       map (\<lambda>e. Any_VehiclePositionEvent (Some e)) (snd (vehicle_handle pf () (snd (snd i))))"
    by (simp_all add: processor_handle_def)
  then show ?case unfolding list.map outputs_Cons using Cons by simp
qed simp

lemma stop_outputs:
  "outputs (processor_handle pf ss (StopEvent_processor h)) st is =
     map Any_StopEvent (outputs (stop_step ss) st (List.map_filter (stop_decode pf) is))"
  unfolding processor_handle_stateful
  by (rule decoded_run [THEN conjunct2]) (rule stop_handle_decode)

lemma headway_outputs:
  "outputs (processor_handle pf ss (HeadwayEvent_processor h)) st is =
     map (\<lambda>e. Any_event (Headway_event (Some e)))
       (outputs (headway_step pf ss) st (List.map_filter stop_decode_input is))"
  unfolding processor_handle_stateful
  by (rule decoded_run [THEN conjunct2])
    (auto simp: headway_handle_def stop_decode_input_def headway_step_def case_prod_beta Let_def split: option.split)

section \<open>What reaches them\<close>

lemma decoded_positions:
  assumes "map (\<lambda>i. snd (snd i)) is = map (\<lambda>v. Any_VehiclePositionEvent (Some (position_for pf agency v))) vs"
  shows "List.map_filter (stop_decode pf) is =
    map (as_input pf agency) (map2 (\<lambda>i v. (fst i, fst (snd i), v)) is vs)"
  using assms
proof (induction "is" arbitrary: vs)
  case (Cons i "is")
  then show ?case
    by (cases vs; cases i) (auto simp: List.map_filter_simps stop_decode_def as_input_def)
qed (simp add: List.map_filter_simps)

lemma decoded_stop_events:
  assumes "map (\<lambda>i. snd (snd i)) is = map Any_StopEvent es"
  shows "map (\<lambda>j. snd (snd j)) (List.map_filter stop_decode_input is) = es"
  using assms
proof (induction "is" arbitrary: es)
  case (Cons i "is")
  then show ?case
    by (cases es; cases i) (auto simp: List.map_filter_simps stop_decode_input_def)
qed (simp add: List.map_filter_simps)

text \<open>The headways on a channel that belong to a stop of a line.\<close>

definition headway_in :: "go_any \<Rightarrow> HeadwayTimeEvent option" where
  "headway_in v = (case v of Any_event (Headway_event h) \<Rightarrow> h | _ \<Rightarrow> None)"

definition headway_event_key :: "HeadwayTimeEvent \<Rightarrow> string" where
  "headway_event_key h = headwayStopKey_String
     \<lparr>hk_routeID = GetRouteId (hte_Attributes h), hk_stopID = GetStopId (hte_Attributes h),
      hk_directionID = GetDirectionId (hte_Attributes h)\<rparr>"

definition headways_for :: "string \<Rightarrow> go_any list \<Rightarrow> HeadwayTimeEvent list" where
  "headways_for k vs = filter (\<lambda>h. headway_event_key h = k) (List.map_filter headway_in vs)"

lemma headway_step_key: "h \<in> set (snd (headway_step pf ss st j)) \<Longrightarrow> headway_event_key h = headway_key j"
  by (cases j) (auto simp: headway_step_def headway_process_def headway_event_key_def headway_key_def
      EventAttributes_zero_def Let_def case_prod_beta split: if_splits option.splits)

lemma headways_emitted:
  "headways_for k (outputs (processor_handle pf InMemory_ops (HeadwayEvent_processor h)) st is) =
     headway_emitted_for pf st k (List.map_filter stop_decode_input is)"
proof -
  have "List.map_filter headway_in (map (\<lambda>e. Any_event (Headway_event (Some e))) hs) = hs" for hs
    by (induction hs) (simp_all add: List.map_filter_simps headway_in_def)
  then show ?thesis
    using filter_outputs [where step = "headway_step pf InMemory_ops" and key = headway_key and k = k and Q = "\<lambda>_. True"
        and P = "\<lambda>h. headway_event_key h = k"] headway_step_key
    unfolding headways_for_def headway_outputs by fastforce
qed

section \<open>The running chain\<close>

text \<open>
  Four pipelines of a graph, from the feed to the headways, each reading a channel of its own: the
  first its source, the others a connector that the one before writes.
\<close>

definition headway_chain :: "Graph \<Rightarrow> ID \<Rightarrow> nat \<Rightarrow> nat \<Rightarrow> nat \<Rightarrow> nat \<Rightarrow> bool" where
  "headway_chain g agency a b c d \<longleftrightarrow>
     pip_processor (pipeline_at g a) = Some (FeedMessage_processor agency) \<and> private_channel g a (Ext a 0) \<and>
     pip_processor (pipeline_at g b) = Some VehiclePosition_processor \<and> (\<exists>k. private_channel g b (Edge a k)) \<and>
     (\<exists>h. pip_processor (pipeline_at g c) = Some (StopEvent_processor h)) \<and> (\<exists>k. private_channel g c (Edge b k)) \<and>
     (\<exists>h. pip_processor (pipeline_at g d) = Some (HeadwayEvent_processor h)) \<and> (\<exists>k. private_channel g d (Edge c k))"

abbreviation got :: "network \<Rightarrow> nat \<Rightarrow> go_any list" where
  "got st j \<equiv> map (\<lambda>i. snd (snd i)) (ps_in (nw_pipelines st j))"

lemma network_out:
  "go_streams_spec gs \<Longrightarrow> network_run pf gs g ext (new_network ttl) st \<Longrightarrow>
   pip_processor (pipeline_at g j) = Some p \<Longrightarrow>
   ps_out (nw_pipelines st j) =
     outputs (processor_handle pf InMemory_ops p) (NewInMemoryStateStore ttl) (ps_in (nw_pipelines st j))"
  using network_run_inv by (simp add: network_inv_def)

lemma private_edge_prefix:
  assumes "private_channel g j (Edge i k)" and "go_streams_spec gs" and "network_run pf gs g ext (new_network ttl) st"
  shows "prefix (got st j) (ps_out (nw_pipelines st i))"
  using private_taken [OF assms] taken_prefix [of gs g ext st "Edge i k"]
  by (auto simp: sent_simps [OF assms(2)] split: if_splits)

lemma polled_positions_outputs:
  assumes "0 < sint (hs_interval src)" and "http_init src (map InRecv rs) = Some (polled, cl)"
  shows "outputs (vehicle_handle pf) () (outputs (feed_handle pf agency) () polled) =
    map (position_for pf agency) (polled_vehicles pf rs)"
proof -
  have "fst (feed_doStream pf agency (map InRecv xs)) = outputs (feed_handle pf agency) () xs" for xs
    using select_loop_recv [of "feed_handle pf agency" "()" xs "[]"] by (simp add: feed_doStream_def)
  moreover have "fst (vehicle_doStream pf (map InRecv xs)) = outputs (vehicle_handle pf) () xs" for xs
    using select_loop_recv [of "vehicle_handle pf" "()" xs "[]"] by (simp add: vehicle_doStream_def)
  ultimately show ?thesis using polled_positions [OF assms, of pf agency] by (simp only:)
qed

lemma chain_positions:
  assumes "headway_chain g agency a b c d" and "go_streams_spec gs" and "network_run pf gs g ext (new_network ttl) st"
    and "0 < sint (hs_interval src)" and "http_init src (map InRecv rs) = Some (ext a 0, cl)"
  shows "prefix (got st c)
    (map (\<lambda>v. Any_VehiclePositionEvent (Some (position_for pf agency v))) (polled_vehicles pf rs))"
proof -
  obtain k k' where chain: "pip_processor (pipeline_at g a) = Some (FeedMessage_processor agency)"
      "private_channel g a (Ext a 0)" "pip_processor (pipeline_at g b) = Some VehiclePosition_processor"
      "private_channel g b (Edge a k)" "private_channel g c (Edge b k')"
    using assms(1) by (auto simp: headway_chain_def)
  have a: "prefix (got st a) (ext a 0)"
    using private_taken [OF chain(2) assms(2,3)] taken_prefix [of gs g ext st "Ext a 0"]
    by (simp add: sent_simps [OF assms(2)])
  have "prefix (got st b) (outputs (feed_handle pf agency) () (got st a))"
    using private_edge_prefix [OF chain(4) assms(2,3)] unfolding network_out [OF assms(2,3) chain(1)] feed_outputs .
  with prefix_outputs [OF a] have "prefix (got st b) (outputs (feed_handle pf agency) () (ext a 0))"
    by (rule prefix_order.trans [rotated])
  note b = prefix_outputs [OF this, of "vehicle_handle pf" "()"]
  have "prefix (got st c) (map (\<lambda>e. Any_VehiclePositionEvent (Some e)) (outputs (vehicle_handle pf) () (got st b)))"
    using private_edge_prefix [OF chain(5) assms(2,3)]
    unfolding network_out [OF assms(2,3) chain(3)] vehicle_processor_outputs .
  then have "prefix (got st c) (map (\<lambda>e. Any_VehiclePositionEvent (Some e))
      (map (position_for pf agency) (polled_vehicles pf rs)))"
    using map_mono_prefix [OF b, of "\<lambda>e. Any_VehiclePositionEvent (Some e)"]
    unfolding polled_positions_outputs [OF assms(4,5), of pf agency] by (rule prefix_order.trans)
  then show ?thesis by (simp add: comp_def)
qed

lemma map2_take: "map2 f xs (take (length xs) ys) = map2 f xs ys"
  by (induction xs arbitrary: ys) (auto simp: take_Suc zip_Cons1 split: list.splits)

text \<open>The reports that the stop pipeline has taken, and the stop events the headway pipeline has taken.\<close>

abbreviation sightings :: "platform \<Rightarrow> http_response list \<Rightarrow> network \<Rightarrow> nat \<Rightarrow> sighting list" where
  "sightings pf rs st c \<equiv>
     map2 (\<lambda>i v. (fst i, fst (snd i), v)) (ps_in (nw_pipelines st c)) (polled_vehicles pf rs)"

lemma chain_stop_out:
  assumes "headway_chain g agency a b c d" and "go_streams_spec gs" and "network_run pf gs g ext (new_network ttl) st"
    and "0 < sint (hs_interval src)" and "http_init src (map InRecv rs) = Some (ext a 0, cl)"
  shows "ps_out (nw_pipelines st c) =
    map Any_StopEvent (fleet_events Map.empty (map (as_input pf agency) (sightings pf rs st c)))"
proof -
  let ?vs = "take (length (ps_in (nw_pipelines st c))) (polled_vehicles pf rs)"
  obtain h where c: "pip_processor (pipeline_at g c) = Some (StopEvent_processor h)"
    using assms(1) by (auto simp: headway_chain_def)
  have "got st c = take (length (got st c))
      (map (\<lambda>v. Any_VehiclePositionEvent (Some (position_for pf agency v))) (polled_vehicles pf rs))"
    using chain_positions [OF assms] by (auto simp: prefix_def)
  then have "got st c = map (\<lambda>v. Any_VehiclePositionEvent (Some (position_for pf agency v))) ?vs"
    by (simp add: take_map)
  from decoded_positions [OF this] show ?thesis
    unfolding network_out [OF assms(2,3) c] stop_outputs map2_take
    using fleet_run [OF shows_fleet_new] by simp
qed

lemma chain_headway_in:
  assumes "headway_chain g agency a b c d" and "go_streams_spec gs" and "network_run pf gs g ext (new_network ttl) st"
    and "0 < sint (hs_interval src)" and "http_init src (map InRecv rs) = Some (ext a 0, cl)"
  shows "map (\<lambda>j. snd (snd j)) (List.map_filter stop_decode_input (ps_in (nw_pipelines st d))) =
    take (length (ps_in (nw_pipelines st d)))
      (fleet_events Map.empty (map (as_input pf agency) (sightings pf rs st c)))"
proof -
  obtain k where d: "private_channel g d (Edge c k)" using assms(1) by (auto simp: headway_chain_def)
  have "got st d = take (length (got st d)) (ps_out (nw_pipelines st c))"
    using private_edge_prefix [OF d assms(2,3)] by (auto simp: prefix_def)
  then show ?thesis
    unfolding chain_stop_out [OF assms] by (intro decoded_stop_events) (simp add: take_map)
qed

text \<open>The headways of a stop, as far as the pipelines have got.\<close>

lemma headways_so_far:
  assumes "timestamppb_spec pf" and "headway_chain g agency a b c d"
    and "go_streams_spec gs" and "network_run pf gs g ext (new_network ttl) st"
    and "0 < sint (hs_interval src)" and "http_init src (map InRecv rs) = Some (ext a 0, cl)"
    and "list_all (serves r dir) (polled_vehicles pf rs)"
    and "live_run (filter (\<lambda>j. headway_key j = headway_key_at r (decimal dir) s)
      (List.map_filter stop_decode_input (ps_in (nw_pipelines st d))))"
  shows "map headway_sig (headways_for (headway_key_at r (decimal dir) s) (ps_out (nw_pipelines st d))) =
    headway_spec None (departures_from s (take (length (ps_in (nw_pipelines st d)))
      (sighted_visits Map.empty (sightings pf rs st c))))"
proof -
  obtain h where d: "pip_processor (pipeline_at g d) = Some (HeadwayEvent_processor h)"
    using assms(2) by (auto simp: headway_chain_def)
  have "list_all (in_service r dir) (sightings pf rs st c)"
    using polled_in_service [OF assms(7), of "ps_in (nw_pipelines st c)" "length (ps_in (nw_pipelines st c))"]
    by (simp only: map2_take)
  note line = sighted_on_line(2,3) [OF assms(1) this, of agency]
  note taken = chain_headway_in [OF assms(2-6)]
  have "list_all (event_on_line r (decimal dir))
      (map (\<lambda>j. snd (snd j)) (List.map_filter stop_decode_input (ps_in (nw_pipelines st d))))"
    unfolding taken using line(1) by (auto simp: list_all_iff dest: in_set_takeD)
  from headway_of_events [OF assms(1) this assms(8), of ttl] show ?thesis
    unfolding network_out [OF assms(3,4) d] headways_emitted taken take_map [symmetric] line(2) .
qed


section \<open>When the graph has come to rest\<close>

lemma settled_chain:
  assumes "headway_chain g agency a b c d" and "go_streams_spec gs" and "network_run pf gs g ext (new_network ttl) st"
    and "0 < sint (hs_interval src)" and "http_init src (map InRecv rs) = Some (ext a 0, cl)"
    and "settled pf gs g ext st"
  shows "got st c = map (\<lambda>v. Any_VehiclePositionEvent (Some (position_for pf agency v))) (polled_vehicles pf rs)"
    and "got st d = ps_out (nw_pipelines st c)"
proof -
  obtain kb kc kd pc pd where proc:
      "pip_processor (pipeline_at g a) = Some (FeedMessage_processor agency)"
      "pip_processor (pipeline_at g b) = Some VehiclePosition_processor"
      "pip_processor (pipeline_at g c) = Some (StopEvent_processor pc)"
      "pip_processor (pipeline_at g d) = Some (HeadwayEvent_processor pd)"
    and own: "private_channel g a (Ext a 0)" "private_channel g b (Edge a kb)" "private_channel g c (Edge b kc)"
      "private_channel g d (Edge c kd)"
    using assms(1) unfolding headway_chain_def by (elim conjE exE)
  note rest = settled_private [OF assms(6,2,3)]
  have "got st b = outputs (feed_handle pf agency) () (ext a 0)"
    using rest [OF own(2) proc(2)] network_out [OF assms(2,3) proc(1)] rest [OF own(1) proc(1)] by (simp add: feed_outputs)
  then have "outputs (vehicle_handle pf) () (got st b) = map (position_for pf agency) (polled_vehicles pf rs)"
    by (simp only: polled_positions_outputs [OF assms(4,5)])
  then show "got st c = map (\<lambda>v. Any_VehiclePositionEvent (Some (position_for pf agency v))) (polled_vehicles pf rs)"
    using rest [OF own(3) proc(3)] network_out [OF assms(2,3) proc(2)] by (simp add: vehicle_processor_outputs comp_def)
  show "got st d = ps_out (nw_pipelines st c)" using rest [OF own(4) proc(4)] by simp
qed

lemma settled_length:
  assumes "headway_chain g agency a b c d" and "go_streams_spec gs" and "network_run pf gs g ext (new_network ttl) st"
    and "0 < sint (hs_interval src)" and "http_init src (map InRecv rs) = Some (ext a 0, cl)"
    and "settled pf gs g ext st" and "timestamppb_spec pf" and "list_all (in_service r dir) (sightings pf rs st c)"
  shows "length (ps_in (nw_pipelines st d)) = length (sighted_visits Map.empty (sightings pf rs st c))"
proof -
  have "length (ps_in (nw_pipelines st d)) = length (got st d)" by (rule length_map [symmetric])
  also have "\<dots> = length (fleet_events Map.empty (map (as_input pf agency) (sightings pf rs st c)))"
    unfolding settled_chain(2) [OF assms(1-6)] chain_stop_out [OF assms(1-5)] by (rule length_map)
  also have "\<dots> = length (sighted_visits Map.empty (sightings pf rs st c))"
    unfolding sighted_on_line(3) [OF assms(7,8), of agency, symmetric] by (rule length_map [symmetric])
  finally show ?thesis .
qed

lemma map2_all: "length xs = length ys \<Longrightarrow> map (\<lambda>i. snd (snd i)) (map2 (\<lambda>i v. (fst i, fst (snd i), v)) xs ys) = ys"
  by (induction xs ys rule: list_induct2) auto


text \<open>
  The default configuration, and the responses with two trains: when the run is complete, the
  console has been sent the headway of 360 seconds between them.
\<close>

lemma default_chain:
  assumes "topology g = ingestion_shape (on ''vp-connector'') @ processing_shape (on ''vp-connector'') 2"
  shows "headway_chain g ''MBTA'' 0 1 2 3"
proof -
  have "private_shape (ingestion_shape (on ''vp-connector'') @ processing_shape (on ''vp-connector'') 2) 0 (Ext 0 0)"
      "private_shape (ingestion_shape (on ''vp-connector'') @ processing_shape (on ''vp-connector'') 2) 1 (Edge 0 0)"
      "private_shape (ingestion_shape (on ''vp-connector'') @ processing_shape (on ''vp-connector'') 2) 2 (Edge 1 0)"
      "private_shape (ingestion_shape (on ''vp-connector'') @ processing_shape (on ''vp-connector'') 2) 3 (Edge 2 0)"
    by code_simp+
  note own = this [folded assms, THEN private_shape_channel]
  have n: "length (gr_pipelines g) = 6"
    using length_topology [of g] by (simp add: assms ingestion_shape_def processing_shape_def)
  have at: "pip_processor (pipeline_at g i) = fst (snd (topology g ! i))" if "i < 6" for i
    using that n by (simp add: topology_def pipeline_at_def)
  show ?thesis
    using own at [of 0] at [of 1] at [of 2] at [of 3]
    unfolding headway_chain_def
    by (auto simp: assms ingestion_shape_def processing_shape_def NewFeedMessageProcessor_def
        NewVehiclePositionEventProcessor_def NewStopEventProcessor_def NewHeadwayEventProcessor_def)
qed

lemma example_polling:
  "0 < sint (hs_interval example_source)"
  "http_init example_source (map InRecv example_responses) =
     Some (map Any_bytes (List.map_filter success_body example_responses), False)"
  using http_source_relays_successes by (simp_all add: example_source_def)

lemma serves_example_train:
  "n \<noteq> [] \<Longrightarrow> uint sec < 2 ^ 31 \<Longrightarrow> serves ''Red'' 0 (the (gtfs_GetVehicle (example_train n status s sec)))"
  by (simp add: serves_def vehicle_name_def example_train_def example_vehicle_def)

lemma example_serves: "list_all (serves ''Red'' 0) (polled_vehicles decoding_platform example_responses)"
  unfolding example_polled list.map list.pred_inject by (intro conjI TrueI serves_example_train) simp_all

abbreviation example_bodies :: "nat \<Rightarrow> nat \<Rightarrow> go_any list" where
  "example_bodies \<equiv> \<lambda>a l. map Any_bytes (List.map_filter success_body example_responses)"

text \<open>A schedule of the default configuration in which all clocks stand still, up to its end.\<close>

lemma default_run:
  obtains g st where "NewGraph example_env default_yaml [] = Built g" "headway_chain g ''MBTA'' 0 1 2 3"
    and "network_run decoding_platform sequential_streams g example_bodies (new_network 0) st"
    and "settled decoding_platform sequential_streams g example_bodies st"
    and "sightings decoding_platform example_responses st 2 = map (\<lambda>v. (0, 1, v)) (polled_vehicles decoding_platform example_responses)"
    and "\<forall>P. live_run (filter P (List.map_filter stop_decode_input (ps_in (nw_pipelines st 3))))"
    and "length (ps_in (nw_pipelines st 3)) =
      length (sighted_visits Map.empty (map (\<lambda>v. (0, 1, v)) (polled_vehicles decoding_platform example_responses)))"
proof -
  let ?vs = "polled_vehicles decoding_platform example_responses"
  obtain g where g: "NewGraph example_env default_yaml [] = Built g"
      "topology g = ingestion_shape (on ''vp-connector'') @ processing_shape (on ''vp-connector'') 2"
    using default_built by blast
  note chain = default_chain [OF g(2)]
  have "typed_shape (topology g)" using shapes_sound(3) by (simp only: g(2) sound_shape_def)
  then have "well_typed g example_bodies" by (rule typed_shape_well_typed) (auto simp: go_typeof_def)
  from network_settles [OF this sequential_streams_spec, of decoding_platform "new_network 0" 0 1] obtain st
    where run: "network_run decoding_platform sequential_streams g example_bodies (new_network 0) st"
      and settled: "settled decoding_platform sequential_streams g example_bodies st"
      and "\<forall>j. \<exists>vs. ps_in (nw_pipelines st j) = map (\<lambda>v. (0, 1, v)) vs" by (auto simp: new_network_def)
  then obtain ins where ins: "\<And>j. ps_in (nw_pipelines st j) = map (\<lambda>v. (0, 1, v)) (ins j)" by metis
  note complete = settled_chain [OF chain sequential_streams_spec run example_polling settled]
  have "length (ins 2) = length ?vs" using arg_cong [OF complete(1), of length] by (simp add: ins)
  then have sight: "sightings decoding_platform example_responses st 2 = map (\<lambda>v. (0, 1, v)) ?vs"
    unfolding ins by (rule list_induct2) auto
  have "List.map_filter stop_decode_input (map (\<lambda>v. (0, 1, v)) vs) =
      map (\<lambda>e. (0, 1, e)) (List.map_filter as_StopEvent vs)" for vs
    by (induction vs) (auto simp: List.map_filter_simps stop_decode_input_def split: option.split)
  then have live: "live_run (filter P (List.map_filter stop_decode_input (ps_in (nw_pipelines st 3))))" for P
    unfolding ins
    by (auto simp: live_run_def time_Add_def sorted_wrt_map filter_map intro!: sorted_wrt_filter)
  have "list_all (in_service ''Red'' 0) (map (\<lambda>v. (0, 1, v)) ?vs)"
    using polled_in_service [OF example_serves, of "ps_in (nw_pipelines st 2)" "length ?vs"] sight by simp
  then have "length (ps_in (nw_pipelines st 3)) = length (sighted_visits Map.empty (map (\<lambda>v. (0, 1, v)) ?vs))"
    using settled_length [OF chain sequential_streams_spec run example_polling settled decoding_platform_spec, of "''Red''" 0]
    unfolding sight by simp
  with g(1) chain run settled sight live show thesis by (intro that) auto
qed

lemma example_headways:
  "headway_spec None (departures_from ''A'' (sighted_visits Map.empty
     (map (\<lambda>v. (0, 1, v)) (polled_vehicles decoding_platform example_responses)))) = [(''n1'', ''n2'', 360)]"
  by (simp add: example_polled example_train_def example_vehicle_def last_sighting_def vehicle_name_def
      vehicle_report_def vehicle_status_def gtfs_status_defs stop_transition_def departures_from_def time_Add_def)



end
