(* ===== verification/Wiring.thy ===== *)
theory Wiring
  imports Deployment
begin

text \<open>
  The channels of a running graph and who closes them. Every source, processor and sink has channels of
  its own, which the accessors \<open>In\<close> and \<open>Out\<close> hand out; a connector is one channel for both its ends. Each
  goroutine closes the channel it writes when it ends, and Go panics when a channel is closed twice.

  The goroutines are those of \<open>Pipeline.Run\<close> (\<open>src/pipelines/pipeline.go\<close>) and of the constructors it
  connects. What the flows of the library go-streams do at the end of a stream is a parameter, the record \<open>flow_ends\<close>;
  \<open>flow_ends_spec\<close> is that they close the inlet they transmit to, as the processors of the repository do. Elements
  are left out: how they travel is the subject of \<open>Graph_Network\<close>.
\<close>

section \<open>Channels\<close>

datatype chan_id =
    Source_chan ID
  | Connector_chan ID
  | Processor_in nat
  | Processor_out nat
  | Sink_chan ID

text \<open>
  The structures of the processors with their channels, and the accessors. The constructors make both
  channels; \<open>i\<close> is the position of the pipeline the processor belongs to.
\<close>

record FeedMessageProcessor =
  fmp_agencyID :: ID
  fmp_in :: chan_id
  fmp_out :: chan_id

record VehiclePositionEventProcessor =
  vpp_in :: chan_id
  vpp_out :: chan_id

record StopEventProcessor_chans =
  sep_in :: chan_id
  sep_out :: chan_id

record DwellEventProcessor =
  dep_in :: chan_id
  dep_out :: chan_id
  dep_stateStore :: "store_handle option"

record HeadwayEventProcessor =
  hep_in :: chan_id
  hep_out :: chan_id
  hep_headwayStates :: "store_handle option"

record TravelTimeEventProcessor =
  tep_in :: chan_id
  tep_out :: chan_id
  tep_tripStates :: "store_handle option"

definition FeedMessageProcessor_In :: "FeedMessageProcessor \<Rightarrow> chan_id" where
  "FeedMessageProcessor_In f = fmp_in f"
definition FeedMessageProcessor_Out :: "FeedMessageProcessor \<Rightarrow> chan_id" where
  "FeedMessageProcessor_Out f = fmp_out f"
definition VehiclePositionEventProcessor_In :: "VehiclePositionEventProcessor \<Rightarrow> chan_id" where
  "VehiclePositionEventProcessor_In v = vpp_in v"
definition VehiclePositionEventProcessor_Out :: "VehiclePositionEventProcessor \<Rightarrow> chan_id" where
  "VehiclePositionEventProcessor_Out v = vpp_out v"
definition StopEventProcessor_In :: "StopEventProcessor_chans \<Rightarrow> chan_id" where
  "StopEventProcessor_In s = sep_in s"
definition StopEventProcessor_Out :: "StopEventProcessor_chans \<Rightarrow> chan_id" where
  "StopEventProcessor_Out s = sep_out s"
definition DwellEventProcessor_In :: "DwellEventProcessor \<Rightarrow> chan_id" where
  "DwellEventProcessor_In d = dep_in d"
definition DwellEventProcessor_Out :: "DwellEventProcessor \<Rightarrow> chan_id" where
  "DwellEventProcessor_Out d = dep_out d"
definition HeadwayEventProcessor_In :: "HeadwayEventProcessor \<Rightarrow> chan_id" where
  "HeadwayEventProcessor_In f = hep_in f"
definition HeadwayEventProcessor_Out :: "HeadwayEventProcessor \<Rightarrow> chan_id" where
  "HeadwayEventProcessor_Out f = hep_out f"
definition TravelTimeEventProcessor_In :: "TravelTimeEventProcessor \<Rightarrow> chan_id" where
  "TravelTimeEventProcessor_In f = tep_in f"
definition TravelTimeEventProcessor_Out :: "TravelTimeEventProcessor \<Rightarrow> chan_id" where
  "TravelTimeEventProcessor_Out f = tep_out f"

text \<open>Behind the interface \<open>Processor\<close>.\<close>

datatype made_processor =
    Made_feed FeedMessageProcessor
  | Made_vehicle VehiclePositionEventProcessor
  | Made_stop StopEventProcessor_chans
  | Made_dwell DwellEventProcessor
  | Made_headway HeadwayEventProcessor
  | Made_travel TravelTimeEventProcessor

definition make_processor :: "nat \<Rightarrow> PipelineConfig \<Rightarrow> store_handle option \<Rightarrow> made_processor" where
  "make_processor i cfg s =
     (let ty = pl_Type cfg
      in if ty = PipelineTypeFeedMessage
         then Made_feed \<lparr>fmp_agencyID = pl_AgencyID cfg, fmp_in = Processor_in i, fmp_out = Processor_out i\<rparr>
         else if ty = PipelineTypeVehiclePosition
         then Made_vehicle \<lparr>vpp_in = Processor_in i, vpp_out = Processor_out i\<rparr>
         else if ty = PipelineTypeStopEvent then Made_stop \<lparr>sep_in = Processor_in i, sep_out = Processor_out i\<rparr>
         else if ty = PipelineTypeDwellEvent
         then Made_dwell \<lparr>dep_in = Processor_in i, dep_out = Processor_out i, dep_stateStore = s\<rparr>
         else if ty = PipelineTypeHeadwayEvent
         then Made_headway \<lparr>hep_in = Processor_in i, hep_out = Processor_out i, hep_headwayStates = s\<rparr>
         else Made_travel \<lparr>tep_in = Processor_in i, tep_out = Processor_out i, tep_tripStates = s\<rparr>)"

fun Processor_In :: "made_processor \<Rightarrow> chan_id" where
  "Processor_In (Made_feed f) = FeedMessageProcessor_In f"
| "Processor_In (Made_vehicle v) = VehiclePositionEventProcessor_In v"
| "Processor_In (Made_stop s) = StopEventProcessor_In s"
| "Processor_In (Made_dwell d) = DwellEventProcessor_In d"
| "Processor_In (Made_headway h) = HeadwayEventProcessor_In h"
| "Processor_In (Made_travel t) = TravelTimeEventProcessor_In t"

fun Processor_Out :: "made_processor \<Rightarrow> chan_id" where
  "Processor_Out (Made_feed f) = FeedMessageProcessor_Out f"
| "Processor_Out (Made_vehicle v) = VehiclePositionEventProcessor_Out v"
| "Processor_Out (Made_stop s) = StopEventProcessor_Out s"
| "Processor_Out (Made_dwell d) = DwellEventProcessor_Out d"
| "Processor_Out (Made_headway h) = HeadwayEventProcessor_Out h"
| "Processor_Out (Made_travel t) = TravelTimeEventProcessor_Out t"

text \<open>The sources and the sinks, under the ids they have in the configuration.\<close>

definition HTTPSource_Out :: "ID \<Rightarrow> chan_id" where
  "HTTPSource_Out i = Source_chan i"
definition RedisSource_Out :: "ID \<Rightarrow> chan_id" where
  "RedisSource_Out i = Source_chan i"

definition LogSink_In :: "ID \<Rightarrow> chan_id" where
  "LogSink_In i = Sink_chan i"
definition SSESink_In :: "ID \<Rightarrow> chan_id" where
  "SSESink_In i = Sink_chan i"
definition DatabaseSink_In :: "ID \<Rightarrow> chan_id" where
  "DatabaseSink_In i = Sink_chan i"
definition ParquetSink_In :: "ID \<Rightarrow> chan_id" where
  "ParquetSink_In i = Sink_chan i"
definition RedisSink_In :: "ID \<Rightarrow> chan_id" where
  "RedisSink_In i = Sink_chan i"

text \<open>
  What a pipeline gets under an id: a connector replaces a source or a sink of the same id, as its entry
  overwrites theirs in \<open>NewGraph\<close>.
\<close>

definition Source_Out :: "GraphConfig \<Rightarrow> ID \<Rightarrow> chan_id" where
  "Source_Out cfg i =
     (if i \<in> set (map_keys (gc_Connectors cfg)) then Connector_chan i
      else case map_of (entries (gc_Sources cfg)) i of
             Some c \<Rightarrow> if src_Type c = SourceTypeHTTP then HTTPSource_Out i else RedisSource_Out i
           | None \<Rightarrow> Source_chan i)"

definition Sink_In :: "GraphConfig \<Rightarrow> ID \<Rightarrow> chan_id" where
  "Sink_In cfg i =
     (if i \<in> set (map_keys (gc_Connectors cfg)) then Connector_chan i
      else case map_of (entries (gc_Sinks cfg)) i of
             Some c \<Rightarrow>
               if snk_Type c = SinkTypeConsole then LogSink_In i
               else if snk_Type c = SinkTypeSSE then SSESink_In i
               else if snk_Type c = SinkTypeDatabase then DatabaseSink_In i
               else if snk_Type c = SinkTypeParquet then ParquetSink_In i
               else RedisSink_In i
           | None \<Rightarrow> Sink_chan i)"

lemma end_channels:
  "Source_Out cfg i = (if i \<in> set (map_keys (gc_Connectors cfg)) then Connector_chan i else Source_chan i)"
  "Sink_In cfg i = (if i \<in> set (map_keys (gc_Connectors cfg)) then Connector_chan i else Sink_chan i)"
  by (simp_all add: Source_Out_def Sink_In_def HTTPSource_Out_def RedisSource_Out_def LogSink_In_def SSESink_In_def
      DatabaseSink_In_def ParquetSink_In_def RedisSink_In_def split: option.split)

lemma processor_channels:
  "Processor_In (make_processor i p s) = Processor_in i" "Processor_Out (make_processor i p s) = Processor_out i"
  by (simp_all add: make_processor_def Let_def FeedMessageProcessor_In_def
      FeedMessageProcessor_Out_def VehiclePositionEventProcessor_In_def VehiclePositionEventProcessor_Out_def
      StopEventProcessor_In_def StopEventProcessor_Out_def DwellEventProcessor_In_def DwellEventProcessor_Out_def
      HeadwayEventProcessor_In_def HeadwayEventProcessor_Out_def TravelTimeEventProcessor_In_def
      TravelTimeEventProcessor_Out_def)

section \<open>Goroutines\<close>

text \<open>
  For the pipeline at position \<open>i\<close>: the flow that merges its sources into the processor, the processor, and one
  flow per sink; and the goroutine of every SSE sink.
\<close>

datatype goroutine = Merge_go nat | Processor_go nat | Flow_go nat nat | SSE_go ID

abbreviation pipeline_cfgs :: "GraphConfig \<Rightarrow> PipelineConfig list" where
  "pipeline_cfgs cfg \<equiv> map snd (entries (gc_Pipelines cfg))"

definition sse_sinks :: "GraphConfig \<Rightarrow> ID list" where
  "sse_sinks cfg = map fst (filter (\<lambda>(i, c). snk_Type c = SinkTypeSSE \<and> i \<notin> set (map_keys (gc_Connectors cfg)))
     (entries (gc_Sinks cfg)))"

definition started :: "GraphConfig \<Rightarrow> goroutine \<Rightarrow> bool" where
  "started cfg g \<longleftrightarrow>
     (case g of
        Merge_go i \<Rightarrow> i < length (pipeline_cfgs cfg)
      | Processor_go i \<Rightarrow> i < length (pipeline_cfgs cfg)
      | Flow_go i k \<Rightarrow> i < length (pipeline_cfgs cfg) \<and> k < length (pl_Sinks (pipeline_cfgs cfg ! i))
      | SSE_go s \<Rightarrow> s \<in> set (sse_sinks cfg))"

text \<open>The processor of a pipeline, with the state store that is configured under its id, if there is one.\<close>

definition processor_made :: "GraphConfig \<Rightarrow> nat \<Rightarrow> made_processor" where
  "processor_made cfg i =
     (let p = pipeline_cfgs cfg ! i
      in make_processor i p
           (if pl_StateStore p \<in> set (map_keys (gc_StateStores cfg)) then Some (Configured_store (pl_StateStore p)) else None))"

text \<open>The channel a goroutine closes when it ends, and when it may end.\<close>

definition closes :: "GraphConfig \<Rightarrow> goroutine \<Rightarrow> chan_id" where
  "closes cfg g =
     (case g of
        Merge_go i \<Rightarrow> Processor_In (processor_made cfg i)
      | Processor_go i \<Rightarrow> Processor_Out (processor_made cfg i)
      | Flow_go i k \<Rightarrow> Sink_In cfg (pl_Sinks (pipeline_cfgs cfg ! i) ! k)
      | SSE_go s \<Rightarrow> SSESink_In s)"

record closing =
  cl_cancelled :: bool
  cl_closed :: "chan_id set"
  cl_ended :: "goroutine set"
  cl_panicked :: bool

definition may_end :: "GraphConfig \<Rightarrow> closing \<Rightarrow> goroutine \<Rightarrow> bool" where
  "may_end cfg st g \<longleftrightarrow>
     (case g of
        Merge_go i \<Rightarrow> list_all (\<lambda>s. Source_Out cfg s \<in> cl_closed st) (pl_Sources (pipeline_cfgs cfg ! i))
      | Processor_go i \<Rightarrow> cl_cancelled st \<or> closes cfg (Merge_go i) \<in> cl_closed st
      | Flow_go i k \<Rightarrow> closes cfg (Processor_go i) \<in> cl_closed st
      | SSE_go s \<Rightarrow> cl_cancelled st \<or> SSESink_In s \<in> cl_closed st)"

text \<open>Whether the merge closes the input of the processor, and \<open>To\<close> the input of its sink.\<close>

record flow_ends =
  fe_Merge_closes :: bool
  fe_To_closes :: bool

definition flow_ends_spec :: "flow_ends \<Rightarrow> bool" where
  "flow_ends_spec fe \<longleftrightarrow> fe_Merge_closes fe \<and> fe_To_closes fe"

definition does_close :: "flow_ends \<Rightarrow> goroutine \<Rightarrow> bool" where
  "does_close fe g =
     (case g of
        Merge_go i \<Rightarrow> fe_Merge_closes fe
      | Processor_go i \<Rightarrow> True
      | Flow_go i k \<Rightarrow> fe_To_closes fe
      | SSE_go s \<Rightarrow> True)"

definition close_chan :: "chan_id \<Rightarrow> closing \<Rightarrow> closing" where
  "close_chan ch st =
     (if ch \<in> cl_closed st then st\<lparr>cl_panicked := True\<rparr> else st\<lparr>cl_closed := insert ch (cl_closed st)\<rparr>)"

definition end_goroutine :: "flow_ends \<Rightarrow> GraphConfig \<Rightarrow> goroutine \<Rightarrow> closing \<Rightarrow> closing" where
  "end_goroutine fe cfg g st =
     (let st' = st\<lparr>cl_ended := insert g (cl_ended st)\<rparr>
      in if does_close fe g then close_chan (closes cfg g) st' else st')"

text \<open>The context is cancelled at some time; goroutines end in any order, each once.\<close>

inductive closing_step :: "flow_ends \<Rightarrow> GraphConfig \<Rightarrow> closing \<Rightarrow> closing \<Rightarrow> bool" for fe cfg where
  cancel: "\<not> cl_panicked st \<Longrightarrow> closing_step fe cfg st (st\<lparr>cl_cancelled := True\<rparr>)"
| ends: "\<not> cl_panicked st \<Longrightarrow> started cfg g \<Longrightarrow> g \<notin> cl_ended st \<Longrightarrow> may_end cfg st g \<Longrightarrow>
    closing_step fe cfg st (end_goroutine fe cfg g st)"

inductive_cases closing_stepE: "closing_step fe cfg st st'"

abbreviation closing_run :: "flow_ends \<Rightarrow> GraphConfig \<Rightarrow> closing \<Rightarrow> closing \<Rightarrow> bool" where
  "closing_run fe cfg \<equiv> (closing_step fe cfg)\<^sup>*\<^sup>*"

definition all_open :: closing where
  "all_open = \<lparr>cl_cancelled = False, cl_closed = {}, cl_ended = {}, cl_panicked = False\<rparr>"

section \<open>Who closes what\<close>

text \<open>The sink at a place of a pipeline.\<close>

definition sink_used :: "GraphConfig \<Rightarrow> nat \<Rightarrow> nat \<Rightarrow> ID" where
  "sink_used cfg i k = pl_Sinks (pipeline_cfgs cfg ! i) ! k"

lemma closes_simps [simp]:
  "closes cfg (Merge_go i) = Processor_in i"
  "closes cfg (Processor_go i) = Processor_out i"
  "closes cfg (Flow_go i k) = Sink_In cfg (sink_used cfg i k)"
  "closes cfg (SSE_go s) = Sink_chan s"
  by (simp_all add: closes_def processor_made_def processor_channels SSESink_In_def sink_used_def Let_def)

lemma end_goroutine_closes:
  "flow_ends_spec fe \<Longrightarrow>
   end_goroutine fe cfg g st = close_chan (closes cfg g) (st\<lparr>cl_ended := insert g (cl_ended st)\<rparr>)"
  by (cases g) (simp_all add: end_goroutine_def does_close_def flow_ends_spec_def)

text \<open>
  A channel is closed when a goroutine that closes it has ended, and a panic has happened when two
  have that close the same.
\<close>

definition closing_inv :: "GraphConfig \<Rightarrow> closing \<Rightarrow> bool" where
  "closing_inv cfg st \<longleftrightarrow>
     cl_ended st \<subseteq> {g. started cfg g} \<and> cl_closed st = closes cfg ` cl_ended st \<and>
     (cl_panicked st \<longleftrightarrow> \<not> inj_on (closes cfg) (cl_ended st))"

lemma closing_inv_step:
  assumes "flow_ends_spec fe" and "closing_inv cfg st" and "closing_step fe cfg st st'"
  shows "closing_inv cfg st'"
  using assms(3)
proof (cases rule: closing_step.cases)
  case cancel
  then show ?thesis using assms(2) by (simp add: closing_inv_def)
next
  case (ends g)
  have st: "cl_ended st \<subseteq> {g. started cfg g}" "cl_closed st = closes cfg ` cl_ended st" "inj_on (closes cfg) (cl_ended st)"
    using assms(2) ends(2) by (simp_all add: closing_inv_def)
  then have "inj_on (closes cfg) (insert g (cl_ended st)) \<longleftrightarrow> closes cfg g \<notin> cl_closed st"
    using ends(4) by (simp add: inj_on_insert)
  then show ?thesis
    using st ends(1,2,3) unfolding end_goroutine_closes [OF assms(1)]
    by (auto simp: closing_inv_def close_chan_def simp del: closes_simps)
qed

lemma closing_run_inv:
  assumes "flow_ends_spec fe" and "closing_run fe cfg all_open st"
  shows "closing_inv cfg st"
  using assms(2)
proof (induction rule: rtranclp_induct)
  case base
  then show ?case by (simp add: closing_inv_def all_open_def)
next
  case (step st st')
  then show ?case using closing_inv_step [OF assms(1)] by blast
qed

text \<open>
  A configuration in which every sink belongs to one place of one pipeline, and none of them is an SSE
  sink, which closes its channel itself.
\<close>

definition exclusive :: "GraphConfig \<Rightarrow> bool" where
  "exclusive cfg \<longleftrightarrow>
     (\<forall>i k j l. started cfg (Flow_go i k) \<and> started cfg (Flow_go j l) \<and> sink_used cfg i k = sink_used cfg j l \<longrightarrow>
        i = j \<and> k = l) \<and>
     (\<forall>i k. started cfg (Flow_go i k) \<longrightarrow> sink_used cfg i k \<notin> set (sse_sinks cfg))"

lemma Sink_In_inj: "Sink_In cfg a = Sink_In cfg b \<longleftrightarrow> a = b"
  by (auto simp: end_channels)

lemma Sink_In_sse: "s \<in> set (sse_sinks cfg) \<Longrightarrow> Sink_In cfg a = Sink_chan s \<longleftrightarrow> a = s"
  by (auto simp: end_channels sse_sinks_def simp del: map_keys_def entries_def)

lemma Sink_In_processor [simp]:
  "Sink_In cfg a \<noteq> Processor_in i" "Sink_In cfg a \<noteq> Processor_out i"
  "Processor_in i \<noteq> Sink_In cfg a" "Processor_out i \<noteq> Sink_In cfg a"
  by (simp_all add: end_channels)

lemma exclusive_inj: "exclusive cfg \<longleftrightarrow> inj_on (closes cfg) {g. started cfg g}"
proof
  assume ex: "exclusive cfg"
  show "inj_on (closes cfg) {g. started cfg g}"
  proof (rule inj_onI)
    fix g h
    assume gh: "g \<in> {g. started cfg g}" "h \<in> {g. started cfg g}" "closes cfg g = closes cfg h"
    have "Sink_In cfg (sink_used cfg i k) \<noteq> Sink_chan s" if "started cfg (Flow_go i k)" "started cfg (SSE_go s)" for i k s
    proof -
      have "s \<in> set (sse_sinks cfg)" using that(2) by (simp add: started_def)
      then show ?thesis using ex that(1) Sink_In_sse [of s cfg "sink_used cfg i k"] unfolding exclusive_def by metis
    qed
    moreover have "i = j \<and> k = l" if "started cfg (Flow_go i k)" "started cfg (Flow_go j l)"
        "Sink_In cfg (sink_used cfg i k) = Sink_In cfg (sink_used cfg j l)" for i j k l
      using ex that unfolding exclusive_def Sink_In_inj by blast
    ultimately show "g = h"
      using gh unfolding mem_Collect_eq by (cases g; cases h) (auto dest: sym)
  qed
next
  assume inj: "inj_on (closes cfg) {g. started cfg g}"
  have "i = j \<and> k = l"
    if "started cfg (Flow_go i k)" "started cfg (Flow_go j l)" "sink_used cfg i k = sink_used cfg j l" for i j k l
    using inj_onD [OF inj, of "Flow_go i k" "Flow_go j l"] that by simp
  moreover have False if "started cfg (Flow_go i k)" "sink_used cfg i k \<in> set (sse_sinks cfg)" for i k
  proof -
    have "started cfg (SSE_go (sink_used cfg i k))" using that(2) by (simp add: started_def)
    then show ?thesis
      using inj_onD [OF inj, of "Flow_go i k" "SSE_go (sink_used cfg i k)"] that Sink_In_sse [OF that(2)] by simp
  qed
  ultimately show "exclusive cfg" unfolding exclusive_def by blast
qed

section \<open>Shutting down\<close>

text \<open>After a cancellation every processor may end, and nothing else closes its output.\<close>

lemma end_processor:
  assumes "flow_ends_spec fe" and "closing_run fe cfg all_open st" and "\<not> cl_panicked st" and "cl_cancelled st"
    and "i < length (pipeline_cfgs cfg)"
  shows "\<exists>st'. closing_run fe cfg all_open st' \<and> \<not> cl_panicked st' \<and> cl_cancelled st' \<and>
    cl_closed st' = insert (Processor_out i) (cl_closed st) \<and> cl_ended st' = insert (Processor_go i) (cl_ended st)"
proof (cases "Processor_go i \<in> cl_ended st")
  case True
  then show ?thesis
    using assms closing_run_inv [OF assms(1,2)] by (intro exI [of _ st]) (force simp: closing_inv_def)
next
  case False
  let ?st = "end_goroutine fe cfg (Processor_go i) st"
  have "closing_step fe cfg st ?st"
    using False assms by (intro closing_step.ends) (simp_all add: started_def may_end_def)
  moreover have "Processor_out i \<notin> cl_closed st"
  proof
    assume "Processor_out i \<in> cl_closed st"
    then obtain g where "g \<in> cl_ended st" "closes cfg g = Processor_out i"
      using closing_run_inv [OF assms(1,2)] unfolding closing_inv_def by (metis imageE)
    then show False using False by (cases g) auto
  qed
  ultimately show ?thesis
    using assms rtranclp.rtrancl_into_rtrancl [OF assms(2)]
    by (intro exI [of _ ?st]) (auto simp: end_goroutine_closes close_chan_def)
qed

lemma end_second:
  assumes "flow_ends_spec fe" and "closing_run fe cfg all_open st" and "\<not> cl_panicked st"
    and "started cfg g" and "started cfg h" and "g \<notin> cl_ended st" and "h \<notin> cl_ended st" and "g \<noteq> h"
    and "closes cfg g = closes cfg h" and "may_end cfg st g" and "may_end cfg st h"
  shows "\<exists>st'. closing_run fe cfg all_open st' \<and> cl_panicked st'"
proof -
  let ?st1 = "end_goroutine fe cfg g st"
  have s1: "closing_step fe cfg st ?st1" using assms by (intro closing_step.ends)
  note run1 = rtranclp.rtrancl_into_rtrancl [OF assms(2) s1]
  show ?thesis
  proof (cases "cl_panicked ?st1")
    case True
    then show ?thesis using run1 by blast
  next
    case False
    let ?st2 = "end_goroutine fe cfg h ?st1"
    have grown: "cl_closed st \<subseteq> cl_closed ?st1" "cl_cancelled ?st1 = cl_cancelled st" "closes cfg h \<in> cl_closed ?st1"
        "cl_ended ?st1 = insert g (cl_ended st)"
      using assms(9) by (auto simp: end_goroutine_closes [OF assms(1)] close_chan_def)
    then have "may_end cfg ?st1 h"
      using assms(11) by (auto simp: may_end_def list_all_iff split: goroutine.splits)
    then have "closing_step fe cfg ?st1 ?st2"
      using assms(5,7,8) False grown(4) by (intro closing_step.ends) auto
    moreover have "cl_panicked ?st2"
      unfolding end_goroutine_closes [OF assms(1), of cfg h] using grown(3) by (simp add: close_chan_def)
    ultimately show ?thesis using rtranclp.rtrancl_into_rtrancl [OF run1] by blast
  qed
qed

lemma not_exclusive_panics:
  assumes "flow_ends_spec fe" and "\<not> exclusive cfg"
  shows "\<exists>st. closing_run fe cfg all_open st \<and> cl_panicked st"
proof -
  let ?st0 = "all_open\<lparr>cl_cancelled := True\<rparr>"
  have st0: "closing_run fe cfg all_open ?st0" "\<not> cl_panicked ?st0" "cl_cancelled ?st0"
      "cl_closed ?st0 = {}" "cl_ended ?st0 = {}"
    using closing_step.cancel [of all_open fe cfg] by (auto simp: all_open_def)
  have flow: "i < length (pipeline_cfgs cfg)" if "started cfg (Flow_go i k)" for i k
    using that by (simp add: started_def)
  from assms(2) consider (flows) i k j l where "started cfg (Flow_go i k)" "started cfg (Flow_go j l)"
      "sink_used cfg i k = sink_used cfg j l" "Flow_go i k \<noteq> Flow_go j l"
    | (sse) i k where "started cfg (Flow_go i k)" "sink_used cfg i k \<in> set (sse_sinks cfg)"
    unfolding exclusive_def goroutine.inject by blast
  then show ?thesis
  proof cases
    case flows
    obtain st1 where st1: "closing_run fe cfg all_open st1" "\<not> cl_panicked st1" "cl_cancelled st1"
        "cl_closed st1 = {Processor_out i}" "cl_ended st1 = {Processor_go i}"
      using end_processor [OF assms(1) st0(1-3) flow [OF flows(1)]] unfolding st0(4,5) by blast
    obtain st2 where st2: "closing_run fe cfg all_open st2" "\<not> cl_panicked st2"
        "cl_closed st2 = {Processor_out j, Processor_out i}" "cl_ended st2 = {Processor_go j, Processor_go i}"
      using end_processor [OF assms(1) st1(1-3) flow [OF flows(2)]] unfolding st1(4,5) by blast
    show ?thesis
      using flows(3,4) by (intro end_second [OF assms(1) st2(1,2) flows(1,2)]) (simp_all add: st2(3,4) may_end_def)
  next
    case sse
    obtain st1 where st1: "closing_run fe cfg all_open st1" "\<not> cl_panicked st1" "cl_cancelled st1"
        "cl_closed st1 = {Processor_out i}" "cl_ended st1 = {Processor_go i}"
      using end_processor [OF assms(1) st0(1-3) flow [OF sse(1)]] unfolding st0(4,5) by blast
    have "started cfg (SSE_go (sink_used cfg i k))" using sse(2) by (simp add: started_def)
    from end_second [OF assms(1) st1(1,2) sse(1) this] show ?thesis
      using Sink_In_sse [OF sse(2)] by (simp add: st1(3-5) may_end_def)
  qed
qed

lemma sse_not_exclusive:
  "started cfg (Flow_go i k) \<Longrightarrow> sink_used cfg i k \<in> set (sse_sinks cfg) \<Longrightarrow> \<not> exclusive cfg"
  unfolding exclusive_def by blast

lemma shipped_not_exclusive: "list_all (\<lambda>cfg. \<not> exclusive cfg) shipped"
proof -
  have "\<not> exclusive default_yaml" "\<not> exclusive all_in_one_yaml" "\<not> exclusive distributed_ingestion_yaml"
    by (rule sse_not_exclusive [of _ 1 2], simp add: started_def shipped_defs,
        simp add: sink_used_def sse_sinks_def SinkType_defs shipped_defs)+
  moreover have "\<not> exclusive distributed_processing_yaml"
    by (rule sse_not_exclusive [of _ 0 4], simp add: started_def shipped_defs,
        simp add: sink_used_def sse_sinks_def SinkType_defs shipped_defs)
  ultimately show ?thesis by (simp add: shipped_def)
qed

text \<open>
  Property C20. Shutting down can crash the process, and exactly when sinks are shared: some order in which
  the goroutines of a graph end makes Go panic for closing a channel twice, if and only if a sink is
  named at two places of the pipelines or one of the named sinks is an SSE sink. Every flow closes
  its sink when its pipeline ends, as the library does, and an SSE sink closes its channel besides. All
  configurations that come with the program are of this kind.
\<close>

theorem shared_sink_closed_twice:
  assumes "flow_ends_spec fe"
  shows "((\<exists>st. closing_run fe cfg all_open st \<and> cl_panicked st) \<longleftrightarrow> \<not> exclusive cfg) \<and>
   list_all (\<lambda>cfg. \<exists>st. closing_run fe cfg all_open st \<and> cl_panicked st) shipped"
proof
  have "exclusive cfg \<Longrightarrow> closing_run fe cfg all_open st \<Longrightarrow> \<not> cl_panicked st" for st
    using closing_run_inv [OF assms, of cfg st] inj_on_subset unfolding exclusive_inj closing_inv_def by blast
  then show "(\<exists>st. closing_run fe cfg all_open st \<and> cl_panicked st) \<longleftrightarrow> \<not> exclusive cfg"
    using not_exclusive_panics [OF assms] by blast
  show "list_all (\<lambda>cfg. \<exists>st. closing_run fe cfg all_open st \<and> cl_panicked st) shipped"
    using shipped_not_exclusive not_exclusive_panics [OF assms] by (simp add: list_all_iff)
qed

theorem shared_sink_closed_twice_witness:
  "\<exists>st. closing_run \<lparr>fe_Merge_closes = True, fe_To_closes = True\<rparr> default_yaml all_open st \<and> cl_panicked st"
  using shared_sink_closed_twice [of "\<lparr>fe_Merge_closes = True, fe_To_closes = True\<rparr>", THEN conjunct2]
  by (simp add: flow_ends_spec_def shipped_def)

end
