(* ===== verification/Readers.thy ===== *)
theory Readers
  imports Parse_Duration
begin

text \<open>
  Readers of text, with which the round trips are stated: a reader takes the text and returns a value
  with the text that follows it. \<open>reads\<close> says that a reader reads back what a printer wrote, whatever
  follows, unless that continues the item; the lemmas extend it from items to separated lists.
\<close>

definition expect :: "string \<Rightarrow> string \<Rightarrow> string option" where
  "expect p s = (if take (length p) s = p then Some (drop (length p) s) else None)"

text \<open>A number of exactly \<open>w\<close> digits.\<close>

definition read_digits :: "nat \<Rightarrow> string \<Rightarrow> (nat \<times> string) option" where
  "read_digits w s =
     (if w \<le> length s \<and> list_all is_digit (take w s) then Some (digits_value (take w s), drop w s) else None)"

text \<open>Items with separators between them; the first argument bounds their number.\<close>

fun read_list :: "nat \<Rightarrow> string \<Rightarrow> (string \<Rightarrow> ('a \<times> string) option) \<Rightarrow> string \<Rightarrow> ('a list \<times> string) option" where
  "read_list 0 sep item s = None"
| "read_list (Suc k) sep item s =
     (case item s of
        None \<Rightarrow> None
      | Some (x, r) \<Rightarrow>
          (case expect sep r of
             None \<Rightarrow> Some ([x], r)
           | Some r' \<Rightarrow> map_option (\<lambda>(xs, t). (x # xs, t)) (read_list k sep item r')))"

definition reads :: "('a \<Rightarrow> string) \<Rightarrow> (char \<Rightarrow> bool) \<Rightarrow> (string \<Rightarrow> ('a \<times> string) option) \<Rightarrow> 'a set \<Rightarrow> bool" where
  "reads sh cont item A \<longleftrightarrow>
     (\<forall>x \<in> A. \<forall>t. (t = [] \<or> \<not> cont (hd t)) \<longrightarrow> item (sh x @ t) = Some (x, t))"

lemma expect_append [simp]: "expect p (p @ s) = Some s"
  by (simp add: expect_def)

lemma read_list_Join:
  assumes "reads sh cont item A" and "set xs \<subseteq> A" and "xs \<noteq> []" and "length xs \<le> k"
    and "t = [] \<or> \<not> cont (hd t)" and "expect sep t = None" and "sep \<noteq> []" and "\<not> cont (hd sep)"
  shows "read_list k sep item (strings_Join (map sh xs) sep @ t) = Some (xs, t)"
  using assms(2-4)
proof (induction xs arbitrary: k)
  case (Cons x xs)
  obtain k' where k: "k = Suc k'" using Cons.prems by (cases k) auto
  have item: "item (sh x @ t') = Some (x, t')" if "t' = [] \<or> \<not> cont (hd t')" for t'
    using assms(1) Cons.prems(1) that unfolding reads_def by auto
  show ?case
  proof (cases xs)
    case Nil
    then show ?thesis using item [OF assms(5)] assms(6) by (simp add: k)
  next
    case (Cons y ys)
    have "item (sh x @ sep @ s) = Some (x, sep @ s)" for s
      using item [of "sep @ s"] assms(7,8) by (simp add: hd_append)
    then show ?thesis
      using Cons.IH [of k'] Cons.prems by (simp add: k Cons)
  qed
qed simp

lemma length_Join: "sep \<noteq> [] \<Longrightarrow> length xs \<le> Suc (length (strings_Join (map sh xs) sep))"
proof (induction xs)
  case (Cons x xs)
  then show ?case by (cases xs; cases sep) auto
qed simp

lemma length_Join_nonempty: "\<forall>x \<in> set xs. sh x \<noteq> [] \<Longrightarrow> length xs \<le> length (strings_Join (map sh xs) sep)"
proof (induction xs)
  case (Cons x xs)
  then obtain c cs where "sh x = c # cs" by (cases "sh x") auto
  with Cons show ?case by (cases xs) auto
qed simp

lemma takeWhile_then:
  "list_all P xs \<Longrightarrow> t = [] \<or> \<not> P (hd t) \<Longrightarrow> takeWhile P (xs @ t) = xs"
  by (cases t) (auto simp: list_all_iff takeWhile_tail)

lemma dropWhile_then:
  "list_all P xs \<Longrightarrow> t = [] \<or> \<not> P (hd t) \<Longrightarrow> dropWhile P (xs @ t) = t"
  by (cases t) (auto simp: list_all_iff dropWhile_append)

end
