(* ===== verification/Db_Schema.thy ===== *)
theory Db_Schema
  imports Db_Sink Readers
begin

text \<open>
  The tables of \<open>src/db/migrations/001_create_events_tables.postgres.sql\<close>, and that the statements of
  the database sink fit them. The statements are read back from their text, so the claim is about
  what is sent to the database: the table exists, its columns are named once each, every
  row has one argument per column and of the type of the column, a NULL can only reach a column that
  admits it, and what the statement leaves out has a default.
\<close>

section \<open>The migration\<close>

datatype sql_type = BIGSERIAL | TEXT | INTEGER | TIMESTAMPTZ

datatype sql_default = Sql_none | Sql_sequence | Sql_empty_string | Sql_zero | Sql_NOW

record sql_column =
  col_name :: string
  col_type :: sql_type
  col_not_null :: bool
  col_default :: sql_default

text \<open>
  The kinds of columns the migration declares. A \<open>BIGSERIAL\<close> column takes its default from a sequence, and
  a primary key is not null.
\<close>

definition text_column :: "string \<Rightarrow> sql_column" where
  "text_column n = \<lparr>col_name = n, col_type = TEXT, col_not_null = True, col_default = Sql_empty_string\<rparr>"
definition integer_column :: "string \<Rightarrow> sql_column" where
  "integer_column n = \<lparr>col_name = n, col_type = INTEGER, col_not_null = True, col_default = Sql_zero\<rparr>"
definition time_column :: "string \<Rightarrow> sql_column" where
  "time_column n = \<lparr>col_name = n, col_type = TIMESTAMPTZ, col_not_null = False, col_default = Sql_none\<rparr>"
definition id_column :: sql_column where
  "id_column = \<lparr>col_name = ''id'', col_type = BIGSERIAL, col_not_null = True, col_default = Sql_sequence\<rparr>"
definition created_at_column :: sql_column where
  "created_at_column =
     \<lparr>col_name = ''created_at'', col_type = TIMESTAMPTZ, col_not_null = True, col_default = Sql_NOW\<rparr>"

text \<open>The columns with which all four tables begin.\<close>

definition event_columns :: "sql_column list" where
  "event_columns =
     [id_column,
      text_column ''agency_id'', text_column ''vehicle_id'', text_column ''route_id'', text_column ''stop_id'',
      text_column ''origin_stop_id'', text_column ''destination_stop_id'', text_column ''direction_id'',
      text_column ''direction'', text_column ''direction_destination'', text_column ''parent_station'',
      integer_column ''stop_sequence'', integer_column ''stop_status'',
      text_column ''trip_id'', text_column ''service_date'', time_column ''event_timestamp'']"

definition stop_events_table :: "sql_column list" where
  "stop_events_table = event_columns @ [text_column ''stop_event_type'', created_at_column]"

definition dwell_time_events_table :: "sql_column list" where
  "dwell_time_events_table = event_columns @
     [time_column ''arrival_time'', time_column ''departure_time'', integer_column ''dwell_time_seconds'',
      created_at_column]"

definition travel_time_events_table :: "sql_column list" where
  "travel_time_events_table = event_columns @
     [time_column ''start_time'', time_column ''end_time'', integer_column ''travel_time_seconds'',
      created_at_column]"

definition headway_time_events_table :: "sql_column list" where
  "headway_time_events_table = event_columns @
     [text_column ''leading_vehicle_id'', text_column ''following_vehicle_id'', integer_column ''headway_seconds'',
      created_at_column]"

definition migrated_tables :: "(string \<times> sql_column list) list" where
  "migrated_tables =
     [(''stop_events'', stop_events_table), (''dwell_time_events'', dwell_time_events_table),
      (''travel_time_events'', travel_time_events_table), (''headway_time_events'', headway_time_events_table)]"

text \<open>The indexes, each with its table and the columns it is on.\<close>

definition migrated_indexes :: "(string \<times> string \<times> string list) list" where
  "migrated_indexes =
     [(''idx_stop_events_agency_route_date'', ''stop_events'', [''agency_id'', ''route_id'', ''service_date'']),
      (''idx_stop_events_trip_stop'', ''stop_events'', [''trip_id'', ''stop_id'']),
      (''idx_dwell_time_events_agency_route_date'', ''dwell_time_events'',
        [''agency_id'', ''route_id'', ''service_date'']),
      (''idx_travel_time_events_agency_route_date'', ''travel_time_events'',
        [''agency_id'', ''route_id'', ''service_date'']),
      (''idx_travel_time_events_origin_dest'', ''travel_time_events'',
        [''origin_stop_id'', ''destination_stop_id'']),
      (''idx_headway_time_events_agency_route_date'', ''headway_time_events'',
        [''agency_id'', ''route_id'', ''service_date''])]"

section \<open>Rows that fit a table\<close>

text \<open>
  The type of an argument. A nil time is a NULL of the type of times.
\<close>

fun arg_fits :: "sql_column \<Rightarrow> sql_arg \<Rightarrow> bool" where
  "arg_fits c (Sql_string s) \<longleftrightarrow> col_type c = TEXT"
| "arg_fits c (Sql_int32 n) \<longleftrightarrow> col_type c = INTEGER"
| "arg_fits c (Sql_time None) \<longleftrightarrow> col_type c = TIMESTAMPTZ \<and> \<not> col_not_null c"
| "arg_fits c (Sql_time (Some t)) \<longleftrightarrow> col_type c = TIMESTAMPTZ"

definition column_named :: "sql_column list \<Rightarrow> string \<Rightarrow> sql_column option" where
  "column_named cs n = find (\<lambda>c. col_name c = n) cs"

text \<open>A row for the columns \<open>names\<close> of a table.\<close>

definition row_fits :: "sql_column list \<Rightarrow> string list \<Rightarrow> sql_arg list \<Rightarrow> bool" where
  "row_fits cs names args \<longleftrightarrow>
     list_all2 (\<lambda>n a. case column_named cs n of None \<Rightarrow> False | Some c \<Rightarrow> arg_fits c a) names args"

text \<open>The columns left out have a default, unless they may be NULL.\<close>

definition rest_defaulted :: "sql_column list \<Rightarrow> string list \<Rightarrow> bool" where
  "rest_defaulted cs names \<longleftrightarrow>
     list_all (\<lambda>c. col_name c \<in> set names \<or> \<not> col_not_null c \<or> col_default c \<noteq> Sql_none) cs"

section \<open>Reading a statement\<close>

text \<open>
  A reader of insert statements, independent of how the sink builds them: the table, the columns,
  and the numbers of the parameters of every row. Elements in parentheses have commas
  between them.
\<close>

definition is_name_char :: "char \<Rightarrow> bool" where
  "is_name_char c \<longleftrightarrow> c = CHR ''_'' \<or> c \<in> set ''abcdefghijklmnopqrstuvwxyz''"

definition read_name :: "string \<Rightarrow> (string \<times> string) option" where
  "read_name s =
     (let n = takeWhile is_name_char s in if n = [] then None else Some (n, drop (length n) s))"

definition read_param :: "string \<Rightarrow> (nat \<times> string) option" where
  "read_param s =
     (case expect ''$'' s of
        None \<Rightarrow> None
      | Some r \<Rightarrow> let n = takeWhile is_digit r in if n = [] then None else Some (digits_value n, drop (length n) r))"

definition read_parens :: "(string \<Rightarrow> ('a \<times> string) option) \<Rightarrow> string \<Rightarrow> ('a list \<times> string) option" where
  "read_parens item s =
     Option.bind (expect ''('' s) (\<lambda>r.
     Option.bind (read_list (length r) '', '' item r) (\<lambda>(xs, r).
     map_option (\<lambda>t. (xs, t)) (expect '')'' r)))"

definition read_insert :: "string \<Rightarrow> (string \<times> string list \<times> nat list list) option" where
  "read_insert s =
     Option.bind (expect ''INSERT INTO '' s) (\<lambda>r.
     Option.bind (read_name r) (\<lambda>(table, r).
     Option.bind (expect '' '' r) (\<lambda>r.
     Option.bind (read_parens read_name r) (\<lambda>(cols, r).
     Option.bind (expect '' VALUES '' r) (\<lambda>r.
     Option.bind (read_list (length r) '', '' (read_parens read_param) r) (\<lambda>(rows, r).
     if r = [] then Some (table, cols, rows) else None))))))"

text \<open>
  A call that fits the tables: its parameters are the arguments, from the first to the last, and
  every row fits the table.
\<close>

definition call_fits :: "(string \<times> sql_column list) list \<Rightarrow> exec_call \<Rightarrow> bool" where
  "call_fits tables c \<longleftrightarrow>
     (case read_insert (ec_query c) of
        None \<Rightarrow> False
      | Some (table, cols, rows) \<Rightarrow>
          (case map_of tables table of
             None \<Rightarrow> False
           | Some cs \<Rightarrow> distinct cols \<and> rest_defaulted cs cols \<and>
               concat rows = [1..<length (ec_args c) + 1] \<and>
               list_all (\<lambda>ps. row_fits cs cols (map (\<lambda>p. ec_args c ! (p - 1)) ps)) rows))"

section \<open>The statements of the sink are read back\<close>

lemma reads_name: "reads (\<lambda>n. n) is_name_char read_name {n. n \<noteq> [] \<and> list_all is_name_char n}"
  by (auto simp: reads_def read_name_def Let_def takeWhile_then)

lemma not_name_chars: "\<not> is_name_char CHR '',''" "\<not> is_name_char CHR '')''" "\<not> is_name_char CHR '' ''"
  by (simp_all add: is_name_char_def)

lemma reads_param: "reads (\<lambda>n. ''$'' @ decimal n) is_digit read_param UNIV"
proof -
  have "read_param ((''$'' @ decimal n) @ t) = Some (n, t)" if "t = [] \<or> \<not> is_digit (hd t)" for n t
    using takeWhile_then [OF is_digit_decimal that, of n] decimal_nonempty [of n]
    by (simp add: read_param_def expect_def Let_def digits_value_decimal)
  then show ?thesis by (auto simp: reads_def is_digit_def simp del: append.simps)
qed

lemma read_parens_Join:
  assumes "reads sh cont item A" and "set xs \<subseteq> A" and "xs \<noteq> []"
    and "\<not> cont (CHR '','')" and "\<not> cont (CHR '')'')"
  shows "read_parens item (''('' @ strings_Join (map sh xs) '', '' @ '')'' @ t) = Some (xs, t)"
proof -
  let ?r = "strings_Join (map sh xs) '', '' @ '')'' @ t"
  have "length xs \<le> length ?r" using length_Join [of "'', ''" xs sh] by simp
  moreover have "expect '', '' ('')'' @ t) = None" by (simp add: expect_def)
  ultimately have "read_list (length ?r) '', '' item ?r = Some (xs, '')'' @ t)"
    using assms by (intro read_list_Join [OF assms(1)]) simp_all
  then show ?thesis unfolding read_parens_def expect_append by (simp add: expect_def)
qed

lemma reads_row:
  "reads (\<lambda>ps. ''('' @ strings_Join (map (\<lambda>n. ''$'' @ decimal n) ps) '', '' @ '')'') (\<lambda>_. False)
     (read_parens read_param) {ps. ps \<noteq> []}"
  using read_parens_Join [OF reads_param] by (simp add: reads_def is_digit_def)

definition row_params :: "nat \<Rightarrow> nat \<Rightarrow> nat list" where
  "row_params m i = map (\<lambda>j. i * m + j + 1) [0..<m]"

lemma read_insert_build:
  assumes "table \<noteq> []" "list_all is_name_char table"
    and "list_all (\<lambda>n. n \<noteq> [] \<and> list_all is_name_char n) cols" and "cols \<noteq> []" and "0 < n"
  shows "read_insert (buildInsert table cols n) = Some (table, cols, map (row_params (length cols)) [0..<n])"
proof -
  let ?row = "\<lambda>ps. ''('' @ strings_Join (map (\<lambda>n. ''$'' @ decimal n) ps) '', '' @ '')''"
  let ?rows = "map (row_params (length cols)) [0..<n]"
  let ?rowtext = "strings_Join (map ?row ?rows) '', ''"
  have "read_list (length ?rowtext) '', '' (read_parens read_param) (?rowtext @ []) = Some (?rows, [])"
  proof (rule read_list_Join [OF reads_row])
    show "set ?rows \<subseteq> {ps. ps \<noteq> []}" using assms(4) by (auto simp: row_params_def)
    show "length ?rows \<le> length ?rowtext" by (rule length_Join_nonempty) simp
  qed (use assms(5) in \<open>simp_all add: expect_def\<close>)
  then have vals: "read_list (length ?rowtext) '', '' (read_parens read_param) ?rowtext = Some (?rows, [])" by simp
  have table: "read_name (table @ '' '' @ t) = Some (table, '' '' @ t)" for t
    using reads_name assms(1,2) not_name_chars(3) by (simp add: reads_def)
  have cols: "read_parens read_name (''('' @ strings_Join (map (\<lambda>n. n) cols) '', '' @ '')'' @ t) = Some (cols, t)" for t
    using assms(3,4) by (intro read_parens_Join [OF reads_name] not_name_chars) (auto simp: list_all_iff)
  have build: "buildInsert table cols n = ''INSERT INTO '' @ table @ '' '' @ ''('' @
      strings_Join (map (\<lambda>n. n) cols) '', '' @ '')'' @ '' VALUES '' @ ?rowtext"
    by (simp add: buildInsert_def Let_def row_params_def comp_def)
  show ?thesis
    unfolding build read_insert_def expect_append Option.bind.simps table cols vals prod.case by simp
qed

section \<open>Every statement fits\<close>

lemma nth_concat_rows:
  assumes "\<And>e. e \<in> set es \<Longrightarrow> length (f e) = m" and "i < length es"
  shows "map (\<lambda>j. concat (map f es) ! (i * m + j)) [0..<m] = f (es ! i)"
  using assms
proof (induction es arbitrary: i)
  case (Cons e es)
  then show ?case
    by (cases i) (auto simp: nth_append map_nth intro: nth_equalityI)
qed simp

lemma row_fits_length: "row_fits cs names args \<Longrightarrow> length args = length names"
  unfolding row_fits_def by (metis list_all2_lengthD)

lemma concat_row_params: "concat (map (row_params m) [0..<n]) = [1..<n * m + 1]"
  unfolding row_params_def by (rule row_numbers)

text \<open>What a table has to satisfy for the statements that name some of its columns.\<close>

definition insertable :: "(string \<times> sql_column list) list \<Rightarrow> string \<Rightarrow> string list \<Rightarrow> bool" where
  "insertable tables table cols \<longleftrightarrow>
     table \<noteq> [] \<and> list_all is_name_char table \<and> list_all (\<lambda>n. n \<noteq> [] \<and> list_all is_name_char n) cols \<and>
     cols \<noteq> [] \<and> distinct cols \<and>
     (case map_of tables table of None \<Rightarrow> False | Some cs \<Rightarrow> rest_defaulted cs cols)"

lemma call_fits_build:
  assumes "insertable tables table cols" and "map_of tables table = Some cs"
    and "\<And>e. row_fits cs cols (f e)" and "es \<noteq> []"
  shows "call_fits tables \<lparr>ec_ctx = ctx, ec_query = buildInsert table cols (length es),
    ec_args = concat (map f es)\<rparr>"
proof -
  let ?args = "concat (map f es)" and ?m = "length cols"
  have len: "length (f e) = ?m" for e by (rule row_fits_length [OF assms(3)])
  have read: "read_insert (buildInsert table cols (length es)) =
      Some (table, cols, map (row_params ?m) [0..<length es])"
    using assms(1,4) by (intro read_insert_build) (auto simp: insertable_def)
  have "map (\<lambda>p. ?args ! (p - 1)) (row_params ?m i) = f (es ! i)" if "i < length es" for i
    using nth_concat_rows [of es f ?m i] len that by (simp add: row_params_def comp_def)
  then have rows: "list_all (\<lambda>ps. row_fits cs cols (map (\<lambda>p. ?args ! (p - 1)) ps))
      (map (row_params ?m) [0..<length es])"
    using assms(3) by (auto simp: list_all_iff)
  have "concat (map (row_params ?m) [0..<length es]) = [1..<length ?args + 1]"
    unfolding concat_row_params by (simp add: length_concat_const [OF len])
  then show ?thesis
    using assms(1,2) rows by (simp add: call_fits_def read insertable_def)
qed

lemmas table_defs =
  stop_events_table_def dwell_time_events_table_def travel_time_events_table_def headway_time_events_table_def
  event_columns_def text_column_def integer_column_def time_column_def id_column_def created_at_column_def

lemmas cols_defs = stop_cols_def dwell_cols_def travel_cols_def headway_cols_def attr_cols_def

lemma tables_insertable:
  "insertable migrated_tables ''stop_events'' stop_cols"
  "insertable migrated_tables ''dwell_time_events'' dwell_cols"
  "insertable migrated_tables ''travel_time_events'' travel_cols"
  "insertable migrated_tables ''headway_time_events'' headway_cols"
  by code_simp+

lemma time_arg_fits: "arg_fits \<lparr>col_name = n, col_type = TIMESTAMPTZ, col_not_null = False, col_default = d\<rparr> (Sql_time t)"
  by (cases t) simp_all

lemma rows_fit:
  "row_fits stop_events_table stop_cols (stop_args pf e)"
  "row_fits dwell_time_events_table dwell_cols (dwell_args pf e')"
  "row_fits travel_time_events_table travel_cols (travel_args pf t)"
  "row_fits headway_time_events_table headway_cols (headway_args pf h)"
  by (simp_all add: row_fits_def column_named_def cols_defs table_defs stop_args_def dwell_args_def travel_args_def
      headway_args_def attr_args_def time_arg_fits)

lemma flush_fits:
  assumes "c \<in> set (db_flush pf ctx b)"
  shows "call_fits migrated_tables c"
proof -
  note fits = call_fits_build [OF tables_insertable(1), where f = "stop_args pf"]
    call_fits_build [OF tables_insertable(2), where f = "dwell_args pf"]
    call_fits_build [OF tables_insertable(3), where f = "travel_args pf"]
    call_fits_build [OF tables_insertable(4), where f = "headway_args pf"]
  show ?thesis
    using assms fits rows_fit
    by (auto simp: db_flush_def insert_defs migrated_tables_def Let_def split: if_splits)
qed

text \<open>
  Property C19. Every statement the database sink executes fits the tables of the migration, whatever
  events it receives: read back from its text, it names an existing table and each of its columns
  once, its parameters are its arguments from the first to the last, every row has for each column
  an argument of the column's type, nil times occur only where the column may be NULL, and the
  columns it leaves out have defaults.
\<close>

theorem db_statements_fit_tables:
  "list_all (call_fits migrated_tables) (fst (db_doSink pf s batch cs))"
  unfolding list_all_iff using db_calls [of _ pf s batch cs] flush_fits by blast

text \<open>The migration itself is consistent: no column twice, and the indexes are on columns that exist.\<close>

lemma migration_consistent:
  "list_all (\<lambda>(t, cs). distinct (map col_name cs)) migrated_tables"
  "list_all (\<lambda>(i, t, ns). \<exists>cs. map_of migrated_tables t = Some cs \<and> set ns \<subseteq> set (map col_name cs)) migrated_indexes"
  by (simp_all add: migrated_tables_def migrated_indexes_def table_defs)

end
