(* ===== verification/Shared_Store.thy ===== *)
theory Shared_Store
  imports Pipeline_Run
begin

text \<open>
  Processors that do not have their state store for themselves. The lock of an in-memory store is
  taken for one operation at a time, so between any two operations of a processor the store may be
  changed by others: by the sweep of the goroutine \<open>expire\<close>, and by other processors, since
  pipelines that name the same store in the configuration share it.

  The argument has the shape of a rely and a guarantee. The locale \<open>store_client\<close> says that a client
  relies on nothing but the entries under its own keys, and every processor satisfies it; and every
  processor guarantees to change only the entry under the key of its input. Whether two
  processors can share a store is then a question about their keys.
\<close>

section \<open>Operations of others\<close>

datatype store_op =
    Op_sweep Time
  | Op_set Time string go_any Duration
  | Op_delete string

primrec apply_op :: "InMemoryStateStore \<Rightarrow> store_op \<Rightarrow> InMemoryStateStore" where
  "apply_op st (Op_sweep now) = sweep st now"
| "apply_op st (Op_set now k m ttl) = fst (InMemory_Set now st k m ttl)"
| "apply_op st (Op_delete k) = InMemory_Delete st k"

abbreviation apply_ops :: "InMemoryStateStore \<Rightarrow> store_op list \<Rightarrow> InMemoryStateStore" where
  "apply_ops st ops \<equiv> foldl apply_op st ops"

text \<open>The store when others perform \<open>us\<close> just before a \<open>Set\<close> or \<open>Delete\<close>.\<close>

definition interfered_ops :: "store_op list \<Rightarrow> InMemoryStateStore StateStore" where
  "interfered_ops us =
     \<lparr>ss_Get = InMemory_Get,
      ss_Set = (\<lambda>now st. InMemory_Set now (apply_ops st us)),
      ss_Delete = (\<lambda>st. InMemory_Delete (apply_ops st us)),
      ss_Close = InMemory_Close\<rparr>"

lemma interfered_ops_sel [simp]:
  "ss_Get (interfered_ops us) = InMemory_Get"
  "ss_Set (interfered_ops us) now st = InMemory_Set now (apply_ops st us)"
  "ss_Delete (interfered_ops us) st = InMemory_Delete (apply_ops st us)"
  by (simp_all add: interfered_ops_def)

text \<open>A run with interference: before every reception \<open>ts\<close>, and within it, after the \<open>Get\<close>, \<open>us\<close>.\<close>

type_synonym 'i interfered = "store_op list \<times> store_op list \<times> 'i"

fun interfered_run ::
    "(InMemoryStateStore StateStore \<Rightarrow> InMemoryStateStore \<Rightarrow> 'i \<Rightarrow> InMemoryStateStore \<times> 'o list) \<Rightarrow>
     InMemoryStateStore \<Rightarrow> 'i interfered list \<Rightarrow> 'o list" where
  "interfered_run step st [] = []"
| "interfered_run step st ((ts, us, i) # xs) =
     (let (st', os) = step (interfered_ops us) (apply_ops st ts) i in os @ interfered_run step st' xs)"

abbreviation own_inputs :: "'i interfered list \<Rightarrow> 'i list" where
  "own_inputs xs \<equiv> map (\<lambda>(_, _, i). i) xs"

text \<open>
  What others may do: change other keys than those in \<open>K\<close>, and sweep. The clock does not go back:
  a sweep has read no later instant than any \<open>Get\<close> that follows it.
\<close>

definition foreign :: "string set \<Rightarrow> store_op \<Rightarrow> bool" where
  "foreign K op = (case op of Op_sweep n \<Rightarrow> True | Op_set _ k _ _ \<Rightarrow> k \<notin> K | Op_delete k \<Rightarrow> k \<notin> K)"

definition not_later :: "Time \<Rightarrow> store_op \<Rightarrow> bool" where
  "not_later now op = (case op of Op_sweep n \<Rightarrow> n \<le> now | _ \<Rightarrow> True)"

fun clock_monotone :: "(Time \<times> 'i) interfered list \<Rightarrow> bool" where
  "clock_monotone [] = True"
| "clock_monotone ((ts, us, i) # xs) \<longleftrightarrow>
     list_all (not_later (fst i)) ts \<and>
     list_all (\<lambda>j. list_all (not_later (fst j)) (ts @ us)) (own_inputs xs) \<and> clock_monotone xs"

definition undisturbed :: "string set \<Rightarrow> (Time \<times> 'i) interfered list \<Rightarrow> bool" where
  "undisturbed K xs \<longleftrightarrow> list_all (\<lambda>(ts, us, i). list_all (foreign K) (ts @ us)) xs \<and> clock_monotone xs"

lemma undisturbed_Cons:
  "undisturbed K ((ts, us, i) # xs) \<longleftrightarrow>
     list_all (foreign K) (ts @ us) \<and> list_all (not_later (fst i)) ts \<and>
     list_all (\<lambda>j. list_all (not_later (fst j)) (ts @ us)) (own_inputs xs) \<and> undisturbed K xs"
  by (auto simp: undisturbed_def)

section \<open>Stores that agree on the own keys from now on\<close>

definition agree :: "string set \<Rightarrow> Time \<Rightarrow> InMemoryStateStore \<Rightarrow> InMemoryStateStore \<Rightarrow> bool" where
  "agree K now st st' \<longleftrightarrow>
     ims_ttl st = ims_ttl st' \<and>
     (\<forall>t\<ge>now. \<forall>k\<in>K. \<forall>new. InMemory_lookup st t k new = InMemory_lookup st' t k new)"

lemma agree_refl [simp]: "agree K now st st"
  by (simp add: agree_def)

lemma agree_later: "agree K now st st' \<Longrightarrow> now \<le> now' \<Longrightarrow> agree K now' st st'"
  by (simp add: agree_def)

lemma agree_get:
  "agree K now st st' \<Longrightarrow> now \<le> t \<Longrightarrow> k \<in> K \<Longrightarrow> InMemory_Get t st k new = InMemory_Get t st' k new"
  by (auto simp: agree_def intro!: InMemory_Get_cong)

lemma lookup_set_any:
  "InMemory_lookup (fst (InMemory_Set now st k m ttl)) t k' new =
    (if k' = k then (if time_Add now (if ttl = 0 then ims_ttl st else ttl) < t then None else Some m)
     else InMemory_lookup st t k' new)"
  by (simp add: InMemory_lookup_def InMemory_Set_def Let_def)

lemma ims_ttl_kept [simp]:
  "ims_ttl (sweep st now) = ims_ttl st" "ims_ttl (fst (InMemory_Set now st k m ttl)) = ims_ttl st"
  "ims_ttl (InMemory_Delete st k) = ims_ttl st"
  by (simp_all add: sweep_def InMemory_Set_def InMemory_Delete_def Let_def)

lemma agree_set:
  "agree K now st st' \<Longrightarrow> agree K now (fst (InMemory_Set t st k m ttl)) (fst (InMemory_Set t st' k m ttl))"
  by (auto simp: agree_def lookup_set_any)

lemma agree_delete: "agree K now st st' \<Longrightarrow> agree K now (InMemory_Delete st k) (InMemory_Delete st' k)"
  by (auto simp: agree_def InMemory_lookup_delete)

lemma agree_foreign:
  "agree K now st st' \<Longrightarrow> foreign K op \<Longrightarrow> not_later now op \<Longrightarrow> agree K now (apply_op st op) st'"
  by (cases op) (auto simp: agree_def foreign_def not_later_def sweep_lookup lookup_set_any InMemory_lookup_delete)

lemma agree_ops:
  "agree K now st st' \<Longrightarrow> list_all (foreign K) ops \<Longrightarrow> list_all (not_later now) ops \<Longrightarrow>
   agree K now (apply_ops st ops) st'"
  by (induction ops arbitrary: st) (simp_all add: agree_foreign)

text \<open>The latest of an instant and the sweeps in a list of operations.\<close>

fun latest :: "Time \<Rightarrow> store_op list \<Rightarrow> Time" where
  "latest now [] = now"
| "latest now (op # ops) = (case op of Op_sweep n \<Rightarrow> max n (latest now ops) | _ \<Rightarrow> latest now ops)"

lemma latest_le: "latest now ops \<le> t \<longleftrightarrow> now \<le> t \<and> list_all (not_later t) ops"
  by (induction ops) (auto simp: not_later_def split: store_op.split)

lemma latest_bounds: "now \<le> latest now ops" "list_all (not_later (latest now ops)) ops"
  using latest_le [of now ops "latest now ops"] by simp_all

section \<open>Clients of the store\<close>

text \<open>
  The contract: \<open>key\<close> is the key a reception reads and writes. From stores that agree at \<open>now\<close> on the own
  keys, a reception whose \<open>Get\<close> is not earlier sends the same in both, and leaves stores that
  agree once the interference within it has passed.
\<close>

definition meeting_point ::
    "string set \<Rightarrow> Time \<Rightarrow> InMemoryStateStore \<Rightarrow> InMemoryStateStore \<Rightarrow> Time \<Rightarrow> Time \<Rightarrow> store_op list \<Rightarrow> bool" where
  "meeting_point K now st st' t_get now' us \<longleftrightarrow>
     agree K now st st' \<and> now \<le> t_get \<and> now \<le> now' \<and> list_all (foreign K) us \<and>
     list_all (not_later now') us"

definition same_effect ::
    "string set \<Rightarrow> Time \<Rightarrow> InMemoryStateStore \<times> 'o list \<Rightarrow> InMemoryStateStore \<times> 'o list \<Rightarrow> bool" where
  "same_effect K now r r' \<longleftrightarrow> snd r = snd r' \<and> agree K now (fst r) (fst r')"

locale store_client =
  fixes step :: "InMemoryStateStore StateStore \<Rightarrow> InMemoryStateStore \<Rightarrow> Time \<times> 'i \<Rightarrow>
      InMemoryStateStore \<times> 'o list"
    and key :: "Time \<times> 'i \<Rightarrow> string option"
  assumes indifferent: "meeting_point K now st st' (fst i) now' us \<Longrightarrow> set_option (key i) \<subseteq> K \<Longrightarrow>
    same_effect K now' (step (interfered_ops us) st i) (step InMemory_ops st' i)"
begin

lemma run_indifferent:
  assumes "agree K now st st'" and "undisturbed K xs" and "list_all (\<lambda>i. now \<le> fst i) (own_inputs xs)"
    and "list_all (\<lambda>i. set_option (key i) \<subseteq> K) (own_inputs xs)"
  shows "interfered_run step st xs = outputs (step InMemory_ops) st' (own_inputs xs)"
  using assms
proof (induction xs arbitrary: now st st')
  case (Cons x xs)
  obtain ts us i where x: "x = (ts, us, i)" by (cases x)
  define now1 where "now1 = latest now ts"
  define now2 where "now2 = latest now1 us"
  have before: "agree K now1 (apply_ops st ts) st'"
    using Cons.prems(2)
    by (intro agree_ops agree_later [OF Cons.prems(1)]) (simp_all add: x undisturbed_Cons now1_def latest_bounds)
  have at_get: "now1 \<le> fst i"
    using Cons.prems by (simp add: x undisturbed_Cons now1_def latest_le)
  have later: "list_all (\<lambda>j. now2 \<le> fst j) (own_inputs xs)"
    using Cons.prems by (auto simp: x undisturbed_Cons now1_def now2_def latest_le list_all_iff)
  have "meeting_point K now1 (apply_ops st ts) st' (fst i) now2 us"
    using before at_get Cons.prems(2) by (simp add: x undisturbed_Cons meeting_point_def now2_def latest_bounds)
  then have step: "snd (step (interfered_ops us) (apply_ops st ts) i) = snd (step InMemory_ops st' i)"
      "agree K now2 (fst (step (interfered_ops us) (apply_ops st ts) i)) (fst (step InMemory_ops st' i))"
    using indifferent [of K now1 _ st' i now2 us] Cons.prems(4) by (simp_all add: x same_effect_def)
  show ?case
    using Cons.IH [OF step(2) _ later] Cons.prems step(1)
    by (simp add: x undisturbed_Cons outputs_Cons case_prod_beta Let_def del: run_steps.simps)
qed simp

lemma unnoticed:
  assumes "undisturbed K xs" and "list_all (\<lambda>i. set_option (key i) \<subseteq> K) (own_inputs xs)"
  shows "interfered_run step st xs = outputs (step InMemory_ops) st (own_inputs xs)"
proof (cases xs)
  case (Cons x xs')
  define now where "now = Min (set (map fst (own_inputs xs)))"
  have "list_all (\<lambda>i. now \<le> fst i) (own_inputs xs)"
    unfolding now_def list_all_iff by (auto intro!: Min_le)
  then show ?thesis by (rule run_indifferent [OF agree_refl assms(1) _ assms(2)])
qed simp

end

section \<open>The processors rely on their own keys only\<close>

lemma InMemory_Set_ok [simp]: "snd (InMemory_Set now st k m ttl) = None"
  by (simp add: InMemory_Set_def Let_def)

lemma meeting_point_laws:
  assumes "meeting_point K now st st' t_get now' us"
  shows "k \<in> K \<Longrightarrow> InMemory_Get t_get st k new = InMemory_Get t_get st' k new"
    and "agree K now' st st'"
    and "agree K now' (fst (InMemory_Set t (apply_ops st us) k m ttl)) (fst (InMemory_Set t st' k m ttl))"
    and "agree K now' (InMemory_Delete (apply_ops st us) k) (InMemory_Delete st' k)"
proof -
  have st: "agree K now st st'" "now \<le> t_get" "agree K now' st st'"
    and us: "list_all (foreign K) us" "list_all (not_later now') us"
    using assms by (auto simp: meeting_point_def intro: agree_later)
  note changed = agree_ops [OF st(3) us]
  show "InMemory_Get t_get st k new = InMemory_Get t_get st' k new" if "k \<in> K"
    by (rule agree_get [OF st(1,2) that])
  show "agree K now' st st'" by (rule st(3))
  show "agree K now' (fst (InMemory_Set t (apply_ops st us) k m ttl)) (fst (InMemory_Set t st' k m ttl))"
    by (rule agree_set [OF changed])
  show "agree K now' (InMemory_Delete (apply_ops st us) k) (InMemory_Delete st' k)"
    by (rule agree_delete [OF changed])
qed

lemma same_effect_simps [simp]:
  "same_effect K now (st, os) (st', os') \<longleftrightarrow> os = os' \<and> agree K now st st'"
  by (auto simp: same_effect_def)

lemma same_effect_map:
  "same_effect K now r r' \<Longrightarrow>
   same_effect K now (case r of (st, os) \<Rightarrow> (st, map f os)) (case r' of (st, os) \<Rightarrow> (st, map f os))"
  by (simp add: same_effect_def case_prod_beta)

lemma stop_process_indifferent:
  assumes "meeting_point K now st st' t_get now' us" and "vp_key (t_get, t_set, e) \<in> K"
  shows "same_effect K now' (stop_process (stop_proc (interfered_ops us)) t_get t_set st e)
    (stop_process (stop_proc InMemory_ops) t_get t_set st' e)"
  using assms(2)
  by (simp add: stop_process_def vp_key_def Let_def case_prod_beta meeting_point_laws [OF assms(1)] split: option.split)

lemma dwell_process_indifferent:
  assumes "meeting_point K now st st' t_get now' us" and "dwell_key (t_get, t_set, e) \<in> K"
  shows "same_effect K now' (dwell_process pf (interfered_ops us) t_get t_set st e)
    (dwell_process pf InMemory_ops t_get t_set st' e)"
  using assms(2)
  by (simp add: dwell_process_def dwell_key_def Let_def case_prod_beta meeting_point_laws [OF assms(1)] split: option.split)

lemma headway_process_indifferent:
  assumes "meeting_point K now st st' t_get now' us" and "headway_key (t_get, t_set, e) \<in> K"
  shows "same_effect K now' (headway_process pf (interfered_ops us) t_get t_set st e)
    (headway_process pf InMemory_ops t_get t_set st' e)"
  using assms(2)
  by (simp add: headway_process_def headway_key_def Let_def case_prod_beta meeting_point_laws [OF assms(1)] split: option.split)

lemma travel_process_indifferent:
  assumes "meeting_point K now st st' t_get now' us" and "travel_key (t_get, t_set, e) \<in> K"
  shows "same_effect K now' (travel_process pf (interfered_ops us) t_get t_set st e)
    (travel_process pf InMemory_ops t_get t_set st' e)"
  using assms(2)
  by (simp add: travel_process_def travel_key_def Let_def case_prod_beta meeting_point_laws [OF assms(1)] split: option.split)

lemmas processes_indifferent =
  stop_process_indifferent dwell_process_indifferent headway_process_indifferent travel_process_indifferent

text \<open>The key under which a processor keeps what it needs for an input, if it acts on the input at all.\<close>

definition processor_key :: "platform \<Rightarrow> Processor \<Rightarrow> Time \<times> Time \<times> go_any \<Rightarrow> string option" where
  "processor_key pf p inp =
     (case p of
        FeedMessage_processor a \<Rightarrow> None
      | VehiclePosition_processor \<Rightarrow> None
      | StopEvent_processor s \<Rightarrow> map_option vp_key (stop_decode pf inp)
      | DwellEvent_processor s \<Rightarrow> map_option dwell_key (stop_decode_input inp)
      | HeadwayEvent_processor s \<Rightarrow> map_option headway_key (stop_decode_input inp)
      | TravelTime_processor s \<Rightarrow> map_option travel_key (stop_decode_input inp))"

lemma processor_handle_indifferent:
  assumes "meeting_point K now st st' (fst i) now' us" and "set_option (processor_key pf p i) \<subseteq> K"
  shows "same_effect K now' (processor_handle pf (interfered_ops us) p st i) (processor_handle pf InMemory_ops p st' i)"
proof -
  obtain t_get t_set v where i: "i = (t_get, t_set, v)" by (cases i)
  show ?thesis
    using assms
    by (cases p)
      (auto simp: i processor_handle_def processor_key_def stop_handle_def stop_decode_def stop_decode_input_def
        dwell_handle_def headway_handle_def travel_handle_def meeting_point_laws(2)
        intro!: same_effect_map processes_indifferent split: go_any.splits event.splits option.splits)
qed

interpretation processor_store: store_client "\<lambda>ss. processor_handle pf ss p" "processor_key pf p" for pf p
  by unfold_locales (rule processor_handle_indifferent)

section \<open>The processors guarantee to leave other keys alone\<close>

text \<open>
  What a processor does to its store, by its own code: it runs over a store that also keeps a record
  of the operations.
\<close>

definition recording_ops :: "(InMemoryStateStore \<times> store_op list) StateStore" where
  "recording_ops =
     \<lparr>ss_Get = (\<lambda>now st. InMemory_Get now (fst st)),
      ss_Set = (\<lambda>now st k m ttl. let op = Op_set now k m ttl in ((apply_op (fst st) op, snd st @ [op]), None)),
      ss_Delete = (\<lambda>st k. let op = Op_delete k in (apply_op (fst st) op, snd st @ [op])),
      ss_Close = (\<lambda>st. map_option (\<lambda>s. (s, snd st)) (InMemory_Close (fst st)))\<rparr>"

definition performs :: "platform \<Rightarrow> Processor \<Rightarrow> InMemoryStateStore \<Rightarrow> Time \<times> Time \<times> go_any \<Rightarrow> store_op list" where
  "performs pf p st i = snd (fst (processor_handle pf recording_ops p (st, []) i))"

lemma recording_ops_sel [simp]:
  "ss_Get recording_ops now st = InMemory_Get now (fst st)"
  "ss_Set recording_ops now st k m ttl =
     ((fst (InMemory_Set now (fst st) k m ttl), snd st @ [Op_set now k m ttl]), None)"
  "ss_Delete recording_ops st k = (InMemory_Delete (fst st) k, snd st @ [Op_delete k])"
  by (simp_all add: recording_ops_def Let_def)

primrec op_key :: "store_op \<Rightarrow> string option" where
  "op_key (Op_sweep n) = None"
| "op_key (Op_set n k m ttl) = Some k"
| "op_key (Op_delete k) = Some k"

definition records :: "string option \<Rightarrow> InMemoryStateStore \<times> 'o list \<Rightarrow> (InMemoryStateStore \<times> store_op list) \<times> 'o list \<Rightarrow>
    InMemoryStateStore \<Rightarrow> bool" where
  "records k r r' st \<longleftrightarrow>
     snd r' = snd r \<and> fst (fst r') = fst r \<and> fst r = apply_ops st (snd (fst r')) \<and>
     list_all (\<lambda>op. op_key op \<noteq> None \<and> op_key op = k) (snd (fst r'))"

lemma records_nothing [simp]: "records k (st, os) ((st, []), os) st"
  by (simp add: records_def)

lemma records_map:
  "records k r r' st \<Longrightarrow>
   records k (case r of (s, os) \<Rightarrow> (s, map f os)) (case r' of (s, os) \<Rightarrow> (s, map f os)) st"
  by (simp add: records_def case_prod_beta)

lemma stop_process_records:
  "records (Some (vp_key (t_get, t_set, e))) (stop_process (stop_proc InMemory_ops) t_get t_set st e)
     (stop_process (stop_proc recording_ops) t_get t_set (st, []) e) st"
  by (simp add: records_def stop_process_def vp_key_def Let_def case_prod_beta split: option.split)

lemma dwell_process_records:
  "records (Some (dwell_key (t_get, t_set, e))) (dwell_process pf InMemory_ops t_get t_set st e)
     (dwell_process pf recording_ops t_get t_set (st, []) e) st"
  by (simp add: records_def dwell_process_def dwell_key_def Let_def case_prod_beta split: option.split)

lemma headway_process_records:
  "records (Some (headway_key (t_get, t_set, e))) (headway_process pf InMemory_ops t_get t_set st e)
     (headway_process pf recording_ops t_get t_set (st, []) e) st"
  by (simp add: records_def headway_process_def headway_key_def Let_def case_prod_beta split: option.split)

lemma travel_process_records:
  "records (Some (travel_key (t_get, t_set, e))) (travel_process pf InMemory_ops t_get t_set st e)
     (travel_process pf recording_ops t_get t_set (st, []) e) st"
  by (simp add: records_def travel_process_def travel_key_def Let_def case_prod_beta split: option.split)

lemmas processes_record =
  stop_process_records dwell_process_records headway_process_records travel_process_records

lemma processor_handle_records:
  "records (processor_key pf p i) (processor_handle pf InMemory_ops p st i)
     (processor_handle pf recording_ops p (st, []) i) st"
proof -
  obtain t_get t_set v where i: "i = (t_get, t_set, v)" by (cases i)
  show ?thesis
    by (cases p)
      (auto simp: i processor_handle_def processor_key_def stop_handle_def stop_decode_def
        stop_decode_input_def dwell_handle_def headway_handle_def travel_handle_def
        intro!: records_map processes_record split: go_any.splits event.splits option.splits)
qed

lemma processor_guarantee_effect:
  "fst (processor_handle pf InMemory_ops p st i) = apply_ops st (performs pf p st i)"
  using processor_handle_records [of pf p i st] by (simp add: records_def performs_def)

lemma processor_guarantee_keys:
  assumes "op \<in> set (performs pf p st i)"
  obtains k where "op_key op = Some k" "processor_key pf p i = Some k"
proof -
  have "list_all (\<lambda>op. op_key op \<noteq> None \<and> op_key op = processor_key pf p i) (performs pf p st i)"
    using processor_handle_records [of pf p i st] unfolding records_def performs_def by blast
  then have "op_key op \<noteq> None \<and> op_key op = processor_key pf p i"
    using assms unfolding list_all_iff by blast
  then show ?thesis using that by (metis option.exhaust)
qed

section \<open>When can processors share a store?\<close>

text \<open>
  The four kinds of keys join one, three, four and five ids with dashes. If no id has a dash, the
  number of dashes tells them apart.
\<close>

abbreviation dashes :: "string \<Rightarrow> nat" where
  "dashes k \<equiv> count_list k CHR ''-''"

definition processor_keys :: "Processor \<Rightarrow> string set" where
  "processor_keys p =
     (case p of
        FeedMessage_processor a \<Rightarrow> {}
      | VehiclePosition_processor \<Rightarrow> {}
      | StopEvent_processor s \<Rightarrow> {k. dashes k = 0}
      | DwellEvent_processor s \<Rightarrow> {k. dashes k = 4}
      | HeadwayEvent_processor s \<Rightarrow> {k. dashes k = 2}
      | TravelTime_processor s \<Rightarrow> {k. dashes k = 3})"

definition dash_free_ids :: "EventAttributes option \<Rightarrow> bool" where
  "dash_free_ids a \<longleftrightarrow>
     dash_free (GetAgencyId a) \<and> dash_free (GetRouteId a) \<and> dash_free (GetDirectionId a) \<and>
     dash_free (GetStopId a) \<and> dash_free (GetVehicleId a) \<and> dash_free (GetTripId a)"

definition clean_input :: "platform \<Rightarrow> Time \<times> Time \<times> go_any \<Rightarrow> bool" where
  "clean_input pf i \<longleftrightarrow>
     pred_option (\<lambda>j. dash_free_ids (VehiclePositionEvent_GetAttributes (snd (snd j)))) (stop_decode pf i) \<and>
     pred_option (\<lambda>j. dash_free_ids (input_attrs j)) (stop_decode_input i)"

lemma processor_key_dashes:
  assumes "clean_input pf i"
  shows "set_option (processor_key pf p i) \<subseteq> processor_keys p"
proof
  fix k assume "k \<in> set_option (processor_key pf p i)"
  then show "k \<in> processor_keys p"
    using assms
    by (cases p)
      (auto simp: processor_key_def processor_keys_def clean_input_def dash_free_ids_def vp_key_def dwell_key_def
        headway_key_def travel_key_def DwellStopKey_String_def NewDwellStopKey_def headwayStopKey_String_def
        tripKey_String_def count_notin Let_def
        simp del: GetAgencyId_def GetRouteId_def GetDirectionId_def GetStopId_def GetVehicleId_def GetTripId_def)
qed

lemma processor_keys_disjoint: "out_type p \<noteq> out_type q \<Longrightarrow> processor_keys p \<inter> processor_keys q = {}"
  by (auto simp: processor_keys_def out_type_def split: Processor.splits)

definition done_by_others :: "platform \<Rightarrow> Processor \<Rightarrow> store_op \<Rightarrow> bool" where
  "done_by_others pf p op \<longleftrightarrow>
     (\<exists>n. op = Op_sweep n) \<or>
     (\<exists>q st j. out_type q \<noteq> out_type p \<and> clean_input pf j \<and> op \<in> set (performs pf q st j))"

lemma done_by_others_foreign:
  assumes "done_by_others pf p op"
  shows "foreign (processor_keys p) op"
  using assms unfolding done_by_others_def
proof (elim disjE exE conjE)
  fix q st j
  assume q: "out_type q \<noteq> out_type p" "clean_input pf j" "op \<in> set (performs pf q st j)"
  then obtain k where k: "op_key op = Some k" "processor_key pf q j = Some k"
    by (blast elim: processor_guarantee_keys)
  then have "k \<notin> processor_keys p"
    using processor_key_dashes [OF q(2), of q] processor_keys_disjoint [OF q(1)] by auto
  with k(1) show ?thesis by (cases op) (simp_all add: foreign_def)
qed (simp add: foreign_def)

definition example_positions :: "(Time \<times> Time \<times> go_any) list" where
  "example_positions =
     [(0, 1, Any_VehiclePositionEvent (example_vp ''bus'' StopStatus_STOPPED_AT ''A'' 100)),
      (9, 10, Any_VehiclePositionEvent (example_vp ''bus'' StopStatus_IN_TRANSIT_TO ''B'' 200))]"

definition example_arrival :: "Time \<times> Time \<times> go_any" where
  "example_arrival = (2, 3, Any_StopEvent (example_se StopEvent_ARRIVAL ''tram'' ''A'' 100))"

abbreviation stop_processor :: Processor where
  "stop_processor \<equiv> StopEvent_processor (Configured_store ''s'')"

abbreviation dwell_processor :: Processor where
  "dwell_processor \<equiv> DwellEvent_processor (Configured_store ''s'')"

lemma example_positions_alone:
  "outputs (processor_handle reference_platform InMemory_ops stop_processor) (NewInMemoryStateStore 0) example_positions =
   [Any_StopEvent (makeStopEvent (example_vp ''bus'' StopStatus_IN_TRANSIT_TO ''B'' 200) ''A'' StopEvent_DEPARTURE)]"
  by (simp add: example_positions_def processor_handle_def stop_handle_def stop_process_def InMemory_Get_def
      InMemory_Set_def NewInMemoryStateStore_def example_vp_simps example_vp_def as_VehiclePositionEvent_def
      stop_switch_def time_Add_def time_Hour_def Let_def)

lemma example_arrival_performs:
  "performs reference_platform dwell_processor st example_arrival =
     [Op_set 3 ''MBTA-Red-A-0-tram'' (Any_StopEvent (example_se StopEvent_ARRIVAL ''tram'' ''A'' 100)) time_Hour]"
  by (simp add: performs_def example_arrival_def processor_handle_def dwell_handle_def dwell_process_def
      as_StopEvent_def example_se_def EventAttributes_zero_def DwellStopKey_String_def NewDwellStopKey_def Let_def
      case_prod_beta)

text \<open>
  Property C18. Nothing but the own keys matters: whatever others do to the store between the receptions of a
  processor, or between the \<open>Get\<close> and the \<open>Set\<close> or \<open>Delete\<close> of one of them, the processor emits
  exactly what it would emit if it had the store for itself, provided the others leave its keys alone
  except for sweeps, and the clock does not go back.
\<close>

theorem interference_unnoticed:
  assumes "undisturbed K xs" and "list_all (\<lambda>i. set_option (processor_key pf p i) \<subseteq> K) (own_inputs xs)"
  shows "interfered_run (\<lambda>ss. processor_handle pf ss p) st xs =
    outputs (processor_handle pf InMemory_ops p) st (own_inputs xs)"
  using assms by (rule processor_store.unnoticed)

theorem interference_unnoticed_witness:
  "interfered_run (\<lambda>ss. processor_handle reference_platform ss stop_processor) (NewInMemoryStateStore 0)
     [([], [Op_sweep 5, Op_set 2 ''tram'' Any_nil time_Hour], example_positions ! 0),
      ([Op_delete ''tram'', Op_sweep 8], [], example_positions ! 1)] =
   [Any_StopEvent (makeStopEvent (example_vp ''bus'' StopStatus_IN_TRANSIT_TO ''B'' 200) ''A'' StopEvent_DEPARTURE)]"
proof -
  have "[example_positions ! 0, example_positions ! 1] = example_positions" by (simp add: example_positions_def)
  then show ?thesis
    using example_positions_alone
    by (subst interference_unnoticed [where K = "{''bus''}"])
      (simp_all add: undisturbed_def foreign_def not_later_def processor_key_def stop_decode_def vp_key_def
        example_positions_def example_vp_def)
qed

text \<open>In particular the sweep alone cannot be noticed, whatever the ids.\<close>

lemma sweep_unnoticed:
  assumes "clock_monotone xs" and "list_all (\<lambda>(ts, us, i). list_all (\<lambda>op. op_key op = None) (ts @ us)) xs"
  shows "interfered_run (\<lambda>ss. processor_handle pf ss p) st xs =
    outputs (processor_handle pf InMemory_ops p) st (own_inputs xs)"
proof (rule processor_store.unnoticed)
  have "op_key op = None \<Longrightarrow> foreign UNIV op" for op by (cases op) (simp_all add: foreign_def)
  then show "undisturbed UNIV xs"
    using assms by (auto simp: undisturbed_def list_all_iff)
qed (simp add: list_all_iff)

text \<open>
  Property C17. Processors of different kinds can share a store when no id has a dash: whatever operations
  the others perform on it, and whatever sweeps run, before, between and within the receptions of
  a processor, it emits exactly what it would emit with a store of its own.
\<close>

theorem shared_store_safe:
  assumes "clock_monotone xs" and "list_all (clean_input pf) (own_inputs xs)"
    and "list_all (\<lambda>(ts, us, i). list_all (done_by_others pf p) (ts @ us)) xs"
  shows "interfered_run (\<lambda>ss. processor_handle pf ss p) st xs =
    outputs (processor_handle pf InMemory_ops p) st (own_inputs xs)"
proof (rule processor_store.unnoticed)
  show "undisturbed (processor_keys p) xs"
    using assms(1,3) done_by_others_foreign [of pf p] by (fastforce simp: undisturbed_def list_all_iff)
  show "list_all (\<lambda>i. set_option (processor_key pf p i) \<subseteq> processor_keys p) (own_inputs xs)"
    using assms(2) processor_key_dashes [of pf _ p] unfolding list_all_iff by blast
qed

theorem shared_store_safe_witness:
  "interfered_run (\<lambda>ss. processor_handle reference_platform ss stop_processor) (NewInMemoryStateStore 0)
     [([], performs reference_platform dwell_processor (NewInMemoryStateStore 0) example_arrival, example_positions ! 0),
      ([Op_sweep 8], [], example_positions ! 1)] =
   [Any_StopEvent (makeStopEvent (example_vp ''bus'' StopStatus_IN_TRANSIT_TO ''B'' 200) ''A'' StopEvent_DEPARTURE)]"
proof -
  let ?xs = "[([], performs reference_platform dwell_processor (NewInMemoryStateStore 0) example_arrival, example_positions ! 0),
      ([Op_sweep 8], [], example_positions ! 1)]"
  have clean: "clean_input reference_platform example_arrival"
    by (simp add: clean_input_def example_arrival_def stop_decode_def stop_decode_input_def as_StopEvent_def
        dash_free_ids_def example_se_def EventAttributes_zero_def)
  have "done_by_others reference_platform stop_processor op"
    if "op \<in> set (performs reference_platform dwell_processor (NewInMemoryStateStore 0) example_arrival)" for op
    unfolding done_by_others_def using clean that by (intro disjI2 exI conjI) (simp_all add: out_type_def)
  then have "list_all (\<lambda>(ts, us, i). list_all (done_by_others reference_platform stop_processor) (ts @ us)) ?xs"
    by (simp add: list_all_iff done_by_others_def)
  moreover have "clock_monotone ?xs"
    by (simp add: example_arrival_performs not_later_def example_positions_def)
  moreover have "list_all (clean_input reference_platform) (own_inputs ?xs)"
    by (simp add: clean_input_def example_positions_def stop_decode_def stop_decode_input_def as_StopEvent_def
        dash_free_ids_def example_vp_def EventAttributes_zero_def)
  ultimately have "interfered_run (\<lambda>ss. processor_handle reference_platform ss stop_processor) (NewInMemoryStateStore 0) ?xs =
      outputs (processor_handle reference_platform InMemory_ops stop_processor) (NewInMemoryStateStore 0) (own_inputs ?xs)"
    by (intro shared_store_safe)
  moreover have "own_inputs ?xs = example_positions" by (simp add: example_positions_def)
  ultimately show ?thesis by (simp only: example_positions_alone)
qed

text \<open>
  Property C39. With dashes in ids sharing is not safe: a departure that the headway processor has stored
  under a key that reads like the key of a trip is taken by the travel time processor for
  the previous arrival of that trip, and the first arrival of the trip emits a travel time from a
  stop the vehicle never was at.
\<close>

theorem shared_store_collision:
  assumes "timestamppb_spec pf" and "is_departure i" and "is_arrival j" and "headway_key i = travel_key j"
    and "whole_second i" and "whole_second j" and "input_second i < input_second j"
    and "GetStopId (input_attrs i) \<noteq> GetStopId (input_attrs j)" and "fst j \<le> time_Add (fst (snd i)) time_Hour"
  shows "map travel_sig (snd (travel_step pf InMemory_ops
      (fst (headway_step pf InMemory_ops (NewInMemoryStateStore d) i)) j)) =
    [(GetStopId (input_attrs i), GetStopId (input_attrs j), input_second j - input_second i)] \<and>
    snd (travel_step pf InMemory_ops (NewInMemoryStateStore d) j) = []"
proof -
  obtain e where e: "snd (snd i) = Some e" using input_type_Some(2) [OF assms(2)] by blast
  let ?st = "fst (InMemory_Set (fst (snd i)) (NewInMemoryStateStore d) (travel_key j) (Any_StopEvent (Some e)) time_Hour)"
  have h: "fst (headway_step pf InMemory_ops (NewInMemoryStateStore d) i) = ?st"
    using assms(2,4) by (simp add: in_memory.headway_step_departure e Let_def)
  have l: "InMemory_lookup ?st (fst j) (travel_key j) se_proto = Some (Any_StopEvent (Some e))"
    using assms(9) by (simp add: InMemory_lookup_set)
  have "snd (travel_step pf InMemory_ops ?st j) = travel_emit pf (input_attrs i) (input_attrs j)"
    using assms(3,8) l by (simp add: in_memory.travel_step_arrival Let_def e)
  moreover have "map travel_sig (travel_emit pf (input_attrs i) (input_attrs j)) =
      [(GetStopId (input_attrs i), GetStopId (input_attrs j), input_second j - input_second i)]"
    using travel_emit_sig [OF assms(1,5,6)] assms(7) by (simp add: travel_obs_def)
  moreover have "snd (travel_step pf InMemory_ops (NewInMemoryStateStore d) j) = []"
    using assms(3) by (simp add: in_memory.travel_step_arrival Let_def)
  ultimately show ?thesis by (simp only: h)
qed

text \<open>A departure from the stop \<open>tram-t9\<close>, and the first arrival of the tram on its trip \<open>t9\<close>.\<close>

definition example_arrival_on :: "string \<Rightarrow> string \<Rightarrow> string \<Rightarrow> int64 \<Rightarrow> StopEvent option" where
  "example_arrival_on v trip stop sec =
     Some \<lparr>se_Attributes = Some (EventAttributes_zero
             \<lparr>RouteId := ''Red'', DirectionId := ''0'', TripId := trip, VehicleId := v, StopId := stop,
              Timestamp := unix_ts sec\<rparr>), se_StopEventType = StopEvent_ARRIVAL\<rparr>"

theorem shared_store_collision_witness:
  "map travel_sig (snd (travel_step reference_platform InMemory_ops (fst (headway_step reference_platform InMemory_ops
      (NewInMemoryStateStore 0) (0, 1, example_se StopEvent_DEPARTURE ''bus'' ''tram-t9'' 100)))
      (2, 3, example_arrival_on ''tram'' ''t9'' ''B'' 160))) = [(''tram-t9'', ''B'', 60)]"
  using shared_store_collision [of reference_platform "(0, 1, example_se StopEvent_DEPARTURE ''bus'' ''tram-t9'' 100)"
      "(2, 3, example_arrival_on ''tram'' ''t9'' ''B'' 160)" 0]
  by (simp add: example_se_simps example_arrival_on_def headway_key_def headwayStopKey_String_def travel_key_def
      tripKey_String_def)

end
