(* ===== verification/Main_Program.thy ===== *)
theory Main_Program
  imports Graph
begin

text \<open>
  The process: \<open>ReadConfig\<close> of \<open>src/config/config.go\<close> and \<open>main\<close> of \<open>src/main.go\<close>.

  \<^item> The operating system, the YAML decoder and the log exporter are fields of \<open>process_env\<close>.
  \<^item> \<open>main_start\<close> is \<open>main\<close> up to \<open>go graph.Run()\<close>: it exits with status 1, panics, or goes on with a graph.
  \<^item> \<open>process_step\<close> is the rest: \<open>main\<close> waits for a signal, cancels the context, closes the graph and
    returns, which ends the process; meanwhile the goroutine of a database sink goes through
    the outcomes of its \<open>select\<close>, at its own pace.
\<close>

section \<open>Reading the configuration\<close>

record process_env =
  os_Getenv :: "string \<Rightarrow> string"
  os_Args :: "string list"
  os_ReadFile :: "string \<Rightarrow> string + bytes"
  yaml_Unmarshal :: "bytes \<Rightarrow> string + GraphConfig option"
  otlploghttp_New :: "string \<Rightarrow> string option"

record Config =
  cfg_Graph :: "GraphConfig option"

datatype read_error = File_error string | Yaml_error string | Validation_error config_error

definition ReadConfig :: "process_env \<Rightarrow> string \<Rightarrow> read_error + Config" where
  "ReadConfig env path =
     (case os_ReadFile env path of
        Inl err \<Rightarrow> Inl (File_error err)
      | Inr yamlFile \<Rightarrow>
          (case yaml_Unmarshal env yamlFile of
             Inl err \<Rightarrow> Inl (Yaml_error err)
           | Inr graph \<Rightarrow>
               (case graph of
                  None \<Rightarrow> Inr \<lparr>cfg_Graph = graph\<rparr>
                | Some g \<Rightarrow>
                    (case Validate g of
                       Some err \<Rightarrow> Inl (Validation_error err)
                     | None \<Rightarrow> Inr \<lparr>cfg_Graph = graph\<rparr>))))"

definition defaultConfigPath :: string where
  "defaultConfigPath = ''./config/configs/default.yaml''"

definition configPath :: "process_env \<Rightarrow> string" where
  "configPath env =
     (let path = (if length (os_Args env) > 1 then os_Args env ! 1 else defaultConfigPath);
          envPath = os_Getenv env ''CONFIG_PATH''
      in if envPath \<noteq> [] then envPath else path)"

section \<open>Starting\<close>

datatype exit_reason =
    Exporter_failed string
  | Config_failed read_error
  | Graph_nil
  | Graph_failed graph_error

datatype main_result = Exit_1 exit_reason | Main_panics | Started Graph

definition main_start :: "process_env \<Rightarrow> sink_env \<Rightarrow> main_result" where
  "main_start env senv =
     (let logURL = os_Getenv env ''OTEL_EXPORTER_OTLP_ENDPOINT''
      in case (if logURL \<noteq> [] then otlploghttp_New env logURL else None) of
           Some err \<Rightarrow> Exit_1 (Exporter_failed err)
         | None \<Rightarrow>
             (case ReadConfig env (configPath env) of
                Inl err \<Rightarrow> Exit_1 (Config_failed err)
              | Inr cfg \<Rightarrow>
                  (case cfg_Graph cfg of
                     None \<Rightarrow> Exit_1 Graph_nil
                   | Some graphConfig \<Rightarrow>
                       (case NewGraph senv graphConfig [] of
                          Fails err \<Rightarrow> Exit_1 (Graph_failed err)
                        | Panics \<Rightarrow> Main_panics
                        | Built graph \<Rightarrow> Started graph))))"

section \<open>Shutting down\<close>

datatype main_pc =
    Awaiting_signal \<comment> \<open>\<open><-sigChan\<close>\<close>
  | Cancelling \<comment> \<open>before \<open>cancel()\<close>\<close>
  | Closing \<comment> \<open>before \<open>graph.Close()\<close>\<close>
  | Leaving \<comment> \<open>before the end of \<open>main\<close>\<close>
  | Exited
  | Crashed

text \<open>
  The process, with the outcomes the \<open>select\<close> of one database sink has had so far; what the
  sink executed is \<open>db_doSink\<close> of these.
\<close>

record process =
  pr_main :: main_pc
  pr_cancelled :: bool
  pr_graph :: Graph
  pr_sink :: "sink_select list"

definition running :: "process \<Rightarrow> bool" where
  "running p \<longleftrightarrow> pr_main p \<noteq> Exited \<and> pr_main p \<noteq> Crashed"

inductive process_step :: "platform \<Rightarrow> DatabaseSink \<Rightarrow> process \<Rightarrow> process \<Rightarrow> bool" for pf s where
  signal: "pr_main p = Awaiting_signal \<Longrightarrow> process_step pf s p (p\<lparr>pr_main := Cancelling\<rparr>)"
| cancel: "pr_main p = Cancelling \<Longrightarrow>
    process_step pf s p (p\<lparr>pr_main := Closing, pr_cancelled := True\<rparr>)"
| close: "pr_main p = Closing \<Longrightarrow> Graph_Close (pr_graph p) = Some g \<Longrightarrow>
    process_step pf s p (p\<lparr>pr_main := Leaving, pr_graph := g\<rparr>)"
| close_panic: "pr_main p = Closing \<Longrightarrow> Graph_Close (pr_graph p) = None \<Longrightarrow>
    process_step pf s p (p\<lparr>pr_main := Crashed\<rparr>)"
| leave: "pr_main p = Leaving \<Longrightarrow> process_step pf s p (p\<lparr>pr_main := Exited\<rparr>)"
| sink: "running p \<Longrightarrow> \<not> snd (db_doSink pf s [] (pr_sink p)) \<Longrightarrow> (c = SinkDone \<Longrightarrow> pr_cancelled p) \<Longrightarrow>
    process_step pf s p (p\<lparr>pr_sink := pr_sink p @ [c]\<rparr>)"

abbreviation process_run :: "platform \<Rightarrow> DatabaseSink \<Rightarrow> process \<Rightarrow> process \<Rightarrow> bool" where
  "process_run pf s \<equiv> (process_step pf s)\<^sup>*\<^sup>*"

definition new_process :: "Graph \<Rightarrow> process" where
  "new_process g = \<lparr>pr_main = Awaiting_signal, pr_cancelled = False, pr_graph = g, pr_sink = []\<rparr>"

section \<open>Properties\<close>

lemma build_all_each:
  "build_all build cs = Inr vs \<Longrightarrow> list_all2 (\<lambda>(i, c) (j, v). i = j \<and> build i c = Inr v) cs vs"
  by (induction build cs arbitrary: vs rule: build_all.induct) (auto split: sum.splits)

lemma collect_length: "collect m e ks = Inr vs \<Longrightarrow> length vs = length ks"
  by (induction m e ks arbitrary: vs rule: collect.induct) (auto split: option.splits sum.splits)

lemma NewPipeline_complete:
  assumes "NewPipeline p srcs snks stores = Inr q" and "wired cfg p"
  shows "pip_processor q \<noteq> None \<and> pip_sources q \<noteq> [] \<and> pip_sinks q \<noteq> []"
  using assms collect_length [of srcs] collect_length [of snks] NewProcessor_valid
  by (fastforce simp: NewPipeline_def wired_def Let_def split: sum.splits)

lemma set_up_connectors_pipelines:
  "set_up_connectors cids conns cfg = Some (conns', cfg') \<Longrightarrow> gc_Pipelines cfg' = gc_Pipelines cfg"
  by (induction cids conns cfg rule: set_up_connectors.induct) (auto split: option.splits)

definition pipeline_complete :: "Pipeline \<Rightarrow> bool" where
  "pipeline_complete p \<longleftrightarrow> pip_processor p \<noteq> None \<and> pip_sources p \<noteq> [] \<and> pip_sinks p \<noteq> []"

lemma build_all_complete:
  assumes "build_all (\<lambda>i c. map_sum (f c) id (NewPipeline c srcs snks stores)) ps = Inr qs"
    and "list_all (\<lambda>(i, p). wired cfg p) ps"
  shows "list_all (pipeline_complete \<circ> snd) qs"
  using build_all_each [OF assms(1)] assms(2)
proof (induction rule: list_all2_induct)
  case (Cons x xs y ys)
  then show ?case
    using NewPipeline_complete [of "snd x" srcs snks stores "snd y" cfg]
    by (cases "NewPipeline (snd x) srcs snks stores") (auto simp: pipeline_complete_def)
qed simp

lemma NewGraph_complete:
  assumes "NewGraph senv cfg [] = Built g" and "Validate cfg = None"
  shows "list_all pipeline_complete (gr_pipelines g)"
proof -
  obtain conns cfg' srcs snks stores qs where c:
    "set_up_connectors (map_keys (gc_Connectors cfg)) Map.empty cfg = Some (conns, cfg')"
    "build_all (\<lambda>i c. map_sum (Pipeline_error (pl_ID c)) id (NewPipeline c srcs snks stores))
      (entries (gc_Pipelines cfg')) = Inr qs"
    "gr_pipelines g = map snd qs"
    using assms(1) unfolding NewGraph_def
    by (auto simp: Let_def simp del: entries_def map_keys_def split: option.splits sum.splits prod.splits)
  have "list_all (\<lambda>(i, p). wired cfg p) (entries (gc_Pipelines cfg'))"
    using assms(2) set_up_connectors_pipelines [OF c(1)] unfolding Validate_None by simp
  then have "list_all (pipeline_complete \<circ> snd) qs" by (rule build_all_complete [OF c(2)])
  then show ?thesis by (simp add: c(3) list_all_iff)
qed

lemma main_started:
  assumes "main_start env senv = Started g"
  shows "\<exists>file cfg. os_ReadFile env (configPath env) = Inr file \<and> yaml_Unmarshal env file = Inr (Some cfg) \<and>
    Validate cfg = None \<and> NewGraph senv cfg [] = Built g"
  using assms
  by (auto simp: main_start_def ReadConfig_def Let_def split: option.splits sum.splits outcome.splits if_splits)

text \<open>
  Property C28. The program never runs an invalid configuration: when \<open>main\<close> gets as far as running a
  graph, the file at the configured path was read and decoded, its graph passed the validation,
  and every pipeline of the running graph has a processor.
\<close>

theorem main_runs_only_valid:
  assumes "main_start env senv = Started g"
  shows "\<exists>file cfg. os_ReadFile env (configPath env) = Inr file \<and> yaml_Unmarshal env file = Inr (Some cfg) \<and>
    Validate cfg = None \<and> NewGraph senv cfg [] = Built g \<and> list_all pipeline_complete (gr_pipelines g)"
  using main_started [OF assms] NewGraph_complete by blast

definition example_process :: process_env where
  "example_process =
     \<lparr>os_Getenv = (\<lambda>_. []), os_Args = [''tpm-go'', ''tpm.yaml''],
      os_ReadFile = (\<lambda>path. if path = ''tpm.yaml'' then Inr [1] else Inl ''no such file''),
      yaml_Unmarshal = (\<lambda>b. Inr (Some (example_graph (Some []) (Some [])))),
      otlploghttp_New = (\<lambda>_. None)\<rparr>"

lemma example_process_config:
  "ReadConfig example_process (configPath example_process) = Inr \<lparr>cfg_Graph = Some (example_graph (Some []) (Some []))\<rparr>"
proof -
  have "Validate (example_graph (Some []) (Some [])) = None" by (simp add: example_graph_valid)
  then show ?thesis by (simp add: ReadConfig_def configPath_def example_process_def)
qed

lemma example_process_starts:
  "\<exists>g. main_start example_process example_env = Started g \<and> length (gr_pipelines g) = 1"
proof -
  have "\<exists>g. NewGraph example_env (example_graph (Some []) (Some [])) [] = Built g \<and> length (gr_pipelines g) = 1"
    by (simp add: NewGraph_def example_graph_def NewPipeline_def connector_source_def connector_sink_def
        SourceConfig_zero_def SinkConfig_zero_def NewSource_def NewSink_def NewConnectorSource_def
        NewConnectorSink_def SourceType_defs SinkType_defs Let_def)
  then show ?thesis
    using example_process_config by (auto simp: main_start_def example_process_def)
qed

theorem main_runs_only_valid_witness:
  "\<exists>g. main_start example_process example_env = Started g \<and> list_all pipeline_complete (gr_pipelines g)"
  using example_process_starts main_runs_only_valid [of example_process example_env] by blast

lemma main_started_closes:
  assumes "main_start env senv = Started g"
  shows "\<exists>g'. Graph_Close g = Some g' \<and> list_all (\<lambda>(i, s). store_closed s) (gr_stateStores g')"
proof -
  obtain cfg where "NewGraph senv cfg [] = Built g" using main_started [OF assms] by blast
  then obtain cs where "gr_stateStores g = map (\<lambda>(i, c). (i, NewStateStore c)) cs"
    using NewGraph_stores by blast
  then show ?thesis using close_new_stores [of cs] by (auto simp: Graph_Close_def)
qed

text \<open>The phases of the shutdown.\<close>

definition shutdown_inv :: "Graph \<Rightarrow> process \<Rightarrow> bool" where
  "shutdown_inv g p \<longleftrightarrow> pr_main p \<noteq> Crashed \<and>
     (pr_main p \<in> {Awaiting_signal, Cancelling, Closing} \<longrightarrow> pr_graph p = g) \<and>
     (pr_main p \<in> {Closing, Leaving, Exited} \<longrightarrow> pr_cancelled p) \<and>
     (pr_main p \<in> {Leaving, Exited} \<longrightarrow> list_all (\<lambda>(i, s). store_closed s) (gr_stateStores (pr_graph p))) \<and>
     (SinkDone \<in> set (pr_sink p) \<longrightarrow> pr_cancelled p)"

lemma shutdown_inv_step:
  assumes "Graph_Close g = Some g'" and "list_all (\<lambda>(i, s). store_closed s) (gr_stateStores g')"
    and "process_step pf s p p'" and "shutdown_inv g p"
  shows "shutdown_inv g p'"
  using assms(3)
  by (cases rule: process_step.cases) (use assms in \<open>auto simp: shutdown_inv_def\<close>)


lemma sink_receives:
  assumes "running p" and "\<And>vs' vs''. vs = vs' @ vs'' \<Longrightarrow> vs'' \<noteq> [] \<Longrightarrow>
      \<not> snd (db_doSink pf s [] (pr_sink p @ map SinkRecv vs'))"
  shows "process_run pf s p (p\<lparr>pr_sink := pr_sink p @ map SinkRecv vs\<rparr>)"
  using assms
proof (induction vs rule: rev_induct)
  case (snoc v vs)
  have "process_run pf s p (p\<lparr>pr_sink := pr_sink p @ map SinkRecv vs\<rparr>)"
  proof (rule snoc.IH)
    fix vs' vs''
    assume "vs = vs' @ vs''" "vs'' \<noteq> []"
    then show "\<not> snd (db_doSink pf s [] (pr_sink p @ map SinkRecv vs'))"
      by (intro snoc.prems(2) [of vs' "vs'' @ [v]"]) simp_all
  qed (rule snoc.prems(1))
  moreover have "process_step pf s (p\<lparr>pr_sink := pr_sink p @ map SinkRecv vs\<rparr>)
      (p\<lparr>pr_sink := pr_sink p @ map SinkRecv (vs @ [v])\<rparr>)"
    using process_step.sink [of "p\<lparr>pr_sink := pr_sink p @ map SinkRecv vs\<rparr>" pf s "SinkRecv v"]
      snoc.prems(1) snoc.prems(2) [of vs "[v]"] by (simp add: running_def)
  ultimately show ?case by (rule rtranclp.rtrancl_into_rtrancl)
qed simp

lemma db_pending:
  "int (length batch + length vs) < dbs_maxBatchSize s \<Longrightarrow>
   db_doSink pf s batch (map (\<lambda>e. SinkRecv (Any_event e)) vs) = ([], False)"
  by (induction vs arbitrary: batch) (auto simp: as_Event_def Let_def)

lemma main_leaves:
  assumes "Graph_Close (pr_graph p) = Some g" and "pr_main p = Awaiting_signal"
  shows "process_run pf s p (p\<lparr>pr_main := Exited, pr_cancelled := True, pr_graph := g\<rparr>)"
proof -
  let ?p1 = "p\<lparr>pr_main := Cancelling\<rparr>"
  let ?p2 = "?p1\<lparr>pr_main := Closing, pr_cancelled := True\<rparr>"
  let ?p3 = "?p2\<lparr>pr_main := Leaving, pr_graph := g\<rparr>"
  have "process_step pf s p ?p1" using assms(2) by (rule process_step.signal)
  moreover have "process_step pf s ?p1 ?p2" by (rule process_step.cancel) simp
  moreover have "process_step pf s ?p2 ?p3" using assms(1) by (intro process_step.close) simp_all
  moreover have "process_step pf s ?p3 (?p3\<lparr>pr_main := Exited\<rparr>)" by (rule process_step.leave) simp
  ultimately have "process_run pf s p (?p3\<lparr>pr_main := Exited\<rparr>)"
    by (meson converse_rtranclp_into_rtranclp rtranclp.rtrancl_refl)
  moreover have "?p3\<lparr>pr_main := Exited\<rparr> = p\<lparr>pr_main := Exited, pr_cancelled := True, pr_graph := g\<rparr>"
    by simp
  ultimately show ?thesis by (simp only:)
qed

text \<open>
  Property C31. The shutdown does not wait for the sinks: whatever fewer events than its batch limit a database
  sink has received, there is a run in which the process exits normally and none of them was
  written, although the sink flushes its batch when it sees the end of the context.
\<close>

theorem shutdown_may_lose_batch:
  assumes "main_start env senv = Started g" and "int (length vs) < dbs_maxBatchSize s"
  shows "\<exists>p. process_run pf s (new_process g) p \<and> pr_main p = Exited \<and>
    pr_sink p = map (\<lambda>e. SinkRecv (Any_event e)) vs \<and> fst (db_doSink pf s [] (pr_sink p)) = []"
proof -
  obtain g' where g': "Graph_Close g = Some g'"
    using main_started_closes [OF assms(1)] by blast
  let ?p = "(new_process g)\<lparr>pr_sink := map (\<lambda>e. SinkRecv (Any_event e)) vs\<rparr>"
  have "process_run pf s (new_process g)
      ((new_process g)\<lparr>pr_sink := pr_sink (new_process g) @ map SinkRecv (map Any_event vs)\<rparr>)"
  proof (rule sink_receives)
    fix vs' vs''
    assume "map Any_event vs = vs' @ vs''"
    then obtain us ws where "vs = us @ ws" "vs' = map Any_event us" by (auto simp: map_eq_append_conv)
    then show "\<not> snd (db_doSink pf s [] (pr_sink (new_process g) @ map SinkRecv vs'))"
      using db_pending [of "[]" us s pf] assms(2) by (simp add: new_process_def comp_def)
  qed (simp add: running_def new_process_def)
  then have "process_run pf s (new_process g) ?p" by (simp add: new_process_def comp_def)
  moreover have "process_run pf s ?p (?p\<lparr>pr_main := Exited, pr_cancelled := True, pr_graph := g'\<rparr>)"
    using g' by (intro main_leaves) (simp_all add: new_process_def)
  ultimately have "process_run pf s (new_process g) (?p\<lparr>pr_main := Exited, pr_cancelled := True, pr_graph := g'\<rparr>)"
    by (rule rtranclp_trans)
  then show ?thesis
    using db_pending [of "[]" vs s pf] assms(2)
    by (intro exI [of _ "?p\<lparr>pr_main := Exited, pr_cancelled := True, pr_graph := g'\<rparr>"]) simp
qed

definition example_db :: DatabaseSink where
  "example_db = \<lparr>dbs_driver = ''postgres'', dbs_dsn = ''dsn'', dbs_maxBatchSize = 100, dbs_flushInterval = time_Second\<rparr>"

theorem shutdown_may_lose_batch_witness:
  "\<exists>g p. main_start example_process example_env = Started g \<and>
     process_run reference_platform example_db (new_process g) p \<and> pr_main p = Exited \<and>
     pr_sink p = [SinkRecv (Any_event (Stop_event None))] \<and>
     fst (db_doSink reference_platform example_db [] (pr_sink p)) = []"
proof -
  obtain g where g: "main_start example_process example_env = Started g" using example_process_starts by blast
  have "int (length [Stop_event None]) < dbs_maxBatchSize example_db" by (simp add: example_db_def)
  from shutdown_may_lose_batch [OF g this, of reference_platform] g show ?thesis by auto
qed


end
