(* ===== verification/Url_Query.thy ===== *)
theory Url_Query
  imports Go_Prelude
begin

text \<open>
  The query string of a request, as \<open>r.URL.Query()\<close> of Go's package \<open>net/url\<close> reads it for the
  handler of \<open>src/event_server/event_server.go\<close>: pairs separated by \<open>&\<close>, percent-encoded bytes and
  \<open>+\<close> for a space; pairs with a semicolon or a malformed escape are dropped. The handler keeps the first value of each key.
  The main lemma is that every list of pairs can be written as a query that is read back.
\<close>

section \<open>Characters\<close>

abbreviation byte :: "char \<Rightarrow> nat" where
  "byte c \<equiv> of_char c"

definition ishex :: "char \<Rightarrow> bool" where
  "ishex c \<longleftrightarrow> 48 \<le> byte c \<and> byte c \<le> 57 \<or> 97 \<le> byte c \<and> byte c \<le> 102 \<or> 65 \<le> byte c \<and> byte c \<le> 70"

definition unhex :: "char \<Rightarrow> nat" where
  "unhex c =
     (if 48 \<le> byte c \<and> byte c \<le> 57 then byte c - 48
      else if 97 \<le> byte c \<and> byte c \<le> 102 then byte c - 87
      else if 65 \<le> byte c \<and> byte c \<le> 70 then byte c - 55
      else 0)"

definition upper_hex :: "nat \<Rightarrow> char" where
  "upper_hex n = (if n < 10 then char_of (48 + n) else char_of (55 + n))"

lemma upper_hex: "n < 16 \<Longrightarrow> ishex (upper_hex n) \<and> unhex (upper_hex n) = n"
  by (auto simp: upper_hex_def ishex_def unhex_def)

section \<open>Reading a query\<close>

text \<open>\<open>strings.Cut\<close> at a character; without it, everything is before the cut.\<close>

fun strings_Cut :: "char \<Rightarrow> string \<Rightarrow> string \<times> string" where
  "strings_Cut sep [] = ([], [])"
| "strings_Cut sep (c # s) =
     (if c = sep then ([], s) else (let (before, after) = strings_Cut sep s in (c # before, after)))"

lemma strings_Cut_length: "length (snd (strings_Cut sep s)) \<le> length s"
  by (induction s) (auto simp: Let_def case_prod_beta)

lemma strings_Cut_shorter: "strings_Cut sep s = (a, b) \<Longrightarrow> s \<noteq> [] \<Longrightarrow> length b < length s"
  using strings_Cut_length [of sep "tl s"]
  by (cases s) (auto simp: Let_def case_prod_beta less_Suc_eq_le split: if_splits)

fun QueryUnescape :: "string \<Rightarrow> string option" where
  "QueryUnescape [] = Some []"
| "QueryUnescape (c # s) =
     (if c = CHR ''%'' then
        (case s of
           a # b # r \<Rightarrow>
             if ishex a \<and> ishex b
             then map_option (\<lambda>t. char_of (16 * unhex a + unhex b) # t) (QueryUnescape r)
             else None
         | _ \<Rightarrow> None)
      else map_option (\<lambda>t. (if c = CHR ''+'' then CHR '' '' else c) # t) (QueryUnescape s))"

text \<open>The pairs in the order in which they are appended to the lists of values.\<close>

function parseQuery :: "string \<Rightarrow> (string \<times> string) list" where
  "parseQuery query =
     (if query = [] then []
      else
        let (key, query') = strings_Cut CHR ''&'' query
        in if CHR '';'' \<in> set key then parseQuery query'
           else if key = [] then parseQuery query'
           else
             let (k, v) = strings_Cut CHR ''='' key
             in case QueryUnescape k of
                  None \<Rightarrow> parseQuery query'
                | Some k' \<Rightarrow>
                    (case QueryUnescape v of
                       None \<Rightarrow> parseQuery query'
                     | Some v' \<Rightarrow> (k', v') # parseQuery query'))"
  by pat_completeness auto
termination
  by (relation "measure length") (auto dest!: sym [of "(_, _)"] intro: strings_Cut_shorter)

declare parseQuery.simps [simp del]

text \<open>\<open>for k, v := range Query() { subscription[k] = v[0] }\<close>\<close>

fun first_values :: "(string \<times> string) list \<Rightarrow> (string \<times> string) list" where
  "first_values [] = []"
| "first_values ((k, v) # kvs) = (k, v) # filter (\<lambda>p. fst p \<noteq> k) (first_values kvs)"

definition query_subscription :: "string \<Rightarrow> (string \<times> string) list" where
  "query_subscription query = first_values (parseQuery query)"

section \<open>Writing a query\<close>

text \<open>Every byte percent-encoded, which RFC 3986 allows.\<close>

definition percent :: "char \<Rightarrow> string" where
  "percent c = [CHR ''%'', upper_hex (byte c div 16), upper_hex (byte c mod 16)]"

definition escape_all :: "string \<Rightarrow> string" where
  "escape_all s = concat (map percent s)"

fun write_query :: "(string \<times> string) list \<Rightarrow> string" where
  "write_query [] = []"
| "write_query [(k, v)] = escape_all k @ ''='' @ escape_all v"
| "write_query ((k, v) # kvs) = escape_all k @ ''='' @ escape_all v @ ''&'' @ write_query kvs"

section \<open>Properties\<close>

lemma byte_split: "byte c div 16 < 16" "char_of (16 * (byte c div 16) + byte c mod 16) = c"
  by (simp_all add: less_mult_imp_div_less)

lemma QueryUnescape_escape_all: "QueryUnescape (escape_all s) = Some s"
proof (induction s)
  case (Cons c s)
  then show ?case
    using upper_hex [of "byte c div 16"] upper_hex [of "byte c mod 16"] byte_split [of c]
    by (simp add: escape_all_def percent_def)
qed (simp add: escape_all_def)

lemma upper_hex_plain: "n < 16 \<Longrightarrow> upper_hex n \<notin> {CHR ''&'', CHR '';'', CHR ''=''}"
proof -
  assume "n < 16"
  then have "ishex (upper_hex n)" using upper_hex by blast
  then show ?thesis by (auto simp: ishex_def)
qed

lemma escape_all_plain: "set (escape_all s) \<inter> {CHR ''&'', CHR '';'', CHR ''=''} = {}"
proof (induction s)
  case (Cons c s)
  then show ?case
    using upper_hex_plain [OF byte_split(1) [of c]] upper_hex_plain [of "byte c mod 16"]
    by (auto simp: escape_all_def percent_def)
qed (simp add: escape_all_def)

lemma strings_Cut_at: "sep \<notin> set s \<Longrightarrow> strings_Cut sep (s @ sep # t) = (s, t)"
  by (induction s) auto

lemma strings_Cut_none: "sep \<notin> set s \<Longrightarrow> strings_Cut sep s = (s, [])"
  by (induction s) auto

lemma parseQuery_pair:
  assumes "strings_Cut CHR ''&'' query = (escape_all k @ ''='' @ escape_all v, rest)" and "query \<noteq> []"
  shows "parseQuery query = (k, v) # parseQuery rest"
proof -
  have "CHR '';'' \<notin> set (escape_all k @ ''='' @ escape_all v)"
    using escape_all_plain [of k] escape_all_plain [of v] by auto
  moreover have "strings_Cut CHR ''='' (escape_all k @ ''='' @ escape_all v) = (escape_all k, escape_all v)"
    using escape_all_plain [of k] by (simp add: strings_Cut_at)
  ultimately show ?thesis
    using assms by (subst parseQuery.simps) (simp add: QueryUnescape_escape_all)
qed

lemma parseQuery_write: "parseQuery (write_query kvs) = kvs"
proof (induction kvs rule: write_query.induct)
  case 1
  show ?case by (simp add: parseQuery.simps)
next
  case (2 k v)
  have "CHR ''&'' \<notin> set (escape_all k @ ''='' @ escape_all v)"
    using escape_all_plain [of k] escape_all_plain [of v] by auto
  from strings_Cut_none [OF this] show ?case
    using parseQuery_pair [of "write_query [(k, v)]" k v "[]"] by (simp add: parseQuery.simps [of "[]"])
next
  case (3 k v p kvs)
  have "CHR ''&'' \<notin> set (escape_all k @ ''='' @ escape_all v)"
    using escape_all_plain [of k] escape_all_plain [of v] by auto
  from strings_Cut_at [OF this] show ?case
    using parseQuery_pair [of "write_query ((k, v) # p # kvs)" k v "write_query (p # kvs)"] 3 by simp
qed

lemma map_of_first_values: "map_of (first_values kvs) = map_of kvs"
proof (induction kvs)
  case (Cons p kvs)
  have "map_of (filter (\<lambda>p. fst p \<noteq> k) xs) j = (if j = k then None else map_of xs j)" for k j :: string and xs :: "(string \<times> string) list"
    by (induction xs) auto
  with Cons show ?case by (cases p) auto
qed simp

lemma distinct_first_values: "distinct (map fst (first_values kvs))"
  by (induction kvs rule: first_values.induct) (auto simp: distinct_map_filter)

text \<open>
  Property C26. Every filter can be subscribed to: any list of pairs, whatever bytes it contains, can be written
  as a query string from which the handler reads exactly these filters, with the first value
  of a key that occurs more than once, each key once.
\<close>

theorem query_roundtrip:
  "map_of (query_subscription (write_query kvs)) = map_of kvs \<and>
   distinct (map fst (query_subscription (write_query kvs)))"
  by (simp add: query_subscription_def parseQuery_write map_of_first_values distinct_first_values)

end
