(* ===== verification/Json.thy ===== *)
theory Json
  imports Event_Map Url_Query
begin

text \<open>
  What \<open>json.Marshal\<close> writes for the map of an event, in the handler of
  \<open>src/event_server/event_server.go\<close>: Go's encoding of strings, with UTF-8 validation and the escaping of
  HTML characters, of integers, times and maps with sorted keys. How a finite float is written is a
  parameter; an infinite one or a NaN is an error, as is a year beyond 9999.

  \<open>json_read\<close> is an independent reader of string literals; on valid UTF-8 it reads back what was
  written.
\<close>

section \<open>UTF-8\<close>

definition byte_in :: "nat \<Rightarrow> nat \<Rightarrow> char \<Rightarrow> bool" where
  "byte_in lo hi c \<longleftrightarrow> lo \<le> byte c \<and> byte c \<le> hi"

text \<open>
  \<open>utf8.DecodeRune\<close> at a byte from 128 up: the bytes of the rune and the rest; \<open>None\<close> is an invalid
  encoding, of which the first byte is consumed.
\<close>

definition DecodeRune :: "string \<Rightarrow> (string \<times> string) option" where
  "DecodeRune s =
     (case s of
        a # b # r \<Rightarrow>
          if byte_in 194 223 a \<and> byte_in 128 191 b then Some ([a, b], r)
          else (case r of
            c # r' \<Rightarrow>
              if byte_in 224 239 a \<and> byte_in (if byte a = 224 then 160 else 128) (if byte a = 237 then 159 else 191) b \<and>
                 byte_in 128 191 c
              then Some ([a, b, c], r')
              else (case r' of
                d # r'' \<Rightarrow>
                  if byte_in 240 244 a \<and> byte_in (if byte a = 240 then 144 else 128) (if byte a = 244 then 143 else 191) b \<and>
                     byte_in 128 191 c \<and> byte_in 128 191 d
                  then Some ([a, b, c, d], r'')
                  else None
              | [] \<Rightarrow> None)
          | [] \<Rightarrow> None)
      | _ \<Rightarrow> None)"

lemma DecodeRune_split:
  assumes "DecodeRune s = Some (cs, r)"
  shows "s = cs @ r \<and> cs \<noteq> [] \<and> list_all (\<lambda>c. 128 \<le> byte c) cs"
  using assms by (auto simp: DecodeRune_def byte_in_def split: list.splits if_splits)

lemma DecodeRune_length: "DecodeRune s = Some (cs, r) \<Longrightarrow> length r < length s"
  by (auto dest!: DecodeRune_split)

function valid_utf8 :: "string \<Rightarrow> bool" where
  "valid_utf8 s =
     (case s of
        [] \<Rightarrow> True
      | a # t \<Rightarrow>
          if byte a < 128 then valid_utf8 t
          else (case DecodeRune s of None \<Rightarrow> False | Some (cs, r) \<Rightarrow> valid_utf8 r))"
  by pat_completeness auto
termination
  by (relation "measure length") (auto dest: DecodeRune_length)

section \<open>Strings\<close>

abbreviation backslash :: char where "backslash \<equiv> CHR 0x5C"
abbreviation quote :: char where "quote \<equiv> CHR 0x22"

definition hex_char :: "nat \<Rightarrow> char" where
  "hex_char n = (if n < 10 then char_of (48 + n) else char_of (87 + n))"

definition htmlSafe :: "char \<Rightarrow> bool" where
  "htmlSafe c \<longleftrightarrow> 32 \<le> byte c \<and> c \<notin> {quote, CHR ''&'', CHR ''<'', CHR ''>'', backslash}"

text \<open>The encoding of one byte below 128.\<close>

definition json_ascii :: "char \<Rightarrow> string" where
  "json_ascii b =
     (if htmlSafe b then [b]
      else if b = backslash \<or> b = quote then [backslash, b]
      else if b = CHR 0x08 then [backslash, CHR ''b'']
      else if b = CHR 0x0C then [backslash, CHR ''f'']
      else if b = CHR 0x0A then [backslash, CHR ''n'']
      else if b = CHR 0x0D then [backslash, CHR ''r'']
      else if b = CHR 0x09 then [backslash, CHR ''t'']
      else [backslash, CHR ''u'', CHR ''0'', CHR ''0'', hex_char (byte b div 16), hex_char (byte b mod 16)])"

text \<open>The encoding of a valid rune of several bytes: the two line separators are escaped.\<close>

definition json_rune :: "string \<Rightarrow> string" where
  "json_rune cs =
     (if cs = [CHR 0xE2, CHR 0x80, CHR 0xA8] then backslash # ''u2028''
      else if cs = [CHR 0xE2, CHR 0x80, CHR 0xA9] then backslash # ''u2029''
      else cs)"

function json_body :: "string \<Rightarrow> string" where
  "json_body s =
     (case s of
        [] \<Rightarrow> []
      | b # t \<Rightarrow>
          if byte b < 128 then json_ascii b @ json_body t
          else (case DecodeRune s of
            None \<Rightarrow> backslash # ''ufffd'' @ json_body t
          | Some (cs, r) \<Rightarrow> json_rune cs @ json_body r))"
  by pat_completeness auto
termination
  by (relation "measure length") (auto dest: DecodeRune_length)

declare valid_utf8.simps [simp del] json_body.simps [simp del]

lemma valid_utf8_simps [simp]:
  "valid_utf8 []"
  "valid_utf8 (b # t) =
     (if byte b < 128 then valid_utf8 t
      else (case DecodeRune (b # t) of None \<Rightarrow> False | Some (cs, r) \<Rightarrow> valid_utf8 r))"
  by (subst valid_utf8.simps; simp)+

lemma json_body_simps [simp]:
  "json_body [] = []"
  "json_body (b # t) =
     (if byte b < 128 then json_ascii b @ json_body t
      else (case DecodeRune (b # t) of
        None \<Rightarrow> backslash # ''ufffd'' @ json_body t
      | Some (cs, r) \<Rightarrow> json_rune cs @ json_body r))"
  by (subst json_body.simps; simp)+

definition json_string :: "string \<Rightarrow> string" where
  "json_string s = quote # json_body s @ [quote]"

section \<open>Values and maps\<close>

text \<open>\<open>Time.MarshalJSON\<close>: the RFC 3339 format of a UTC time with nanoseconds.\<close>

definition RFC3339 :: "Time \<Rightarrow> string" where
  "RFC3339 t =
     (let c = civil_time t;
          ns = nat (time_nanosecond t);
          frac = (if ns = 0 then [] else ''.'' @ strings_TrimRight1 (pad 9 ns) CHR ''0'')
      in pad 4 (nat (ct_Year c)) @ ''-'' @ pad 2 (nat (ct_Month c)) @ ''-'' @ pad 2 (nat (ct_Day c)) @
           ''T'' @ pad 2 (nat (ct_Hour c)) @ '':'' @ pad 2 (nat (ct_Minute c)) @ '':'' @
           pad 2 (nat (ct_Second c)) @ frac @ ''Z'')"

definition json_Time :: "Time \<Rightarrow> string option" where
  "json_Time t = (if four_digit_year t then Some ([quote] @ RFC3339 t @ [quote]) else None)"

definition json_value :: "(go_float \<Rightarrow> string option) \<Rightarrow> go_value \<Rightarrow> string option" where
  "json_value fmt v =
     (case v of
        Val_string s \<Rightarrow> Some (json_string s)
      | Val_int32 n \<Rightarrow> Some (decimal_int (sint n))
      | Val_int64 n \<Rightarrow> Some (decimal_int (sint n))
      | Val_uint64 n \<Rightarrow> Some (decimal (unat n))
      | Val_StopStatus n \<Rightarrow> Some (decimal_int (sint n))
      | Val_Time t \<Rightarrow> json_Time t
      | Val_float f \<Rightarrow> fmt f)"

text \<open>The members of an object; the first value that cannot be written is an error for the whole.\<close>

fun json_members :: "(go_float \<Rightarrow> string option) \<Rightarrow> (string \<times> go_value) list \<Rightarrow> string list option" where
  "json_members fmt [] = Some []"
| "json_members fmt ((k, v) # kvs) =
     (case json_value fmt v of
        None \<Rightarrow> None
      | Some s \<Rightarrow> map_option (\<lambda>ms. (json_string k @ '':'' @ s) # ms) (json_members fmt kvs))"

text \<open>The keys of the maps of events, sorted as \<open>json.Marshal\<close> sorts them.\<close>

definition event_keys :: "string list" where
  "event_keys =
     [''agency_id'', ''arrival_time'', ''departure_time'', ''destination_stop_id'', ''direction'',
      ''direction_destination'', ''direction_id'', ''dwell_time_seconds'', ''end_time'', ''event_type'',
      ''following_vehicle_id'', ''headway_time_seconds'', ''latitude'', ''leading_vehicle_id'', ''longitude'',
      ''origin_stop_id'', ''parent_station'', ''route_id'', ''service_date'', ''start_time'',
      ''stop_event_type'', ''stop_id'', ''stop_sequence'', ''stop_status'', ''timestamp'',
      ''travel_time_seconds'', ''trip_id'', ''vehicle_id'']"

definition map_entries :: "event_map \<Rightarrow> (string \<times> go_value) list" where
  "map_entries m = List.map_filter (\<lambda>k. map_option (Pair k) (m k)) event_keys"

definition json_Marshal :: "(go_float \<Rightarrow> string option) \<Rightarrow> event_map \<Rightarrow> string option" where
  "json_Marshal fmt m =
     map_option (\<lambda>ms. ''{'' @ strings_Join ms '','' @ ''}'') (json_members fmt (map_entries m))"

section \<open>The entries of a map\<close>

text \<open>The order of strings: byte by byte.\<close>

fun bytes_less :: "string \<Rightarrow> string \<Rightarrow> bool" where
  "bytes_less s [] = False"
| "bytes_less [] (d # t) = True"
| "bytes_less (c # s) (d # t) = (byte c < byte d \<or> c = d \<and> bytes_less s t)"

fun ascending :: "string list \<Rightarrow> bool" where
  "ascending (s # t # ss) = (bytes_less s t \<and> ascending (t # ss))"
| "ascending _ = True"

lemma event_keys_ascending: "ascending event_keys"
  by (simp add: event_keys_def)

lemma event_map_keys: "dom (GetEventMap pf e) \<subseteq> set event_keys"
  by (cases e) (auto simp: GetEventMap_def GetEventAttributesMap_def GetEventValuesMap_def attributes_list_def
      values_list_def dom_map_of_conv_image_fst event_keys_def Let_def)

lemma map_of_map_filter: "map_of (List.map_filter (\<lambda>k. map_option (Pair k) (m k)) ks) j = (if j \<in> set ks then m j else None)"
  by (induction ks) (auto simp: List.map_filter_simps split: option.splits)

lemma map_entries_exact: "map_of (map_entries (GetEventMap pf e)) = GetEventMap pf e"
proof
  fix k
  show "map_of (map_entries (GetEventMap pf e)) k = GetEventMap pf e k"
    using event_map_keys [of pf e] domIff [of k "GetEventMap pf e"]
    by (cases "k \<in> set event_keys") (auto simp: map_entries_def map_of_map_filter)
qed

section \<open>Reading strings back\<close>

text \<open>The UTF-8 encoding of a code point below 65536.\<close>

definition utf8_encode :: "nat \<Rightarrow> string" where
  "utf8_encode n =
     (if n < 128 then [char_of n]
      else if n < 2048 then [char_of (192 + n div 64), char_of (128 + n mod 64)]
      else [char_of (224 + n div 4096), char_of (128 + n div 64 mod 64), char_of (128 + n mod 64)])"

definition json_unescape :: "char \<Rightarrow> char option" where
  "json_unescape e =
     (if e \<in> {quote, backslash, CHR ''/''} then Some e
      else if e = CHR ''b'' then Some (CHR 0x08)
      else if e = CHR ''f'' then Some (CHR 0x0C)
      else if e = CHR ''n'' then Some (CHR 0x0A)
      else if e = CHR ''r'' then Some (CHR 0x0D)
      else if e = CHR ''t'' then Some (CHR 0x09)
      else None)"

definition prepend :: "string \<Rightarrow> (string \<times> string) option \<Rightarrow> (string \<times> string) option" where
  "prepend cs r = map_option (\<lambda>(s, rest). (cs @ s, rest)) r"

lemma prepend_simps [simp]:
  "prepend cs None = None" "prepend cs (Some (s, rest)) = Some (cs @ s, rest)" "prepend [] r = r"
  "prepend cs (prepend ds r) = prepend (cs @ ds) r"
  by (cases r; auto simp: prepend_def)+

text \<open>The string up to the closing quote, and what follows it.\<close>

fun json_read :: "string \<Rightarrow> (string \<times> string) option" where
  "json_read [] = None"
| "json_read (c # s) =
     (if c = quote then Some ([], s)
      else if c = backslash then
        (case s of
           [] \<Rightarrow> None
         | e # r \<Rightarrow>
             if e = CHR ''u'' then
               (case r of
                  h1 # h2 # h3 # h4 # r' \<Rightarrow>
                    if list_all ishex [h1, h2, h3, h4] then
                      prepend (utf8_encode (4096 * unhex h1 + 256 * unhex h2 + 16 * unhex h3 + unhex h4))
                        (json_read r')
                    else None
                | _ \<Rightarrow> None)
             else (case json_unescape e of
                None \<Rightarrow> None
              | Some x \<Rightarrow> prepend [x] (json_read r)))
      else if byte c < 32 then None
      else prepend [c] (json_read s))"

lemma hex_char: "n < 16 \<Longrightarrow> ishex (hex_char n) \<and> unhex (hex_char n) = n"
  by (auto simp: hex_char_def ishex_def unhex_def)

lemma ishex_0 [simp]: "ishex CHR ''0''" "unhex CHR ''0'' = 0"
  by (simp_all add: ishex_def unhex_def)

lemma json_read_hex2:
  assumes "byte b < 128"
  shows "json_read ([backslash, CHR ''u'', CHR ''0'', CHR ''0'', hex_char (byte b div 16), hex_char (byte b mod 16)] @ t) =
    prepend [b] (json_read t)"
proof -
  have "byte b div 16 < 16" using assms by (simp add: less_mult_imp_div_less)
  then show ?thesis
    using assms hex_char [of "byte b div 16"] hex_char [of "byte b mod 16"]
    by (simp add: utf8_encode_def)
qed

lemma json_read_ascii:
  assumes "byte b < 128"
  shows "json_read (json_ascii b @ t) = prepend [b] (json_read t)"
proof -
  let ?short = "{backslash, quote, CHR 0x08, CHR 0x0C, CHR 0x0A, CHR 0x0D, CHR 0x09}"
  consider "htmlSafe b" | "b \<in> ?short" | "\<not> htmlSafe b" "b \<notin> ?short" by blast
  then show ?thesis
  proof cases
    case 1
    then have "b \<noteq> quote" "b \<noteq> backslash" "\<not> byte b < 32" by (auto simp: htmlSafe_def)
    with 1 show ?thesis by (simp add: json_ascii_def)
  next
    case 2
    then show ?thesis by (auto simp: json_ascii_def htmlSafe_def json_unescape_def)
  next
    case 3
    then have "json_ascii b = [backslash, CHR ''u'', CHR ''0'', CHR ''0'', hex_char (byte b div 16),
        hex_char (byte b mod 16)]" by (simp add: json_ascii_def)
    then show ?thesis by (simp only: json_read_hex2 [OF assms])
  qed
qed

lemma json_read_high:
  "list_all (\<lambda>c. 128 \<le> byte c) cs \<Longrightarrow> json_read (cs @ t) = prepend cs (json_read t)"
proof (induction cs)
  case (Cons c cs)
  then have "c \<noteq> quote" "c \<noteq> backslash" by auto
  with Cons show ?case by simp
qed simp

lemma json_read_separators:
  "json_read (backslash # ''u2028'' @ t) = prepend [CHR 0xE2, CHR 0x80, CHR 0xA8] (json_read t)"
  "json_read (backslash # ''u2029'' @ t) = prepend [CHR 0xE2, CHR 0x80, CHR 0xA9] (json_read t)"
  by (simp_all add: ishex_def unhex_def utf8_encode_def char_of_def bit_Suc_0_iff)

lemma json_read_rune:
  "list_all (\<lambda>c. 128 \<le> byte c) cs \<Longrightarrow> json_read (json_rune cs @ t) = prepend cs (json_read t)"
  using json_read_separators [of t] json_read_high [of cs t]
  by (cases "cs \<in> {[CHR 0xE2, CHR 0x80, CHR 0xA8], [CHR 0xE2, CHR 0x80, CHR 0xA9]}")
    (auto simp: json_rune_def simp del: json_read.simps)

lemma json_read_body: "valid_utf8 s \<Longrightarrow> json_read (json_body s @ t) = prepend s (json_read t)"
proof (induction s rule: json_body.induct)
  case (1 s)
  show ?case
  proof (cases s)
    case Nil
    then show ?thesis by simp
  next
    case (Cons b r)
    show ?thesis
    proof (cases "byte b < 128")
      case True
      then have "valid_utf8 r" using 1(4) Cons by simp
      then show ?thesis
        using True Cons 1(1) [OF Cons True] by (simp add: json_read_ascii)
    next
      case False
      then obtain cs q where d: "DecodeRune s = Some (cs, q)" and "valid_utf8 q"
        using 1(4) Cons by (auto split: option.splits)
      then have q: "json_read (json_body q @ t) = prepend q (json_read t)"
        using 1(3) [OF Cons False d refl] by simp
      have "s = cs @ q" "list_all (\<lambda>c. 128 \<le> byte c) cs" using DecodeRune_split [OF d] by simp_all
      moreover have "json_body s = json_rune cs @ json_body q" using False d by (simp add: Cons)
      ultimately show ?thesis by (simp add: json_read_rune q)
    qed
  qed
qed

text \<open>
  A string survives JSON: what the encoder writes for a string of valid UTF-8 is read back as
  that string by a reader of JSON string literals, with the rest of the text left over, whatever
  quotes, control characters, markup or line separators the string contains.
\<close>

lemma json_string_roundtrip:
  assumes "valid_utf8 s"
  shows "\<exists>body. json_string s @ rest = quote # body \<and> json_read body = Some (s, rest)"
  using json_read_body [OF assms, of "quote # rest"] by (simp add: json_string_def)

section \<open>No line breaks\<close>

abbreviation printable :: "string \<Rightarrow> bool" where
  "printable s \<equiv> list_all (\<lambda>c. 32 \<le> byte c) s"

lemma printable_hex: "n < 16 \<Longrightarrow> 32 \<le> byte (hex_char n)"
  by (auto simp: hex_char_def)

lemma printable_ascii: "byte b < 128 \<Longrightarrow> printable (json_ascii b)"
  using printable_hex [of "byte b div 16"] printable_hex [of "byte b mod 16"]
  by (auto simp: json_ascii_def htmlSafe_def less_mult_imp_div_less)

lemma printable_body: "printable (json_body s)"
proof (induction s rule: json_body.induct)
  case (1 s)
  show ?case
  proof (cases s)
    case (Cons b r)
    show ?thesis
    proof (cases "byte b < 128")
      case True
      then show ?thesis
        using 1(1) [OF Cons True] Cons by (simp add: printable_ascii)
    next
      case False
      show ?thesis
      proof (cases "DecodeRune s")
        case None
        then show ?thesis using 1(2) [OF Cons False None] False Cons by simp
      next
        case (Some p)
        obtain cs q where p: "p = (cs, q)" by fastforce
        have "printable cs"
          using DecodeRune_split [of s cs q] Some p by (auto simp: list_all_iff)
        then show ?thesis
          using 1(3) [OF Cons False Some p [symmetric]] False Some by (simp add: Cons p json_rune_def)
      qed
    qed
  qed simp
qed

lemma printable_digits: "set s \<subseteq> set ''0123456789'' \<Longrightarrow> printable s"
  by (auto simp: list_all_iff)

lemma printable_decimal: "printable (decimal n)"
  using set_decimal by (rule printable_digits)

lemma printable_decimal_int: "printable (decimal_int i)"
  by (simp add: decimal_int_def printable_decimal)

lemma printable_pad: "printable (pad w n)"
  using printable_decimal [of n] by (auto simp: pad_def list_all_iff)

lemma printable_trim: "printable s \<Longrightarrow> printable (strings_TrimRight1 s c)"
  by (auto simp: strings_TrimRight1_def list_all_iff dest: set_dropWhileD)

lemma printable_string: "printable (json_string s)"
  by (simp add: json_string_def printable_body)

lemma printable_Time: "json_Time t = Some s \<Longrightarrow> printable s"
  by (auto simp: json_Time_def RFC3339_def Let_def printable_pad printable_trim split: if_splits)

text \<open>What is assumed of the format of floats: it has no control characters.\<close>

definition json_float_spec :: "(go_float \<Rightarrow> string option) \<Rightarrow> bool" where
  "json_float_spec fmt \<longleftrightarrow> (\<forall>f s. fmt f = Some s \<longrightarrow> printable s)"

lemma printable_value:
  assumes "json_float_spec fmt" and "json_value fmt v = Some s"
  shows "printable s"
  using assms
  by (cases v)
    (auto simp: json_value_def json_float_spec_def printable_string printable_decimal printable_decimal_int printable_Time)

lemma printable_Join: "list_all printable ss \<Longrightarrow> printable sep \<Longrightarrow> printable (strings_Join ss sep)"
  by (induction ss sep rule: strings_Join.induct) auto

lemma printable_members:
  assumes "json_float_spec fmt"
  shows "json_members fmt kvs = Some ms \<Longrightarrow> list_all printable ms"
  by (induction kvs arbitrary: ms) (auto simp: printable_string printable_value [OF assms] split: option.splits)

lemma printable_Marshal:
  assumes "json_float_spec fmt" and "json_Marshal fmt m = Some d"
  shows "printable d"
  using assms(2) printable_members [OF assms(1)] by (auto simp: json_Marshal_def printable_Join)

end
