(* ===== verification/Sse_Handler.thy ===== *)
theory Sse_Handler
  imports Json Event_Server Config
begin

text \<open>
  The HTTP side of the event server, \<open>NewEventServer\<close> and \<open>handleSSE\<close> of
  \<open>src/event_server/event_server.go\<close>: a request to the configured path subscribes with the filters of its
  query, and every message of its channel is written as one server-sent event until the client goes
  away. The net/http server itself is outside; a response is the text written to it.

  \<open>sse_events\<close> reads such a stream as the standard for server-sent events tells a client to. The main
  result is that the client sees exactly the events the handler received.
\<close>

section \<open>The handler\<close>

definition sse_headers :: "(string \<times> string) list" where
  "sse_headers =
     [(''Content-Type'', ''text/event-stream''), (''Cache-Control'', ''no-cache''),
      (''Connection'', ''keep-alive''), (''Access-Control-Allow-Origin'', ''*'')]"

abbreviation LF :: char where "LF \<equiv> CHR 0x0A"
abbreviation CR :: char where "CR \<equiv> CHR 0x0D"

definition sse_frame :: "string \<Rightarrow> string" where
  "sse_frame data = ''data: '' @ data @ [LF, LF]"

datatype sse_select =
    Client_gone \<comment> \<open>\<open>case <-notify\<close>\<close>
  | Client_message event_map \<comment> \<open>\<open>case event := <-client.Channel\<close>\<close>

text \<open>The loop: the text written, and whether the handler returned.\<close>

fun sse_loop :: "(go_float \<Rightarrow> string option) \<Rightarrow> sse_select list \<Rightarrow> string \<times> bool" where
  "sse_loop fmt [] = ([], False)"
| "sse_loop fmt (Client_gone # cs) = ([], True)"
| "sse_loop fmt (Client_message m # cs) =
     (case json_Marshal fmt m of
        None \<Rightarrow> sse_loop fmt cs
      | Some data \<Rightarrow> (let (w, r) = sse_loop fmt cs in (sse_frame data @ w, r)))"

datatype http_answer =
    Not_served \<comment> \<open>another path: an empty response\<close>
  | Http_error int string
  | Event_stream "(string \<times> string) list" string

text \<open>
  The request handler: \<open>flushes\<close> says whether the response writer can flush. The subscription is
  made before that is checked and given up when the handler returns, either way.
\<close>

definition handleSSE :: "(go_float \<Rightarrow> string option) \<Rightarrow> bool \<Rightarrow> sse_select list \<Rightarrow> http_answer \<times> bool" where
  "handleSSE fmt flushes cs =
     (if \<not> flushes then (Http_error 500 ''Streaming unsupported!'', True)
      else (let (w, r) = sse_loop fmt cs in (Event_stream sse_headers w, r)))"

record http_request =
  req_Path :: string
  req_RawQuery :: string

text \<open>The server of an SSE sink: its address, and what a request to it does first.\<close>

definition server_config :: "SSESinkConfig \<Rightarrow> EventServerConfig" where
  "server_config cfg = \<lparr>esc_Port = sse_Port cfg, esc_Path = sse_Path cfg\<rparr>"

definition server_addr :: "EventServerConfig \<Rightarrow> string" where
  "server_addr cfg = '':'' @ esc_Port cfg"

definition serve_request ::
    "EventServerConfig \<Rightarrow> SubscriberId \<Rightarrow> http_request \<Rightarrow> EventServer \<Rightarrow> (EventServer \<times> Subscriber) option" where
  "serve_request cfg i req es =
     (if req_Path req = esc_Path cfg then Some (Subscribe i (query_subscription (req_RawQuery req)) es) else None)"

lemma serve_request_subscribes:
  "serve_request cfg i \<lparr>req_Path = path, req_RawQuery = write_query kvs\<rparr> es =
     (if path = esc_Path cfg then Some (Subscribe i (first_values kvs) es) else None)"
  by (simp add: serve_request_def query_subscription_def parseQuery_write)

text \<open>
  What a client asks for is what it gets: the events its subscription lets through are those with the
  value it wrote for each name of its query.
\<close>

lemma serve_request_filters:
  assumes "serve_request cfg i \<lparr>req_Path = path, req_RawQuery = write_query kvs\<rparr> es = Some (es', client)"
    and "distinct (map fst kvs)"
  shows "matches fmt (sub_Subscription client) em \<longleftrightarrow>
    (\<forall>(k, v) \<in> set kvs. \<exists>x. em k = Some x \<and> sprint_v fmt x = v)"
proof -
  have "first_values kvs = kvs"
    using assms(2) by (induction kvs rule: first_values.induct) (force intro!: filter_True)+
  then have "sub_Subscription client = kvs"
    using assms(1) by (auto simp: serve_request_subscribes Subscribe_def NewSubscriber_def Let_def split: if_splits)
  then show ?thesis by (auto simp: matches_def list_all_iff split: option.splits)
qed

section \<open>The life of the server\<close>

text \<open>
  \<open>NewEventServer\<close> starts two goroutines: one listens, the other waits for the end of the context and then
  calls \<open>Shutdown\<close> with a context that never ends. As net/http documents it, \<open>Shutdown\<close> first stops the
  listener, later calls of \<open>ListenAndServe\<close> fail, and it returns once no request is active. A
  handler returns when its own client is gone and for no other reason.
\<close>

datatype http_phase = Starting | Listening | Draining | Down

record http_server =
  hv_Addr :: string
  hv_phase :: http_phase
  hv_ctx_done :: bool
  hv_active :: nat

definition new_http_server :: "EventServerConfig \<Rightarrow> http_server" where
  "new_http_server cfg =
     \<lparr>hv_Addr = server_addr cfg, hv_phase = Starting, hv_ctx_done = False, hv_active = 0\<rparr>"

inductive server_step :: "http_server \<Rightarrow> http_server \<Rightarrow> bool" where
  listen: "hv_phase v = Starting \<Longrightarrow> server_step v (v\<lparr>hv_phase := Listening\<rparr>)"
| request: "hv_phase v = Listening \<Longrightarrow> server_step v (v\<lparr>hv_active := Suc (hv_active v)\<rparr>)"
| client_gone: "hv_active v = Suc n \<Longrightarrow> server_step v (v\<lparr>hv_active := n\<rparr>)"
| context_ends: "\<not> hv_ctx_done v \<Longrightarrow> server_step v (v\<lparr>hv_ctx_done := True\<rparr>)"
| shutdown: "hv_ctx_done v \<Longrightarrow> hv_phase v \<in> {Starting, Listening} \<Longrightarrow> server_step v (v\<lparr>hv_phase := Draining\<rparr>)"
| idle: "hv_phase v = Draining \<Longrightarrow> hv_active v = 0 \<Longrightarrow> server_step v (v\<lparr>hv_phase := Down\<rparr>)"

inductive_cases server_stepE: "server_step v v'"

lemma server_down_inv:
  assumes "server_step\<^sup>*\<^sup>* (new_http_server cfg) v"
  shows "(hv_phase v \<in> {Draining, Down} \<longrightarrow> hv_ctx_done v) \<and> (hv_phase v = Down \<longrightarrow> hv_active v = 0)"
  using assms
  by (induction rule: rtranclp_induct) (auto simp: new_http_server_def elim!: server_stepE)

text \<open>
  Once it drains, the server takes no new request, and it is down only when every client has
  left: cancelling the context does not end a stream.
\<close>

lemma server_drains:
  assumes "server_step\<^sup>*\<^sup>* v w" and "hv_phase v \<in> {Draining, Down}"
  shows "hv_active w \<le> hv_active v \<and> hv_phase w \<in> {Draining, Down}"
  using assms by (induction rule: rtranclp_induct) (auto elim!: server_stepE)

lemma server_waits_for_clients:
  assumes "server_step\<^sup>*\<^sup>* (new_http_server cfg) v" and "0 < hv_active v"
  shows "hv_phase v \<noteq> Down"
  using server_down_inv [OF assms(1)] assms(2) by auto

section \<open>A client of the stream\<close>

text \<open>The complete lines of a text; the line that is being read is an accumulator, reversed.\<close>

fun sse_lines :: "string \<Rightarrow> string \<Rightarrow> string list" where
  "sse_lines acc [] = []"
| "sse_lines acc (c # s) =
     (if c = LF then rev acc # sse_lines [] s
      else if c = CR then
        (case s of d # s' \<Rightarrow> if d = LF then rev acc # sse_lines [] s' else rev acc # sse_lines [] s
         | [] \<Rightarrow> [rev acc])
      else sse_lines (c # acc) s)"

text \<open>
  A line \<open>data:\<close> adds to the data of the event, without the colon and one space; an empty line
  dispatches the event if there is data; other lines are ignored.
\<close>

fun sse_dispatch :: "string list \<Rightarrow> string list \<Rightarrow> string list" where
  "sse_dispatch buf [] = []"
| "sse_dispatch buf (l # ls) =
     (if l = [] then
        (if buf = [] then sse_dispatch [] ls else strings_Join buf [LF] # sse_dispatch [] ls)
      else if take 5 l = ''data:'' then
        (let v = drop 5 l in sse_dispatch (buf @ [if take 1 v = '' '' then drop 1 v else v]) ls)
      else sse_dispatch buf ls)"

definition sse_events :: "string \<Rightarrow> string list" where
  "sse_events s = sse_dispatch [] (sse_lines [] s)"

section \<open>Properties\<close>

lemma sse_lines_line:
  assumes "printable l"
  shows "sse_lines acc (l @ LF # s) = (rev acc @ l) # sse_lines [] s"
  using assms
proof (induction l arbitrary: acc)
  case (Cons c l)
  then have "c \<noteq> LF" "c \<noteq> CR" by auto
  with Cons show ?case by simp
qed simp

lemma sse_events_frame:
  assumes "printable d"
  shows "sse_events (sse_frame d @ s) = d # sse_events s"
proof -
  have "sse_lines [] (sse_frame d @ s) = (''data: '' @ d) # [] # sse_lines [] s"
    using assms sse_lines_line [of "''data: '' @ d" "[]" "LF # s"] by (simp add: sse_frame_def)
  then show ?thesis by (simp add: sse_events_def)
qed

lemma sse_loop_client:
  assumes "json_float_spec fmt"
  shows "sse_events (fst (sse_loop fmt (map Client_message ms @ Client_gone # cs))) =
    List.map_filter (json_Marshal fmt) ms"
proof (induction ms)
  case Nil
  show ?case by (simp add: sse_events_def List.map_filter_simps)
next
  case (Cons m ms)
  then show ?case
    using printable_Marshal [OF assms, of m]
    by (auto simp: List.map_filter_simps Let_def case_prod_beta sse_events_frame split: option.split)
qed

text \<open>
  A client that follows the standard reads what was sent: when the handler serves a
  subscriber, the events a client parses from the response are exactly the JSON texts of the
  messages the subscriber received, in order, except those that cannot be encoded; no payload can
  break the framing. The format of a float is assumed to contain no control characters.
\<close>

lemma sse_roundtrip:
  assumes "json_float_spec fmt"
  shows "\<exists>w. handleSSE fmt True (map Client_message (received_by i ls) @ Client_gone # cs) =
      (Event_stream sse_headers w, True) \<and>
    sse_events w = List.map_filter (json_Marshal fmt) (received_by i ls)"
proof -
  let ?cs = "map Client_message (received_by i ls) @ Client_gone # cs"
  have "snd (sse_loop fmt (map Client_message ms @ Client_gone # cs))" for ms
    by (induction ms) (auto simp: Let_def case_prod_beta split: option.split)
  then have "handleSSE fmt True ?cs = (Event_stream sse_headers (fst (sse_loop fmt ?cs)), True)"
    by (simp add: handleSSE_def Let_def case_prod_beta)
  with sse_loop_client [OF assms] show ?thesis by blast
qed

end
