(* ===== verification/Event_Json.thy ===== *)
theory Event_Json
  imports Sse_Handler Readers
begin

text \<open>
  A client of the event stream: an independent reader of flat JSON objects, of RFC 3339 times and of
  numbers, which gives back the map of an event from its JSON text. The main results are that the text
  of \<open>json_Marshal\<close> is read back as the map it was written for, and that a client of \<open>handleSSE\<close>
  of \<open>src/event_server/event_server.go\<close> therefore recovers the broadcast events.
\<close>

section \<open>Numbers\<close>

text \<open>The grammar of a number: a sign, an integer without leading zeros, a fraction, an exponent.\<close>

definition number_char :: "char \<Rightarrow> bool" where
  "number_char c \<longleftrightarrow> is_digit c \<or> c \<in> {CHR ''+'', CHR ''-'', CHR ''.'', CHR ''e'', CHR ''E''}"

definition digits :: "string \<Rightarrow> bool" where
  "digits s \<longleftrightarrow> s \<noteq> [] \<and> list_all is_digit s"

text \<open>What follows the first character that is one of \<open>cs\<close>, which may be absent.\<close>

definition skip_char :: "char set \<Rightarrow> string \<Rightarrow> string" where
  "skip_char cs s = (case s of [] \<Rightarrow> [] | c # t \<Rightarrow> if c \<in> cs then t else s)"

definition number_exponent :: "string \<Rightarrow> bool" where
  "number_exponent s =
     (case s of
        [] \<Rightarrow> True
      | c # t \<Rightarrow> c \<in> {CHR ''e'', CHR ''E''} \<and> digits (skip_char {CHR ''+'', CHR ''-''} t))"

definition number_fraction :: "string \<Rightarrow> bool" where
  "number_fraction s =
     (case s of
        [] \<Rightarrow> True
      | c # t \<Rightarrow>
          if c = CHR ''.'' then takeWhile is_digit t \<noteq> [] \<and> number_exponent (dropWhile is_digit t)
          else number_exponent s)"

definition json_number :: "string \<Rightarrow> bool" where
  "json_number s =
     (let u = skip_char {CHR ''-''} s; i = takeWhile is_digit u
      in i \<noteq> [] \<and> (hd i = CHR ''0'' \<longrightarrow> length i = 1) \<and> number_fraction (dropWhile is_digit u))"

definition read_int :: "string \<Rightarrow> int option" where
  "read_int s =
     (let u = skip_char {CHR ''-''} s
      in if digits u then Some (if u = s then int (digits_value u) else - int (digits_value u)) else None)"

lemma digits_decimal: "digits (decimal n)"
  by (simp add: digits_def is_digit_decimal decimal_nonempty)

lemma skip_char_simps [simp]:
  "skip_char cs [] = []" "skip_char cs (c # t) = (if c \<in> cs then t else c # t)"
  by (simp_all add: skip_char_def)

lemma skip_sign_decimal [simp]: "skip_char {CHR ''-''} (decimal n) = decimal n"
  using hd_decimal [of n "[]"] digit_not_sign decimal_nonempty [of n] by (cases "decimal n") auto

lemma read_int_decimal: "read_int (decimal_int i) = Some i"
proof -
  have "decimal n \<noteq> CHR ''-'' # decimal n" for n by (metis not_Cons_self)
  then show ?thesis
    by (simp add: read_int_def decimal_int_def digits_decimal digits_value_decimal)
qed

lemma hd_decimal_0: "0 < n \<Longrightarrow> hd (decimal n) \<noteq> CHR ''0''"
proof (induction n rule: decimal.induct)
  case (1 n)
  show ?case
  proof (cases "n < 10")
    case True
    then have "digit_value (digit_char n) = n" by (simp add: digit_value_char)
    then have "digit_char n \<noteq> CHR ''0''" using "1.prems" by (auto simp: digit_value_def)
    with True show ?thesis by (subst decimal.simps) simp
  next
    case False
    then show ?thesis
      using "1.IH" [OF False] decimal_nonempty [of "n div 10"] by (subst decimal.simps) (simp add: hd_append)
  qed
qed

lemma json_number_decimal: "json_number (decimal n)"
proof -
  have t: "takeWhile is_digit (decimal n) = decimal n" "dropWhile is_digit (decimal n) = []"
    using is_digit_decimal [of n] by (simp_all add: list_all_iff)
  have "hd (decimal n) = CHR ''0'' \<longrightarrow> length (decimal n) = 1"
    using hd_decimal_0 [of n] by (cases "n = 0") (simp_all add: decimal.simps [of 0])
  then show ?thesis
    by (simp add: json_number_def Let_def t number_fraction_def decimal_nonempty)
qed

lemma json_number_decimal_int: "json_number (decimal_int i)"
  using json_number_decimal by (simp add: decimal_int_def json_number_def)

lemma digits_number_chars: "digits s \<Longrightarrow> list_all number_char s"
  by (simp add: digits_def list_all_iff number_char_def)

lemma skip_char_chars:
  "list_all number_char (skip_char cs s) \<Longrightarrow> \<forall>c \<in> cs. number_char c \<Longrightarrow> list_all number_char s"
  by (cases s) (auto split: if_splits)

lemma number_exponent_chars: "number_exponent s \<Longrightarrow> list_all number_char s"
proof (cases s)
  case (Cons c t)
  assume "number_exponent s"
  then have c: "c = CHR ''e'' \<or> c = CHR ''E''" and d: "digits (skip_char {CHR ''+'', CHR ''-''} t)"
    by (simp_all add: number_exponent_def Cons)
  have "list_all number_char t"
    using digits_number_chars [OF d] by (rule skip_char_chars) (simp add: number_char_def)
  then show ?thesis using c Cons by (auto simp: number_char_def)
qed simp

lemma span_number_chars:
  assumes "list_all number_char (dropWhile is_digit s)"
  shows "list_all number_char s"
proof -
  have "list_all number_char (takeWhile is_digit s)"
    by (auto simp: list_all_iff number_char_def dest: set_takeWhileD)
  with assms show ?thesis by (metis list_all_append takeWhile_dropWhile_id)
qed

lemma number_fraction_chars: "number_fraction s \<Longrightarrow> list_all number_char s"
proof (cases s)
  case (Cons c t)
  assume f: "number_fraction s"
  show ?thesis
  proof (cases "c = CHR ''.''")
    case True
    then have "list_all number_char t"
      using f Cons by (simp add: number_fraction_def number_exponent_chars span_number_chars)
    with True show ?thesis by (simp add: Cons number_char_def)
  next
    case False
    then show ?thesis using f Cons number_exponent_chars [of s] by (simp add: number_fraction_def)
  qed
qed simp

lemma json_number_chars: "json_number s \<Longrightarrow> list_all number_char s"
  by (rule skip_char_chars [of "{CHR ''-''}"])
    (simp_all add: json_number_def Let_def number_fraction_chars span_number_chars number_char_def)

lemma json_number_nonempty: "json_number s \<Longrightarrow> s \<noteq> []"
  by (auto simp: json_number_def)

section \<open>Times\<close>

text \<open>A fraction of a second in nanoseconds, with at most nine digits.\<close>

definition read_fraction :: "string \<Rightarrow> nat option" where
  "read_fraction s =
     (case s of
        [] \<Rightarrow> Some 0
      | c # ds \<Rightarrow>
          if c = CHR ''.'' \<and> digits ds \<and> length ds \<le> 9 then Some (digits_value ds * 10 ^ (9 - length ds)) else None)"

definition read_Time :: "string \<Rightarrow> Time option" where
  "read_Time s =
     Option.bind (read_digits 4 s) (\<lambda>(y, s).
     Option.bind (expect ''-'' s) (\<lambda>s. Option.bind (read_digits 2 s) (\<lambda>(mo, s).
     Option.bind (expect ''-'' s) (\<lambda>s. Option.bind (read_digits 2 s) (\<lambda>(d, s).
     Option.bind (expect ''T'' s) (\<lambda>s. Option.bind (read_digits 2 s) (\<lambda>(h, s).
     Option.bind (expect '':'' s) (\<lambda>s. Option.bind (read_digits 2 s) (\<lambda>(mi, s).
     Option.bind (expect '':'' s) (\<lambda>s. Option.bind (read_digits 2 s) (\<lambda>(sec, s).
     if s \<noteq> [] \<and> last s = CHR ''Z''
     then map_option
       (\<lambda>ns. seconds_of \<lparr>ct_Year = int y, ct_Month = int mo, ct_Day = int d, ct_Hour = int h, ct_Minute = int mi,
         ct_Second = int sec\<rparr> * Second_ns + int ns)
       (read_fraction (butlast s))
     else None)))))))))))"

lemma list_all_pad: "list_all is_digit (pad w n)"
proof -
  have "is_digit CHR ''0''" by (simp add: is_digit_def)
  then show ?thesis using is_digit_decimal [of n] by (auto simp: pad_def list_all_iff)
qed

lemma read_digits_pad [simp]: "0 < w \<Longrightarrow> n < 10 ^ w \<Longrightarrow> read_digits w (pad w n @ s) = Some (n, s)"
  by (simp add: read_digits_def length_pad list_all_pad digits_value_pad)

lemma TrimRight1_split: "\<exists>k. s = strings_TrimRight1 s c @ replicate k c"
proof -
  have "takeWhile (\<lambda>x. x = c) xs = replicate (length (takeWhile (\<lambda>x. x = c) xs)) c" for xs
    by (induction xs) auto
  then have "rev s = replicate (length (takeWhile (\<lambda>x. x = c) (rev s))) c @ dropWhile (\<lambda>x. x = c) (rev s)"
    by (metis takeWhile_dropWhile_id)
  then have "s = rev (dropWhile (\<lambda>x. x = c) (rev s)) @ replicate (length (takeWhile (\<lambda>x. x = c) (rev s))) c"
    by (metis rev_append rev_replicate rev_rev_ident)
  then show ?thesis by (auto simp: strings_TrimRight1_def)
qed

lemma digits_value_zeros: "digits_value (s @ replicate k (CHR ''0'')) = digits_value s * 10 ^ k"
  by (induction k) (simp_all add: digits_value_def digit_value_def replicate_append_same [symmetric])

lemma read_fraction_trim:
  assumes "0 < n" and "n < 10 ^ 9"
  shows "read_fraction (''.'' @ strings_TrimRight1 (pad 9 n) CHR ''0'') = Some n"
proof -
  let ?t = "strings_TrimRight1 (pad 9 n) CHR ''0''"
  obtain k where k: "pad 9 n = ?t @ replicate k CHR ''0''" using TrimRight1_split by blast
  have "length (pad 9 n) = 9" using assms by (simp add: length_pad)
  then have len: "length ?t = 9 - k" "k \<le> 9" by (subst (asm) k; simp)+
  have "digits_value (pad 9 n) = digits_value ?t * 10 ^ k" by (subst k) (rule digits_value_zeros)
  then have v: "digits_value ?t * 10 ^ k = n" by (simp add: digits_value_pad)
  have "list_all is_digit (?t @ replicate k CHR ''0'')" using list_all_pad [of 9 n] by (simp only: k [symmetric])
  moreover have "?t \<noteq> []" using v assms(1) by (auto simp: digits_value_def)
  ultimately show ?thesis using len v by (simp add: read_fraction_def digits_def)
qed

lemma read_Time_RFC3339:
  assumes "four_digit_year t"
  shows "read_Time (RFC3339 t) = Some t"
proof -
  let ?c = "civil_time t" and ?ns = "nat (time_nanosecond t)"
  define frac where "frac = (if ?ns = 0 then [] else ''.'' @ strings_TrimRight1 (pad 9 ?ns) CHR ''0'')"
  have ns: "0 \<le> time_nanosecond t" "time_nanosecond t < 10 ^ 9" by (simp_all add: time_nanosecond_def Second_ns_def)
  then have "read_fraction frac = Some ?ns"
    using read_fraction_trim [of ?ns] by (simp add: frac_def) (simp add: read_fraction_def)
  moreover have "nat (ct_Year ?c) < 10 ^ 4" "nat (ct_Month ?c) < 10 ^ 2" "nat (ct_Day ?c) < 10 ^ 2"
    "nat (ct_Hour ?c) < 10 ^ 2" "nat (ct_Minute ?c) < 10 ^ 2" "nat (ct_Second ?c) < 10 ^ 2"
    using assms civil_time_range [of t] by (simp_all add: nat_less_iff)
  moreover have "0 \<le> ct_Year ?c" "0 \<le> ct_Month ?c" "0 \<le> ct_Day ?c" "0 \<le> ct_Hour ?c" "0 \<le> ct_Minute ?c"
    "0 \<le> ct_Second ?c" "0 \<le> time_nanosecond t"
    using assms civil_time_range [of t] ns by simp_all
  moreover have "RFC3339 t = pad 4 (nat (ct_Year ?c)) @ ''-'' @ pad 2 (nat (ct_Month ?c)) @ ''-'' @ pad 2 (nat (ct_Day ?c)) @
      ''T'' @ pad 2 (nat (ct_Hour ?c)) @ '':'' @ pad 2 (nat (ct_Minute ?c)) @ '':'' @
      pad 2 (nat (ct_Second ?c)) @ frac @ ''Z''"
    by (simp add: RFC3339_def Let_def frac_def)
  moreover have "seconds_of ?c * Second_ns + time_nanosecond t = t"
    by (simp only: seconds_of_civil_time time_nanosecond_def div_mult_mod_eq)
  ultimately show ?thesis
    by (simp only: read_Time_def) (simp del: append.simps add: butlast_append seconds_of_def)
qed

section \<open>Objects\<close>

datatype json = Json_string string | Json_number string

fun show_json :: "json \<Rightarrow> string" where
  "show_json (Json_string s) = json_string s"
| "show_json (Json_number n) = n"

fun json_ok :: "json \<Rightarrow> bool" where
  "json_ok (Json_string s) = valid_utf8 s"
| "json_ok (Json_number n) = json_number n"

definition read_json_string :: "string \<Rightarrow> (string \<times> string) option" where
  "read_json_string s = Option.bind (expect [quote] s) json_read"

definition read_json :: "string \<Rightarrow> (json \<times> string) option" where
  "read_json s =
     (if take 1 s = [quote] then map_option (\<lambda>(v, r). (Json_string v, r)) (read_json_string s)
      else let n = takeWhile number_char s
           in if json_number n then Some (Json_number n, dropWhile number_char s) else None)"

definition read_member :: "string \<Rightarrow> ((string \<times> json) \<times> string) option" where
  "read_member s =
     Option.bind (read_json_string s) (\<lambda>(k, r).
     Option.bind (expect '':'' r) (\<lambda>r.
     map_option (\<lambda>(v, r). ((k, v), r)) (read_json r)))"

definition read_object :: "string \<Rightarrow> (string \<times> json) list option" where
  "read_object s =
     (if s = ''{}'' then Some []
      else Option.bind (expect ''{'' s) (\<lambda>r.
        Option.bind (read_list (length r) '','' read_member r) (\<lambda>(ms, r).
        if r = ''}'' then Some ms else None)))"

definition show_member :: "string \<times> json \<Rightarrow> string" where
  "show_member m = json_string (fst m) @ '':'' @ show_json (snd m)"

lemma read_json_string_show: "valid_utf8 s \<Longrightarrow> read_json_string (json_string s @ t) = Some (s, t)"
  using json_read_body [of s "quote # t"] by (simp add: read_json_string_def json_string_def expect_def)

lemma reads_json: "reads show_json number_char read_json {j. json_ok j}"
proof -
  have "read_json (show_json j @ t) = Some (j, t)" if "json_ok j" "t = [] \<or> \<not> number_char (hd t)" for j t
  proof (cases j)
    case (Json_string s)
    then have "read_json_string (show_json j @ t) = Some (s, t)" using that by (simp add: read_json_string_show)
    moreover have "take 1 (show_json j @ t) = [quote]" by (simp add: Json_string json_string_def)
    ultimately show ?thesis by (simp add: read_json_def Json_string)
  next
    case (Json_number n)
    then have n: "json_number n" "list_all number_char n" using that json_number_chars by simp_all
    then have "take 1 (n @ t) \<noteq> [quote]"
      using json_number_nonempty [of n] by (cases n) (auto simp: number_char_def is_digit_def)
    then show ?thesis
      using n takeWhile_then [OF n(2) that(2)] dropWhile_then [OF n(2) that(2)]
      by (simp add: read_json_def Json_number)
  qed
  then show ?thesis by (simp add: reads_def)
qed

lemma reads_member: "reads show_member number_char read_member {m. valid_utf8 (fst m) \<and> json_ok (snd m)}"
proof -
  have "read_member (show_member (k, j) @ t) = Some ((k, j), t)"
    if "valid_utf8 k" "json_ok j" "t = [] \<or> \<not> number_char (hd t)" for k j t
  proof -
    have "read_json_string (show_member (k, j) @ t) = Some (k, '':'' @ show_json j @ t)"
      using read_json_string_show [OF that(1)] by (simp add: show_member_def)
    moreover have "read_json (show_json j @ t) = Some (j, t)"
      using reads_json that unfolding reads_def by blast
    ultimately show ?thesis by (simp add: read_member_def expect_def)
  qed
  then show ?thesis unfolding reads_def by (metis mem_Collect_eq prod.collapse)
qed

lemma read_object_show:
  assumes "\<forall>(k, j) \<in> set ms. valid_utf8 k \<and> json_ok j"
  shows "read_object (''{'' @ strings_Join (map show_member ms) '','' @ ''}'') = Some ms"
proof (cases ms)
  case (Cons m ms')
  let ?r = "strings_Join (map show_member ms) '','' @ ''}''"
  have "\<not> number_char CHR ''}''" "\<not> number_char CHR '',''" by (simp_all add: number_char_def is_digit_def)
  moreover have "length ms \<le> length ?r" using length_Join [of "'',''" ms show_member] by simp
  ultimately have "read_list (length ?r) '','' read_member ?r = Some (ms, ''}'')"
    using assms Cons by (intro read_list_Join [OF reads_member]) (auto simp: expect_def)
  moreover have "?r \<noteq> ''}''" by (cases ms') (simp_all add: Cons show_member_def json_string_def)
  ultimately show ?thesis by (simp add: read_object_def expect_def)
qed (simp add: read_object_def)

section \<open>Values\<close>

text \<open>The kinds of values, and the kind of each key of an event.\<close>

datatype kind = K_string | K_int32 | K_int64 | K_uint64 | K_StopStatus | K_Time | K_float

fun value_kind :: "go_value \<Rightarrow> kind" where
  "value_kind (Val_string _) = K_string"
| "value_kind (Val_int32 _) = K_int32"
| "value_kind (Val_int64 _) = K_int64"
| "value_kind (Val_uint64 _) = K_uint64"
| "value_kind (Val_StopStatus _) = K_StopStatus"
| "value_kind (Val_Time _) = K_Time"
| "value_kind (Val_float _) = K_float"

definition key_kind :: "string \<Rightarrow> kind" where
  "key_kind k =
     (if k \<in> {''stop_sequence'', ''dwell_time_seconds'', ''headway_time_seconds'', ''travel_time_seconds''} then K_int32
      else if k \<in> {''arrival_time'', ''departure_time'', ''start_time'', ''end_time''} then K_int64
      else if k = ''stop_status'' then K_StopStatus
      else if k = ''timestamp'' then K_Time
      else if k \<in> {''latitude'', ''longitude''} then K_float
      else K_string)"

definition read_signed :: "string \<Rightarrow> ('a::len) word option" where
  "read_signed n =
     Option.bind (read_int n) (\<lambda>i. if sint (word_of_int i :: 'a word) = i then Some (word_of_int i) else None)"

definition read_unsigned :: "string \<Rightarrow> ('a::len) word option" where
  "read_unsigned n =
     Option.bind (read_int n) (\<lambda>i. if uint (word_of_int i :: 'a word) = i then Some (word_of_int i) else None)"

fun decode :: "(string \<Rightarrow> go_float option) \<Rightarrow> kind \<Rightarrow> json \<Rightarrow> go_value option" where
  "decode unfmt K_string (Json_string s) = Some (Val_string s)"
| "decode unfmt K_Time (Json_string s) = map_option Val_Time (read_Time s)"
| "decode unfmt K_int32 (Json_number n) = map_option Val_int32 (read_signed n)"
| "decode unfmt K_int64 (Json_number n) = map_option Val_int64 (read_signed n)"
| "decode unfmt K_uint64 (Json_number n) = map_option Val_uint64 (read_unsigned n)"
| "decode unfmt K_StopStatus (Json_number n) = map_option Val_StopStatus (read_signed n)"
| "decode unfmt K_float (Json_number n) = map_option Val_float (unfmt n)"
| "decode unfmt _ _ = None"

fun decode_members :: "(string \<Rightarrow> go_float option) \<Rightarrow> (string \<times> json) list \<Rightarrow> (string \<times> go_value) list option" where
  "decode_members unfmt [] = Some []"
| "decode_members unfmt ((k, j) # ms) =
     Option.bind (decode unfmt (key_kind k) j) (\<lambda>v.
     map_option (\<lambda>kvs. (k, v) # kvs) (decode_members unfmt ms))"

text \<open>What a client makes of the data of an event.\<close>

definition read_event :: "(string \<Rightarrow> go_float option) \<Rightarrow> string \<Rightarrow> event_map option" where
  "read_event unfmt d = Option.bind (read_object d) (\<lambda>ms. map_option map_of (decode_members unfmt ms))"

text \<open>
  What is assumed of the format of floats: what is written is a JSON number and is read back as the same
  float, as the shortest representation that \<open>strconv\<close> chooses is.
\<close>

definition json_float_codec :: "(go_float \<Rightarrow> string option) \<Rightarrow> (string \<Rightarrow> go_float option) \<Rightarrow> bool" where
  "json_float_codec fmt unfmt \<longleftrightarrow> (\<forall>f s. fmt f = Some s \<longrightarrow> json_number s \<and> unfmt s = Some f)"

text \<open>The JSON value that is written for a value.\<close>

fun json_of :: "(go_float \<Rightarrow> string option) \<Rightarrow> go_value \<Rightarrow> json option" where
  "json_of fmt (Val_string s) = Some (Json_string s)"
| "json_of fmt (Val_int32 n) = Some (Json_number (decimal_int (sint n)))"
| "json_of fmt (Val_int64 n) = Some (Json_number (decimal_int (sint n)))"
| "json_of fmt (Val_uint64 n) = Some (Json_number (decimal (unat n)))"
| "json_of fmt (Val_StopStatus n) = Some (Json_number (decimal_int (sint n)))"
| "json_of fmt (Val_Time t) = (if four_digit_year t then Some (Json_string (RFC3339 t)) else None)"
| "json_of fmt (Val_float f) = map_option Json_number (fmt f)"

section \<open>The round trip\<close>

definition plain_char :: "char \<Rightarrow> bool" where
  "plain_char c \<longleftrightarrow> htmlSafe c \<and> byte c < 128"

lemma plain_json: "list_all plain_char s \<Longrightarrow> json_body s = s \<and> valid_utf8 s"
  by (induction s) (auto simp: plain_char_def json_ascii_def)

lemma plain_digits: "list_all is_digit s \<Longrightarrow> list_all plain_char s"
proof -
  have "plain_char c" if "is_digit c" for c
    using that by (auto simp: is_digit_def plain_char_def htmlSafe_def)
  then show "list_all is_digit s \<Longrightarrow> list_all plain_char s" by (simp add: list_all_iff)
qed

lemma plain_RFC3339: "list_all plain_char (RFC3339 t)"
proof -
  have "list_all plain_char (pad w n)" for w n using list_all_pad by (rule plain_digits)
  moreover have "list_all plain_char (strings_TrimRight1 s c)" if "list_all plain_char s" for s c
    using that by (auto simp: strings_TrimRight1_def list_all_iff dest: set_dropWhileD)
  ultimately show ?thesis by (simp add: RFC3339_def Let_def) (simp add: plain_char_def htmlSafe_def)
qed

lemma json_value_of: "json_value fmt v = map_option show_json (json_of fmt v)"
  using plain_json [OF plain_RFC3339]
  by (cases v) (simp_all add: json_value_def json_Time_def json_string_def map_option.compositionality comp_def
      option.map_ident)

lemma read_signed_decimal: "read_signed (decimal_int (sint w)) = Some w"
  by (simp add: read_signed_def read_int_decimal)

lemma read_unsigned_decimal: "read_unsigned (decimal (unat w)) = Some w"
proof -
  have "read_int (decimal (unat w)) = Some (uint w)"
    using read_int_decimal [of "uint w"] by (simp add: decimal_int_def)
  then show ?thesis by (simp add: read_unsigned_def)
qed

fun string_ok :: "go_value \<Rightarrow> bool" where
  "string_ok (Val_string s) = valid_utf8 s"
| "string_ok _ = True"

lemma decode_json_of:
  assumes "json_float_codec fmt unfmt" and "string_ok v" and "json_of fmt v = Some j"
  shows "json_ok j \<and> decode unfmt (value_kind v) j = Some v"
  using assms plain_json [OF plain_RFC3339]
  by (cases v)
    (auto simp: read_signed_decimal read_unsigned_decimal json_number_decimal json_number_decimal_int
      read_Time_RFC3339 json_float_codec_def split: if_splits)

lemma json_members_read:
  assumes "json_float_codec fmt unfmt"
    and "\<forall>(k, v) \<in> set kvs. valid_utf8 k \<and> string_ok v \<and> value_kind v = key_kind k"
    and "json_members fmt kvs = Some ss"
  shows "\<exists>ms. ss = map show_member ms \<and> (\<forall>(k, j) \<in> set ms. valid_utf8 k \<and> json_ok j) \<and>
    decode_members unfmt ms = Some kvs"
  using assms(2,3)
proof (induction kvs arbitrary: ss)
  case (Cons kv kvs)
  obtain k v where kv: "kv = (k, v)" by fastforce
  obtain j ss' where j: "json_of fmt v = Some j" and ss: "json_members fmt kvs = Some ss'"
    "ss = (json_string k @ '':'' @ show_json j) # ss'"
    using Cons.prems(2) by (auto simp: kv json_value_of split: option.splits)
  obtain ms where ms: "ss' = map show_member ms" "\<forall>(k, j) \<in> set ms. valid_utf8 k \<and> json_ok j"
    "decode_members unfmt ms = Some kvs"
    using Cons.IH [OF _ ss(1)] Cons.prems(1) by auto
  have "valid_utf8 k" "json_ok j \<and> decode unfmt (key_kind k) j = Some v"
    using Cons.prems(1) decode_json_of [OF assms(1) _ j] by (auto simp: kv)
  then show ?case
    using ms ss by (intro exI [of _ "(k, j) # ms"]) (simp add: show_member_def kv)
qed simp

lemma attributes_kind: "list_all (\<lambda>(k, v). value_kind v = key_kind k) (attributes_list pf e)"
  by (simp add: attributes_list_def Let_def) (simp add: key_kind_def)

lemma values_kind: "list_all (\<lambda>(k, v). value_kind v = key_kind k) (values_list pf e)"
  by (cases e) (simp_all add: values_list_def unix_of_def key_kind_def)

lemma event_entries:
  "GetEventMap pf e k = Some v \<Longrightarrow> (k, v) \<in> set (attributes_list pf e @ values_list pf e)"
  by (auto simp: GetEventMap_def GetEventAttributesMap_def GetEventValuesMap_def dest!: map_of_SomeD)

lemma GetEventMap_kind: "GetEventMap pf e k = Some v \<Longrightarrow> value_kind v = key_kind k"
  using attributes_kind [of pf e] values_kind [of pf e] event_entries [of pf e k v] by (auto simp: list_all_iff)

lemma map_entries_member:
  "(k, v) \<in> set (map_entries m) \<longleftrightarrow> k \<in> set event_keys \<and> m k = Some v"
  by (force simp: map_entries_def List.map_filter_def)

text \<open>The strings of an event are valid UTF-8.\<close>

definition event_strings_ok :: "event_map \<Rightarrow> bool" where
  "event_strings_ok m \<longleftrightarrow> list_all (\<lambda>(k, v). string_ok v) (map_entries m)"

lemma event_strings_okI:
  "list_all (\<lambda>(k, v). string_ok v) (attributes_list pf e @ values_list pf e) \<Longrightarrow> event_strings_ok (GetEventMap pf e)"
  using event_entries [of pf e] by (fastforce simp: event_strings_ok_def list_all_iff map_entries_member)

lemma event_keys_utf8: "k \<in> set event_keys \<Longrightarrow> valid_utf8 k"
proof -
  have "list_all (list_all plain_char) event_keys"
    by (simp add: event_keys_def plain_char_def htmlSafe_def)
  then show "k \<in> set event_keys \<Longrightarrow> valid_utf8 k" using plain_json by (auto simp: list_all_iff)
qed

text \<open>The JSON text of the map of an event is read back as that map.\<close>

lemma read_event_Marshal:
  assumes "json_float_codec fmt unfmt" and "event_strings_ok (GetEventMap pf e)"
    and "json_Marshal fmt (GetEventMap pf e) = Some d"
  shows "read_event unfmt d = Some (GetEventMap pf e)"
proof -
  let ?kvs = "map_entries (GetEventMap pf e)"
  obtain ss where ss: "json_members fmt ?kvs = Some ss" and d: "d = ''{'' @ strings_Join ss '','' @ ''}''"
    using assms(3) by (auto simp: json_Marshal_def)
  have "\<forall>(k, v) \<in> set ?kvs. valid_utf8 k \<and> string_ok v \<and> value_kind v = key_kind k"
    using assms(2) GetEventMap_kind event_keys_utf8
    by (auto simp: map_entries_member event_strings_ok_def list_all_iff)
  from json_members_read [OF assms(1) this ss] obtain ms where "ss = map show_member ms"
    "\<forall>(k, j) \<in> set ms. valid_utf8 k \<and> json_ok j" "decode_members unfmt ms = Some ?kvs" by blast
  then show ?thesis
    unfolding d read_event_def by (simp only: read_object_show Option.bind.simps option.map map_entries_exact)
qed

text \<open>An event cannot be written if and only if one of its floats or the year of its time cannot.\<close>

lemma json_value_None:
  "json_value fmt v = None \<longleftrightarrow>
     (\<exists>f. v = Val_float f \<and> fmt f = None) \<or> (\<exists>t. v = Val_Time t \<and> \<not> four_digit_year t)"
  by (cases v) (simp_all add: json_value_def json_Time_def)

lemma json_Marshal_None:
  "json_Marshal fmt (GetEventMap pf e) = None \<longleftrightarrow>
     (\<exists>k v. GetEventMap pf e k = Some v \<and> json_value fmt v = None)"
proof -
  have "json_members fmt kvs = None \<longleftrightarrow> (\<exists>(k, v) \<in> set kvs. json_value fmt v = None)" for kvs
    by (induction fmt kvs rule: json_members.induct) (auto split: option.splits)
  moreover have "(k, v) \<in> set (map_entries (GetEventMap pf e)) \<longleftrightarrow> GetEventMap pf e k = Some v" for k v
    using event_map_keys [of pf e] by (auto simp: map_entries_member)
  ultimately show ?thesis by (auto simp: json_Marshal_def Bex_def)
qed

section \<open>From the broadcast to the client\<close>

lemma printable_number: "json_number s \<Longrightarrow> printable s"
proof -
  have "32 \<le> byte c" if "number_char c" for c using that by (auto simp: number_char_def is_digit_def)
  then show "json_number s \<Longrightarrow> printable s" using json_number_chars [of s] by (simp add: list_all_iff)
qed

lemma codec_spec: "json_float_codec fmt unfmt \<Longrightarrow> json_float_spec fmt"
  by (auto simp: json_float_codec_def json_float_spec_def printable_number)

definition encodable :: "(go_float \<Rightarrow> string option) \<Rightarrow> event_map \<Rightarrow> bool" where
  "encodable fmt m \<longleftrightarrow> json_Marshal fmt m \<noteq> None"

lemma read_events_Marshal:
  assumes "json_float_codec fmt unfmt"
    and "\<forall>m \<in> set ms. \<exists>e. m = GetEventMap pf e \<and> event_strings_ok m"
  shows "map (read_event unfmt) (List.map_filter (json_Marshal fmt) ms) = map Some (filter (encodable fmt) ms)"
  using assms(2)
proof (induction ms)
  case (Cons m ms)
  then obtain e where m: "m = GetEventMap pf e" "event_strings_ok m" by auto
  have "read_event unfmt d = Some m" if "json_Marshal fmt m = Some d" for d
    using read_event_Marshal [OF assms(1), of pf e d] m that by simp
  then show ?case
    using Cons by (cases "json_Marshal fmt m") (simp_all add: List.map_filter_simps encodable_def)
qed (simp add: List.map_filter_simps)

lemma wanted_matches:
  "m \<in> set (wanted fmt_float pf sub ls) \<Longrightarrow>
     \<exists>e. m = GetEventMap pf e \<and> Act_broadcast e \<in> set ls \<and> matches fmt_float sub m"
  by (induction fmt_float pf sub ls rule: wanted.induct) (auto split: if_splits)

lemma matches_fields:
  "matches fmt_float sub m \<longleftrightarrow> (\<forall>(k, v) \<in> set sub. \<exists>x. m k = Some x \<and> sprint_v fmt_float x = v)"
  by (auto simp: matches_def list_all_iff split: option.splits)

lemma handleSSE_client:
  assumes "json_float_codec fmt unfmt"
    and "\<forall>m \<in> set (received_by i ls). \<exists>e. m = GetEventMap pf e \<and> event_strings_ok m"
  shows "\<exists>w. handleSSE fmt True (map Client_message (received_by i ls) @ Client_gone # cs) =
      (Event_stream sse_headers w, True) \<and>
    map (read_event unfmt) (sse_events w) = map Some (filter (encodable fmt) (received_by i ls))"
  using sse_roundtrip [OF codec_spec [OF assms(1)], of i ls cs] read_events_Marshal [OF assms] by metis

text \<open>
  Property C25. From a broadcast to the client that asked for it: a client requests the path of the
  server with the fields it wants in the query. Then, in any interleaving with other clients,
  what it decodes from the response are maps of broadcast events with those fields, in order
  and each exact to the last field, fractions of seconds and quotes in strings included; and if the client never
  lags behind by more than sixteen and has received all that is pending, it decodes every such event that JSON
  can express. Strings are assumed to be valid UTF-8 and floats to be written as numbers that read back as
  themselves.
\<close>

theorem sse_client_reads_events:
  assumes "es_run fmt_float pf NewEventServer ls0 es" and "es_channels es i = None"
    and "serve_request cfg i \<lparr>req_Path = esc_Path cfg, req_RawQuery = write_query kvs\<rparr> es = Some (es1, client)"
    and "es_run fmt_float pf es1 ls es'" and "Act_unsubscribe i \<notin> set ls"
    and "json_float_codec fmt unfmt"
    and "\<forall>e. Act_broadcast e \<in> set ls \<longrightarrow> event_strings_ok (GetEventMap pf e)"
  shows "\<exists>w ms. handleSSE fmt True (map Client_message (received_by i ls) @ Client_gone # cs) =
      (Event_stream sse_headers w, True) \<and>
    map (read_event unfmt) (sse_events w) = map Some ms \<and>
    subseq ms (wanted fmt_float pf (first_values kvs) ls) \<and>
    (\<forall>m \<in> set ms. \<forall>(k, v) \<in> set (first_values kvs). \<exists>x. m k = Some x \<and> sprint_v fmt_float x = v) \<and>
    (keeps_up fmt_float pf i (first_values kvs) ls \<and> map_option ch_buf (es_channels es' i) = Some [] \<longrightarrow>
       ms = filter (encodable fmt) (wanted fmt_float pf (first_values kvs) ls))"
proof -
  let ?sub = "first_values kvs" and ?c = "\<lparr>sub_ID = i, sub_Subscription = first_values kvs\<rparr>"
  let ?w = "wanted fmt_float pf ?sub ls" and ?ms = "filter (encodable fmt) (received_by i ls)"
  have inv: "es_inv es" using es_run_inv [OF assms(1) es_inv_new] by simp
  have es1: "es1 = fst (Subscribe i ?sub es)" using assms(3) by (auto simp: serve_request_subscribes)
  have "(i, ?c) \<in> set (es_clients es1)" "es_channels es1 i = Some make_channel"
    using fresh_client [OF inv assms(2)] by (simp_all add: es1 Subscribe_def NewSubscriber_def update_fresh)
  from subscription_run [OF assms(4) _ this assms(5)] es_inv_subscribe [OF inv assms(2)]
  obtain ch where ch: "es_channels es' i = Some ch" and sub: "subseq (received_by i ls @ ch_buf ch) ?w"
    and all: "keeps_up fmt_float pf i ?sub ls \<longrightarrow> received_by i ls @ ch_buf ch = ?w" by (auto simp: es1)
  have rec: "subseq (received_by i ls) ?w"
    using sub by (metis append_Nil2 list_emb_append_mono list_emb_Nil subseq_order.order_trans subseq_order.order_refl)
  then have wanted: "m \<in> set ?w" if "m \<in> set (received_by i ls)" for m
    using list_emb_set [OF rec that] by auto
  then have "\<forall>m \<in> set (received_by i ls). \<exists>e. m = GetEventMap pf e \<and> event_strings_ok m"
    using wanted_matches assms(7) by blast
  from handleSSE_client [OF assms(6) this, of cs] obtain w
    where "handleSSE fmt True (map Client_message (received_by i ls) @ Client_gone # cs) =
        (Event_stream sse_headers w, True)"
      and "map (read_event unfmt) (sse_events w) = map Some ?ms" by blast
  moreover have "subseq ?ms ?w" using rec subseq_filter_left subseq_order.order_trans by blast
  moreover have "\<forall>m \<in> set ?ms. \<forall>(k, v) \<in> set ?sub. \<exists>x. m k = Some x \<and> sprint_v fmt_float x = v"
  proof
    fix m assume "m \<in> set ?ms"
    then have "matches fmt_float ?sub m" using wanted wanted_matches by fastforce
    then show "\<forall>(k, v) \<in> set ?sub. \<exists>x. m k = Some x \<and> sprint_v fmt_float x = v" by (simp only: matches_fields)
  qed
  moreover have "keeps_up fmt_float pf i ?sub ls \<and> map_option ch_buf (es_channels es' i) = Some [] \<longrightarrow>
      ?ms = filter (encodable fmt) ?w"
    using all ch by auto
  ultimately show ?thesis by blast
qed

definition witness_position :: event where
  "witness_position =
     VehiclePosition_event (Some
       \<lparr>vpe_Attributes = Some (EventAttributes_zero\<lparr>VehicleId := [CHR ''v'', quote], StopSequence := - 3\<rparr>),
        vpe_Latitude = Finite (85 / 2), vpe_Longitude = Finite (- 71)\<rparr>)"

definition witness_fmt :: "go_float \<Rightarrow> string option" where
  "witness_fmt f =
     (if f = Finite (85 / 2) then Some ''42.5'' else if f = Finite (- 71) then Some ''-71'' else None)"

definition witness_unfmt :: "string \<Rightarrow> go_float option" where
  "witness_unfmt s =
     (if s = ''42.5'' then Some (Finite (85 / 2)) else if s = ''-71'' then Some (Finite (- 71)) else None)"

lemma witness_attributes:
  "event_GetAttributes witness_position = Some (EventAttributes_zero\<lparr>VehicleId := [CHR ''v'', quote], StopSequence := - 3\<rparr>)"
  "event_T witness_position = ''*events.VehiclePositionEvent''"
  by (simp_all add: witness_position_def event_GetAttributes_def event_T_def)

lemma witness_position_writable:
  "event_strings_ok (GetEventMap reference_platform witness_position)"
  "encodable witness_fmt (GetEventMap reference_platform witness_position)"
proof -
  show "event_strings_ok (GetEventMap reference_platform witness_position)"
    by (rule event_strings_okI)
      (simp add: attributes_list_def witness_attributes strings_TrimPrefix_def Let_def EventAttributes_zero_def,
        simp add: values_list_def witness_position_def)
  let ?ok = "\<lambda>v. json_value witness_fmt v \<noteq> None"
  have "AsTime reference_platform None = 0" by (simp add: reference_platform_def time_Unix_small)
  moreover have "four_digit_year 0" by code_simp
  ultimately have zero: "json_value witness_fmt (Val_Time (AsTime reference_platform None)) \<noteq> None"
    by (simp only: json_value_None) simp
  have "list_all (\<lambda>(k, v). ?ok v) (attributes_list reference_platform witness_position)"
    by (simp add: attributes_list_def witness_attributes Let_def EventAttributes_zero_def zero [simplified])
      (simp add: json_value_def)
  moreover have "list_all (\<lambda>(k, v). ?ok v) (values_list reference_platform witness_position)"
    by (simp add: values_list_def witness_position_def json_value_def witness_fmt_def)
  ultimately show "encodable witness_fmt (GetEventMap reference_platform witness_position)"
    using event_entries [of reference_platform witness_position]
    by (fastforce simp: encodable_def json_Marshal_None list_all_iff json_value_None)
qed

lemma one_event_run:
  fixes i :: SubscriberId and sub :: subscription and e :: event and pf :: platform
  defines "es \<equiv> fst (Subscribe i sub NewEventServer)" and "m \<equiv> GetEventMap pf e"
  assumes "matches fmt_float sub m"
  shows "\<exists>es'. es_run fmt_float pf es [Act_broadcast e, Act_receive i m] es' \<and>
    map_option ch_buf (es_channels es' i) = Some []"
proof -
  let ?c = "\<lparr>sub_ID = i, sub_Subscription = sub\<rparr>"
  let ?es1 = "es\<lparr>es_channels := (es_channels es)(i \<mapsto> \<lparr>ch_buf = [m], ch_closed = False\<rparr>)\<rparr>"
  let ?es2 = "es\<lparr>es_channels := (es_channels es)(i \<mapsto> make_channel)\<rparr>"
  have es: "es_clients es = [(i, ?c)]" "es_channels es i = Some make_channel"
    by (simp_all add: es_def Subscribe_def NewSubscriber_def NewEventServer_def Let_def)
  have "Broadcast fmt_float pf e es = Some ?es1"
    using assms(3) by (simp add: Broadcast_def es chan_try_send_def make_channel_def m_def)
  then have "es_run fmt_float pf es ([] @ [Act_broadcast e]) ?es1"
    by (intro es_run.snoc [OF es_run.nil] es_step.broadcast)
  moreover have "es_step fmt_float pf ?es1 (Act_receive i m) ?es2"
    by (rule es_step.receive [of i ?c]) (simp_all add: es handler_receive_def make_channel_def)
  ultimately have "es_run fmt_float pf es (([] @ [Act_broadcast e]) @ [Act_receive i m]) ?es2"
    by (rule es_run.snoc)
  then show ?thesis by (intro exI [of _ ?es2]) (simp add: make_channel_def)
qed

theorem sse_client_reads_events_witness:
  "\<exists>w. handleSSE witness_fmt True
      [Client_message (GetEventMap reference_platform witness_position), Client_gone] = (Event_stream sse_headers w, True) \<and>
    map (read_event witness_unfmt) (sse_events w) = [Some (GetEventMap reference_platform witness_position)]"
proof -
  let ?m = "GetEventMap reference_platform witness_position"
  let ?kvs = "[(''event_type'', ''VehiclePositionEvent'')]"
  let ?cfg = "\<lparr>esc_Port = ''8080'', esc_Path = ''/events''\<rparr>"
  let ?ls = "[Act_broadcast witness_position, Act_receive ''u1'' ?m]"
  have type: "?m ''event_type'' = Some (Val_string ''VehiclePositionEvent'')"
    by (simp add: witness_position_def GetEventMap_def GetEventAttributesMap_def GetEventValuesMap_def
        attributes_list_def values_list_def event_T_def strings_TrimPrefix_def Let_def)
  then have matches: "matches (\<lambda>_. []) ?kvs ?m" by (simp add: matches_def sprint_v_def)
  obtain es' where run: "es_run (\<lambda>_. []) reference_platform (fst (Subscribe ''u1'' ?kvs NewEventServer)) ?ls es'"
    and drained: "map_option ch_buf (es_channels es' ''u1'') = Some []"
    using one_event_run [OF matches] by blast
  have keeps_up: "keeps_up (\<lambda>_. []) reference_platform ''u1'' ?kvs ?ls"
    by (auto simp: keeps_up_def take_Cons' numeral_eq_Suc)
  have req: "serve_request ?cfg ''u1'' \<lparr>req_Path = esc_Path ?cfg, req_RawQuery = write_query ?kvs\<rparr> NewEventServer =
      Some (fst (Subscribe ''u1'' ?kvs NewEventServer), snd (Subscribe ''u1'' ?kvs NewEventServer))"
    using serve_request_subscribes [of ?cfg "''u1''" "esc_Path ?cfg" ?kvs NewEventServer] by simp
  have codec: "json_float_codec witness_fmt witness_unfmt"
    by (auto simp: json_float_codec_def witness_fmt_def witness_unfmt_def json_number_def number_fraction_def
        number_exponent_def is_digit_def Let_def split: if_splits)
  have new: "es_channels NewEventServer ''u1'' = None" by (simp add: NewEventServer_def)
  have ok: "\<forall>e. Act_broadcast e \<in> set ?ls \<longrightarrow> event_strings_ok (GetEventMap reference_platform e)"
    using witness_position_writable(1) by simp
  from sse_client_reads_events [OF es_run.nil new req run _ codec ok, of "[]"] obtain w ms where
    "handleSSE witness_fmt True [Client_message ?m, Client_gone] = (Event_stream sse_headers w, True)"
    "map (read_event witness_unfmt) (sse_events w) = map Some ms"
    "ms = filter (encodable witness_fmt) (wanted (\<lambda>_. []) reference_platform ?kvs ?ls)"
    using keeps_up drained by auto
  then show ?thesis using matches witness_position_writable(2) by simp
qed

end
