(* ===== verification/Spec2Isabelle.thy ===== *)
theory Spec2Isabelle
  imports Live_System Wiring Db_Schema Shared_Store Main_Program Event_Json
begin

text \<open>
  \<^bold>\<open>A verification development of tpm-go.\<close>

  The program polls GTFS-realtime feeds and derives transit performance metrics from them. Its
  parts, in the order in which data flows through them:

  \<^item> \<^emph>\<open>The process\<close> (\<open>src/main.go\<close>) reads the configuration, builds and runs a graph, waits for a signal and
    shuts down.
  \<^item> \<^emph>\<open>Configuration\<close> (\<open>src/config\<close>, \<open>src/graphs\<close>, \<open>src/pipelines\<close>, \<open>src/processors/processor.go\<close>). A YAML file
    names sources, sinks, state stores, connectors and pipelines; \<open>Validate\<close> checks it,
    \<open>NewGraph\<close> builds everything from it, and \<open>Pipeline.Run\<close> connects the parts.
  \<^item> \<^emph>\<open>Sources\<close> (\<open>src/sources\<close>) put values on a channel: polled HTTP bodies, Redis messages, or
    whatever arrives on a connector.
  \<^item> \<^emph>\<open>Processors\<close> (\<open>src/processors/transit\<close>) are goroutines between two channels. Feed bytes become feed
    messages, these become vehicle positions, these become arrivals and departures at stops, and
    these become dwell times, headways and travel times. The last four keep state per vehicle,
    stop or trip in a state store.
  \<^item> \<^emph>\<open>State stores\<close> (\<open>src/statestore\<close>) are maps with expirations, in memory or in Redis.
  \<^item> \<^emph>\<open>Sinks\<close> (\<open>src/sinks\<close>) write events to a log, a database, Parquet objects, a Redis channel, a
    connector, or to the \<^emph>\<open>event server\<close> (\<open>src/event_server\<close>), which fans them out to subscribers
    over HTTP as server-sent events.
  \<^item> \<^emph>\<open>Events\<close> (\<open>src/api/v1/events\<close>) are protobuf messages with a flat map view.

  \<^bold>\<open>Theories.\<close>

  \<^item> \<open>Go_Prelude\<close>: Go's machine integers as words, \<open>time.Time\<close> and \<open>time.Duration\<close> with saturation and
    wrap-around, the rounding of \<open>float64\<close> that \<open>Duration.Seconds\<close> and \<open>int32(...)\<close> go through, and
    strings. Its main lemma, \<open>elapsed_seconds_whole\<close>, is that the elapsed seconds of
    whole-second timestamps come out exact through the floating point detour.
  \<^item> \<open>Streams\<close>: the \<open>select\<close> loop of a goroutine over the sequence of its outcomes, the copy loop
    between flows, and the locale \<open>keyed_step\<close>: a processor whose state is partitioned by a
    key cannot leak between keys.
  \<^item> \<open>Flow_Network\<close>: the goroutines \<open>doStream\<close> and \<open>transmit\<close> of a processor as a step relation over
    unbuffered channels. Every schedule ends, and the locale \<open>flow_processor\<close>, interpreted on all
    six processors, says that no schedule delivers anything but what the stream function of the
    processor sends.
  \<^item> \<open>Events\<close>: the messages as records (a pointer is an option), their nil-safe getters, the values
    on channels, and the record \<open>platform\<close> of code outside the repository (the protobuf
    runtime), with its documented behaviour \<open>timestamppb_spec\<close>.
  \<^item> \<open>State_Store\<close>: the interface \<open>StateStore\<close> as a record of methods, the locale \<open>state_store\<close> with its
    laws, interpreted on the in-memory store and proved for the Redis store; the background
    sweep.
  \<^item> \<open>Stop_Event\<close>, \<open>Stop_Input\<close>, \<open>Dwell_Event\<close>, \<open>Headway_Event\<close>, \<open>Travel_Time\<close>, \<open>Feed_Message\<close>,
    \<open>Vehicle_Position\<close>: one theory per processor. Each has the methods of the code, then its step
    function over any store that honours the contract, an abstract specification over plain
    observations, and the theorem that the processor with the in-memory store implements it in
    every interleaving with other keys.
  \<^item> \<open>Parse_Duration\<close>, \<open>Civil_Date\<close>: the parts of Go's package \<open>time\<close> that the configuration and the
    object names use.
  \<^item> \<open>Config\<close>, \<open>Sources\<close>, \<open>Sinks\<close>, \<open>Graph\<close>: the structures of the configuration and \<open>Validate\<close>, the
    sources, the simple sinks, and the constructors up to \<open>NewGraph\<close> and \<open>Graph.Close\<close>.
  \<^item> \<open>Batching\<close>, \<open>Db_Sink\<close>, \<open>Parquet_Sink\<close>: the locale \<open>batch_sink\<close>, the contract of a sink that
    writes in batches, interpreted on both such sinks; the statements, rows and keys they
    write.
  \<^item> \<open>Event_Map\<close>, \<open>Event_Server\<close>: the map view of events, and the server with its subscribers as a
    step relation with an invariant.
  \<^item> \<open>Url_Query\<close>, \<open>Json\<close>, \<open>Sse_Handler\<close>: the HTTP side of the event server. The first two model what it
    uses of net/url and encoding/json; the last has the handler with its filters, headers and
    frames, a client that reads the stream as the standard for server-sent events says, and the
    life of the HTTP server.
  \<^item> \<open>Readers\<close>: readers of text and what it means that a reader reads back what a printer wrote, with the
    lemmas on separated lists that \<open>Db_Schema\<close> and \<open>Event_Json\<close> share.
  \<^item> \<open>Event_Json\<close>: what a client makes of the stream: a reader of JSON objects, numbers and RFC 3339 times,
    and that it gives back the maps of the broadcast events exactly.
  \<^item> \<open>Db_Schema\<close>: the tables and indexes of the SQL migration (\<open>src/db/migrations\<close>) as data, a reader of
    insert statements, and that what the database sink executes fits the tables.
  \<^item> \<open>Transit_Chain\<close>, \<open>Journey\<close>, \<open>Fleet\<close>, \<open>Feed_Journey\<close>: properties of processors connected to each other:
    the dwell and travel times of a trip in terms of the positions the vehicle reported, all stop
    events of all vehicles, and the headways of a line in terms of the vehicles in the polled bodies.
  \<^item> \<open>Pipeline_Run\<close>: the processor behind its interface, with the types it takes and emits, and
    \<open>Pipeline.Run\<close> and \<open>Graph.Run\<close> over the documented behaviour of the go-streams flows.
  \<^item> \<open>Shared_Store\<close>: processors whose state store is changed by others while they run: by its sweep,
    and by processors that are configured to share it. The locale \<open>store_client\<close> is what a processor relies on,
    interpreted on every processor; the keys are what it guarantees.
  \<^item> \<open>Graph_Network\<close>: a running graph as a step relation, its pipelines taking turns on the connectors
    between them, with the invariant of what each has taken and emitted.
  \<^item> \<open>Graph_Completion\<close>: the end of a schedule of such a graph. The processors are ordered in stages by their
    types, so every schedule of a well-typed graph is finite, and then everything has been delivered.
  \<^item> \<open>Deployment\<close>: the configurations of \<open>src/config/configs\<close> as data, and the graphs built from them.
  \<^item> \<open>Live_System\<close>: these combined: what such a graph has emitted at any moment, and once it has come to
    rest, from the responses of the agency's server on.
  \<^item> \<open>Wiring\<close>: the channels in the structures of sources, processors and sinks with their accessors, and
    which goroutine closes which of them when the graph ends.
  \<^item> \<open>Main_Program\<close>: \<open>ReadConfig\<close>, and \<open>main\<close> as a start with its exits and a step relation for the
    shutdown beside a running sink.

  \<^bold>\<open>Conventions.\<close> State is passed explicitly. A method that reads the clock takes the instant
  of the reading as an argument, so statements hold for every clock. An error is a value; a panic
  is \<open>None\<close>, \<open>Panics\<close> or \<open>Panicked\<close>. A goroutine is a function of the sequence of outcomes of its
  \<open>select\<close>, so statements about all sequences cover all schedules; all loops are structurally
  recursive on that sequence and no fuel is needed. What is sent on an unbuffered channel is
  the list of outputs; \<open>Flow_Network\<close> justifies this and covers consumers that stop receiving. Methods that
  hold a mutex for their whole body are atomic steps. A Go map that is iterated is the list
  of its entries in the order of the iteration. The bounds in the statements are those of the
  code: an hour of time to live, sixteen buffered messages, the configured batch size, and
  timestamps that lie in the 31-bit range of Unix seconds where elapsed seconds are
  computed in 32 bits.

  \<^bold>\<open>What is shown.\<close> The stop processor implements its transition table, vehicles do not interfere,
  and arrivals and departures alternate where the table is complete; dwell times, headways and
  travel times are those of their specifications, and end to end those between the vehicles in the
  polled feeds, in every schedule of the running graph; every stop event of every vehicle is determined; the sweep of the store is
  unobservable to every processor, also within a reception, and so are other processors on a shared
  store unless ids contain dashes; a validated configuration starts, only a
  validated one runs, the shipped configurations are validated, start, and connect only processors
  that understand each other, and the sinks of a running pipeline receive all its processor emits; the
  goroutines around a processor deliver what its stream function sends under every schedule, and
  every schedule ends, also those of a whole graph, at whose end everything has been delivered;
  a client decodes exactly the broadcast events it asked for; the batching sinks lose, duplicate and reorder
  nothing up to cancellation and their statements fit the tables of the migration; the event server never panics
  and delivers in order. The theorems also show where the code falls short: a departure that is
  lost, a nil event that is sent, ambiguous keys, batches dropped when a channel is closed, object
  keys that collide, states that collide in a shared store, panics on nil maps and non-positive
  intervals, sinks whose channel is closed by several goroutines in all shipped configurations, a shutdown that does not wait for the sinks, and goroutines that stay blocked behind a consumer that stopped.

  \<^bold>\<open>What is not modelled.\<close> Parameters stand for the operating system, the YAML decoder, the flows of
  go-streams, the Redis, SQL and AWS clients, the Parquet writer and the protobuf runtime, with
  named hypotheses for what the theorems need of them. What a database does with a statement that fits its tables is not modelled either. The state
  stores in \<open>Graph_Network\<close> are the private ones that the shipped configurations lead to. Left out are the text of log messages,
  the net/http server below its handler, and the reflection code and the unused collection messages of
  the generated protobuf file; the file of the bucket source is empty. How Go
  prints a floating point number is a parameter of the map view and of the JSON encoding.
\<close>

section \<open>From the start of the process to the sinks\<close>



end
